(* ===== verification/Prelude.thy ===== *)
theory Prelude
  imports Main "HOL-Library.Word"
begin

text \<open>
  Shared ground of the development: the integer types of the code, the results of
  operations that can fault, \<open>ArrayView\<close>s, and the record of the code the library links
  against but does not hold (\<open>external/CppUtilities\<close>, a git submodule). Every other theory
  imports this one.

  A C++ operation that can leave defined behaviour returns a \<open>result\<close>: \<open>Inl\<close> a fault or
  \<open>Inr\<close> its value. \<open>AssertFailed\<close> is a failing \<open>assert\<close>, \<open>OutOfBounds\<close> an access outside
  an array or a view, \<open>MissingReturn\<close> control that runs off the end of a non-void function.
\<close>

section \<open>Integer types\<close>

type_synonym u8 = "8 word"
type_synonym u16 = "16 word"
type_synonym u32 = "32 word"

text \<open>\<open>std::size_t\<close> of the 64-bit targets the tests and the Linux examples build for.\<close>

type_synonym size_t = "64 word"

section \<open>Results and faults\<close>

datatype fault = AssertFailed | OutOfBounds | MissingReturn

type_synonym 'a result = "fault + 'a"

definition rbind :: "'a result \<Rightarrow> ('a \<Rightarrow> 'b result) \<Rightarrow> 'b result" where
  "rbind m f = (case m of Inl e \<Rightarrow> Inl e | Inr x \<Rightarrow> f x)"

definition ok :: "'a result \<Rightarrow> bool" where
  "ok m = (case m of Inl _ \<Rightarrow> False | Inr _ \<Rightarrow> True)"

lemma rbind_simps [simp]: "rbind (Inr x) f = f x" "rbind (Inl e) f = Inl e"
  by (simp_all add: rbind_def)

lemma ok_simps [simp]: "ok (Inr x)" "\<not> ok (Inl e)"
  by (simp_all add: ok_def)

lemma rbind_eq_Inr [simp]: "rbind m f = Inr y \<longleftrightarrow> (\<exists>x. m = Inr x \<and> f x = Inr y)"
  by (cases m) simp_all

lemma ok_iff: "ok m \<longleftrightarrow> (\<exists>x. m = Inr x)"
  by (cases m) simp_all

lemma rbind_cong [fundef_cong]:
  "m = n \<Longrightarrow> (\<And>x. n = Inr x \<Longrightarrow> f x = g x) \<Longrightarrow> rbind m f = rbind n g"
  by (cases n) simp_all

section \<open>The platform: code that is not part of the repository\<close>

text \<open>
  \<^item> \<open>ndebug\<close>: whether the build defines \<open>NDEBUG\<close>, which turns every \<open>assert\<close> off;
  \<^item> \<open>GetByte v i\<close>: \<open>Utilities::GetByte\<close>, byte \<open>i\<close> of an unsigned value (0 is the low byte);
  \<^item> \<open>Make_MSB hi lo\<close>: \<open>Utilities::Make_MSB_uint16_tFromU8Array\<close> on the bytes \<open>hi, lo\<close>.
\<close>

record platform =
  ndebug :: bool
  GetByte :: "nat \<Rightarrow> nat \<Rightarrow> u8"
  Make_MSB :: "u8 \<Rightarrow> u8 \<Rightarrow> u16"

text \<open>
  What the code relies on: \<open>GetByte\<close> takes a value apart by powers of 256 and
  \<open>Make_MSB\<close> puts a most-significant-byte-first pair together. A theorem that needs it has
  \<open>platform_ok\<close> as a hypothesis; \<open>msb_platform\<close> shows that it can hold.
\<close>

definition platform_ok :: "platform \<Rightarrow> bool" where
  "platform_ok P \<longleftrightarrow>
     (\<forall>v i. i < 2 \<longrightarrow> unat (GetByte P v i) = v div 256 ^ i mod 256) \<and>
     (\<forall>hi lo. unat (Make_MSB P hi lo) = 256 * unat hi + unat lo)"

definition msb_platform :: "bool \<Rightarrow> platform" where
  "msb_platform nd = \<lparr>ndebug = nd,
     GetByte = (\<lambda>v i. word_of_nat (v div 256 ^ i)),
     Make_MSB = (\<lambda>hi lo. word_of_nat (256 * unat hi + unat lo))\<rparr>"

lemma unat_u8_lt [simp]: "unat (b :: u8) < 256"
  using unsigned_less [of b] by simp

lemma unat_u16_lt [simp]: "unat (w :: u16) < 65536"
  using unsigned_less [of w] by simp

lemma unat_u8_pair_lt [simp]: "256 * unat (hi :: u8) + unat (lo :: u8) < 65536"
  using unat_u8_lt [of hi] unat_u8_lt [of lo] by linarith

lemma unat_word_of_nat_u8 [simp]: "unat (word_of_nat n :: u8) = n mod 256"
  by (simp add: unat_of_nat)

lemma unat_word_of_nat_u16 [simp]: "unat (word_of_nat n :: u16) = n mod 65536"
  by (simp add: unat_of_nat)

lemma msb_platform_ok [simp]: "platform_ok (msb_platform nd)"
  unfolding platform_ok_def msb_platform_def
  by (simp only: platform.simps unat_word_of_nat_u8 unat_word_of_nat_u16) simp

lemma msb_platform_simps [simp]:
  "ndebug (msb_platform nd) = nd"
  "GetByte (msb_platform nd) v i = word_of_nat (v div 256 ^ i)"
  "Make_MSB (msb_platform nd) hi lo = word_of_nat (256 * unat hi + unat lo)"
  by (simp_all add: msb_platform_def)

lemma unat_Make_MSB: "platform_ok P \<Longrightarrow> unat (Make_MSB P hi lo) = 256 * unat hi + unat lo"
  by (simp add: platform_ok_def)

lemma unat_GetByte:
  "platform_ok P \<Longrightarrow> unat (GetByte P v 0) = v mod 256"
  "platform_ok P \<Longrightarrow> unat (GetByte P v (Suc 0)) = v div 256 mod 256"
  by (simp_all add: platform_ok_def)

lemma Make_MSB_GetByte [simp]:
  fixes w :: u16
  assumes "platform_ok P"
  shows "Make_MSB P (GetByte P (unat w) (Suc 0)) (GetByte P (unat w) 0) = w"
proof (rule word_unat_eq_iff [THEN iffD2])
  have "unat w div 256 < 256" using unat_u16_lt [of w] by linarith
  then show "unat (Make_MSB P (GetByte P (unat w) (Suc 0)) (GetByte P (unat w) 0)) = unat w"
    using assms by (simp add: unat_Make_MSB unat_GetByte)
qed

lemma GetByte_Make_MSB [simp]:
  assumes "platform_ok P"
  shows "GetByte P (unat (Make_MSB P hi lo)) (Suc 0) = hi"
    and "GetByte P (unat (Make_MSB P hi lo)) 0 = lo"
  using assms by (simp_all add: word_unat_eq_iff unat_Make_MSB unat_GetByte)

text \<open>A C \<open>assert\<close>: checked unless the build defines \<open>NDEBUG\<close>.\<close>

definition c_assert :: "platform \<Rightarrow> bool \<Rightarrow> unit result" where
  "c_assert P b = (if b \<or> ndebug P then Inr () else Inl AssertFailed)"

lemma c_assert_True [simp]: "c_assert P True = Inr ()"
  by (simp add: c_assert_def)

section \<open>Array views\<close>

text \<open>
  \<open>ArrayView<T>{n, p}\<close> is a size and a pointer. \<open>view_data\<close> is the memory from the pointer
  to the end of the array it points into, so a view may claim more elements than there are.
  An access at or past the size, or past the memory, is \<open>OutOfBounds\<close>.
\<close>

record 'a ArrayView =
  view_size :: nat
  view_data :: "'a list"

definition view_of :: "'a list \<Rightarrow> 'a ArrayView" where
  "view_of xs = \<lparr>view_size = length xs, view_data = xs\<rparr>"

definition view_get :: "'a ArrayView \<Rightarrow> nat \<Rightarrow> 'a result" where
  "view_get v i =
     (if i < view_size v \<and> i < length (view_data v) then Inr (view_data v ! i)
      else Inl OutOfBounds)"

definition view_set :: "'a ArrayView \<Rightarrow> nat \<Rightarrow> 'a \<Rightarrow> 'a ArrayView result" where
  "view_set v i x =
     (if i < view_size v \<and> i < length (view_data v)
      then Inr (v\<lparr>view_data := (view_data v)[i := x]\<rparr>) else Inl OutOfBounds)"

text \<open>\<open>ArrayView{n, &v[k]}\<close>: the element at \<open>k\<close> must exist to take its address.\<close>

definition view_from :: "'a ArrayView \<Rightarrow> nat \<Rightarrow> nat \<Rightarrow> 'a ArrayView result" where
  "view_from v k n =
     (if k < view_size v \<and> k < length (view_data v)
      then Inr \<lparr>view_size = n, view_data = drop k (view_data v)\<rparr> else Inl OutOfBounds)"

text \<open>A view all of whose elements exist.\<close>

definition view_wf :: "'a ArrayView \<Rightarrow> bool" where
  "view_wf v \<longleftrightarrow> view_size v \<le> length (view_data v)"

definition Make_MSB_uint16_tFromU8Array :: "platform \<Rightarrow> u8 ArrayView \<Rightarrow> u16 result" where
  "Make_MSB_uint16_tFromU8Array P v =
     rbind (view_get v 0) (\<lambda>hi. rbind (view_get v 1) (\<lambda>lo. Inr (Make_MSB P hi lo)))"

lemma view_of_simps [simp]:
  "view_size (view_of xs) = length xs" "view_data (view_of xs) = xs" "view_wf (view_of xs)"
  by (simp_all add: view_of_def view_wf_def)

lemma view_get_ok [simp]:
  "i < view_size v \<Longrightarrow> i < length (view_data v) \<Longrightarrow> view_get v i = Inr (view_data v ! i)"
  by (simp add: view_get_def)

lemma view_set_ok [simp]:
  "i < view_size v \<Longrightarrow> i < length (view_data v) \<Longrightarrow>
   view_set v i x = Inr (v\<lparr>view_data := (view_data v)[i := x]\<rparr>)"
  by (simp add: view_set_def)

lemma view_set_Inr:
  "view_set v i x = Inr v' \<longleftrightarrow>
   i < view_size v \<and> i < length (view_data v) \<and> v' = v\<lparr>view_data := (view_data v)[i := x]\<rparr>"
  by (auto simp: view_set_def)

lemma read_u16_ok [simp]:
  assumes "k < view_size v" and "Suc k < length (view_data v)"
  shows "rbind (view_from v k 2) (Make_MSB_uint16_tFromU8Array P) =
         Inr (Make_MSB P (view_data v ! k) (view_data v ! Suc k))"
  using assms by (simp add: view_from_def Make_MSB_uint16_tFromU8Array_def)

text \<open>The elements a range-\<open>for\<close> over the view visits.\<close>

definition view_elems :: "'a ArrayView \<Rightarrow> 'a list result" where
  "view_elems v =
     (if view_wf v then Inr (take (view_size v) (view_data v)) else Inl OutOfBounds)"

lemma view_elems_of [simp]: "view_elems (view_of xs) = Inr xs"
  by (simp add: view_elems_def)

section \<open>Overwriting a stretch of an array\<close>

text \<open>
  \<open>overwrite k ys xs\<close> is \<open>xs\<close> with the elements from \<open>k\<close> on replaced by \<open>ys\<close>. The
  specifications of the loops that store bytes one at a time are stated with it.
\<close>

definition overwrite :: "nat \<Rightarrow> 'a list \<Rightarrow> 'a list \<Rightarrow> 'a list" where
  "overwrite k ys xs = take k xs @ ys @ drop (k + length ys) xs"

lemma length_overwrite [simp]:
  "k + length ys \<le> length xs \<Longrightarrow> length (overwrite k ys xs) = length xs"
  by (simp add: overwrite_def)

lemma overwrite_Nil [simp]: "overwrite k [] xs = xs"
  by (simp add: overwrite_def)

lemma overwrite_0: "overwrite 0 ys xs = ys @ drop (length ys) xs"
  by (simp add: overwrite_def)

lemma overwrite_Cons:
  "k < length xs \<Longrightarrow> overwrite k (y # ys) xs = overwrite (Suc k) ys (xs[k := y])"
  by (simp add: overwrite_def take_Suc_conv_app_nth take_update_swap list_update_append)

lemma overwrite_append:
  "k + length ys \<le> length xs \<Longrightarrow>
   overwrite k (ys @ zs) xs = overwrite (k + length ys) zs (overwrite k ys xs)"
  by (simp add: overwrite_def ac_simps)

lemma nth_overwrite:
  "k + length ys \<le> length xs \<Longrightarrow> i < length xs \<Longrightarrow>
   overwrite k ys xs ! i = (if k \<le> i \<and> i < k + length ys then ys ! (i - k) else xs ! i)"
  by (auto simp: overwrite_def nth_append min_def)

lemma take_drop_overwrite [simp]:
  "k + length ys \<le> length xs \<Longrightarrow> take (length ys) (drop k (overwrite k ys xs)) = ys"
  by (simp add: overwrite_def)

section \<open>Registers as bytes\<close>

text \<open>
  The register contents as the wire carries them: two bytes per register, most significant
  first. \<open>bytes_regs\<close> is the inverse on whole registers.
\<close>

fun reg_bytes :: "platform \<Rightarrow> u16 list \<Rightarrow> u8 list" where
  "reg_bytes P [] = []"
| "reg_bytes P (w # ws) = GetByte P (unat w) 1 # GetByte P (unat w) 0 # reg_bytes P ws"

fun bytes_regs :: "platform \<Rightarrow> u8 list \<Rightarrow> u16 list" where
  "bytes_regs P (hi # lo # bs) = Make_MSB P hi lo # bytes_regs P bs"
| "bytes_regs P _ = []"

lemma length_reg_bytes [simp]: "length (reg_bytes P ws) = 2 * length ws"
  by (induction ws) simp_all

lemma length_bytes_regs [simp]: "length (bytes_regs P bs) = length bs div 2"
  by (induction P bs rule: bytes_regs.induct) simp_all

lemma reg_bytes_append [simp]: "reg_bytes P (xs @ ys) = reg_bytes P xs @ reg_bytes P ys"
  by (induction xs) simp_all

lemma bytes_regs_reg_bytes [simp]:
  "platform_ok P \<Longrightarrow> bytes_regs P (reg_bytes P ws) = ws"
  by (induction ws) simp_all

lemma reg_bytes_bytes_regs:
  "platform_ok P \<Longrightarrow> even (length bs) \<Longrightarrow> reg_bytes P (bytes_regs P bs) = bs"
  by (induction P bs rule: bytes_regs.induct) simp_all

end
