(* ===== verification/ModbusDefs.thy ===== *)
theory ModbusDefs
  imports Prelude
begin

text \<open>
  \<open>include/Modbus/Modbus.h\<close>: the exception codes, address spaces and function codes, the
  lookups on them, and the two packet containers \<open>Frame\<close> (a request) and \<open>Response\<close> (a
  256-byte reply buffer with its length).
\<close>

section \<open>Enumerations\<close>

datatype Exception =
    kNoException | kIllegalFunction | kIllegalDataAddress | kIllegalDataValue
  | kSlaveDeviceFailure | kAck | kSlaveDeviceBusy | kNak | kMemoryParityError
  | kGatewayPathUnavailable | kGatewayPathDeviceNoResponse | kCrcFailure

fun Exception_code :: "Exception \<Rightarrow> u8" where
  "Exception_code kNoException = 0"
| "Exception_code kIllegalFunction = 1"
| "Exception_code kIllegalDataAddress = 2"
| "Exception_code kIllegalDataValue = 3"
| "Exception_code kSlaveDeviceFailure = 4"
| "Exception_code kAck = 5"
| "Exception_code kSlaveDeviceBusy = 6"
| "Exception_code kNak = 7"
| "Exception_code kMemoryParityError = 8"
| "Exception_code kGatewayPathUnavailable = 9"
| "Exception_code kGatewayPathDeviceNoResponse = 10"
| "Exception_code kCrcFailure = 11"

datatype AddressSpace =
    kCoil | kDiscreteInput | kInputRegister | kHoldingRegister | kSystemStatus
  | kDeviceIdentifier | kUnmapped

fun AddressSpace_code :: "AddressSpace \<Rightarrow> u32" where
  "AddressSpace_code kCoil = 0"
| "AddressSpace_code kDiscreteInput = 0x100000"
| "AddressSpace_code kInputRegister = 0x300000"
| "AddressSpace_code kHoldingRegister = 0x400000"
| "AddressSpace_code kSystemStatus = 0x400001"
| "AddressSpace_code kDeviceIdentifier = 0x400002"
| "AddressSpace_code kUnmapped = 0x400003"

definition kStatusResponseAddValue :: u8 where
  "kStatusResponseAddValue = 0x80"

text \<open>
  \<open>enum class Function : uint8_t\<close> can hold any byte: \<open>kUnnamed\<close> is a value that a
  \<open>static_cast\<close> made from a byte with no enumerator.
\<close>

datatype Function =
    kReadCoils | kReadDiscreteInputs | kReadMultipleHoldingRegisters
  | kReadInputRegisters | kWriteSingleCoil | kWriteSingleHoldingRegister
  | kReadExceptionStatus | kDiagnostic | kGetComEventCounter
  | kGetComEventLog | kWriteMultipleCoils | kWriteMultipleHoldingRegisters
  | kReportSlaveId | kReadFileRecord | kWriteFileRecord
  | kMaskWriteRegister | kReadWriteMultipleRegisters | kReadFifoQueue
  | kReadDeviceIdentification
  | kErrorReadCoils | kErrorReadDiscreteInputs
  | kErrorReadMultipleHoldingRegisters | kErrorReadInputRegisters
  | kErrorWriteSingleCoil | kErrorWriteSingleHoldingRegister
  | kErrorReadExceptionStatus | kErrorDiagnostic
  | kErrorGetComEventCounter | kErrorGetComEventLog
  | kErrorWriteMultipleCoils | kErrorWriteMultipleHoldingRegisters
  | kErrorReportSlaveId | kErrorReadFileRecord
  | kErrorWriteFileRecord | kErrorMaskWriteRegister
  | kErrorReadWriteMultipleRegisters | kErrorReadFifoQueue
  | kErrorReadDeviceIdentification
  | kNone
  | kUnnamed u8

fun Function_code :: "Function \<Rightarrow> u8" where
  "Function_code kReadCoils = 1"
| "Function_code kReadDiscreteInputs = 2"
| "Function_code kReadMultipleHoldingRegisters = 3"
| "Function_code kReadInputRegisters = 4"
| "Function_code kWriteSingleCoil = 5"
| "Function_code kWriteSingleHoldingRegister = 6"
| "Function_code kReadExceptionStatus = 7"
| "Function_code kDiagnostic = 8"
| "Function_code kGetComEventCounter = 11"
| "Function_code kGetComEventLog = 12"
| "Function_code kWriteMultipleCoils = 15"
| "Function_code kWriteMultipleHoldingRegisters = 16"
| "Function_code kReportSlaveId = 17"
| "Function_code kReadFileRecord = 20"
| "Function_code kWriteFileRecord = 21"
| "Function_code kMaskWriteRegister = 22"
| "Function_code kReadWriteMultipleRegisters = 23"
| "Function_code kReadFifoQueue = 24"
| "Function_code kReadDeviceIdentification = 43"
| "Function_code kErrorReadCoils = kStatusResponseAddValue + 1"
| "Function_code kErrorReadDiscreteInputs = kStatusResponseAddValue + 2"
| "Function_code kErrorReadMultipleHoldingRegisters = kStatusResponseAddValue + 3"
| "Function_code kErrorReadInputRegisters = kStatusResponseAddValue + 4"
| "Function_code kErrorWriteSingleCoil = kStatusResponseAddValue + 5"
| "Function_code kErrorWriteSingleHoldingRegister = kStatusResponseAddValue + 6"
| "Function_code kErrorReadExceptionStatus = kStatusResponseAddValue + 7"
| "Function_code kErrorDiagnostic = kStatusResponseAddValue + 8"
| "Function_code kErrorGetComEventCounter = kStatusResponseAddValue + 11"
| "Function_code kErrorGetComEventLog = kStatusResponseAddValue + 12"
| "Function_code kErrorWriteMultipleCoils = kStatusResponseAddValue + 15"
| "Function_code kErrorWriteMultipleHoldingRegisters = kStatusResponseAddValue + 16"
| "Function_code kErrorReportSlaveId = kStatusResponseAddValue + 17"
| "Function_code kErrorReadFileRecord = kStatusResponseAddValue + 20"
| "Function_code kErrorWriteFileRecord = kStatusResponseAddValue + 21"
| "Function_code kErrorMaskWriteRegister = kStatusResponseAddValue + 22"
| "Function_code kErrorReadWriteMultipleRegisters = kStatusResponseAddValue + 23"
| "Function_code kErrorReadFifoQueue = kStatusResponseAddValue + 24"
| "Function_code kErrorReadDeviceIdentification = kStatusResponseAddValue + 43"
| "Function_code kNone = 0xff"
| "Function_code (kUnnamed c) = c"

definition named_functions :: "Function list" where
  "named_functions =
    [kReadCoils, kReadDiscreteInputs,
     kReadMultipleHoldingRegisters, kReadInputRegisters,
     kWriteSingleCoil, kWriteSingleHoldingRegister,
     kReadExceptionStatus, kDiagnostic,
     kGetComEventCounter, kGetComEventLog,
     kWriteMultipleCoils, kWriteMultipleHoldingRegisters,
     kReportSlaveId, kReadFileRecord,
     kWriteFileRecord, kMaskWriteRegister,
     kReadWriteMultipleRegisters, kReadFifoQueue,
     kReadDeviceIdentification, kErrorReadCoils,
     kErrorReadDiscreteInputs, kErrorReadMultipleHoldingRegisters,
     kErrorReadInputRegisters, kErrorWriteSingleCoil,
     kErrorWriteSingleHoldingRegister, kErrorReadExceptionStatus,
     kErrorDiagnostic, kErrorGetComEventCounter,
     kErrorGetComEventLog, kErrorWriteMultipleCoils,
     kErrorWriteMultipleHoldingRegisters, kErrorReportSlaveId,
     kErrorReadFileRecord, kErrorWriteFileRecord,
     kErrorMaskWriteRegister, kErrorReadWriteMultipleRegisters,
     kErrorReadFifoQueue, kErrorReadDeviceIdentification,
     kNone]"

text \<open>\<open>static_cast<Modbus::Function>(code)\<close>.\<close>

definition Function_of_code :: "u8 \<Rightarrow> Function" where
  "Function_of_code code =
     (case find (\<lambda>f. Function_code f = code) named_functions of
        Some f \<Rightarrow> f | None \<Rightarrow> kUnnamed code)"

datatype PacketState = kAddress | kFunction | kMeta | kData | kDone

datatype CoilState = kOff | kOn | kInvalid

fun CoilState_code :: "CoilState \<Rightarrow> u16" where
  "CoilState_code kOff = 0x0000"
| "CoilState_code kOn = 0xff00"
| "CoilState_code kInvalid = 0xffff"

datatype PacketType = kCommand | kResponse | kError | kUnknown

text \<open>
  The order of the enumerators is the order a packet is read in; the library's linear order
  on \<open>PacketState\<close> follows it.
\<close>

fun PacketState_rank :: "PacketState \<Rightarrow> nat" where
  "PacketState_rank kAddress = 0"
| "PacketState_rank kFunction = 1"
| "PacketState_rank kMeta = 2"
| "PacketState_rank kData = 3"
| "PacketState_rank kDone = 4"

instantiation PacketState :: linorder
begin

definition less_eq_PacketState :: "PacketState \<Rightarrow> PacketState \<Rightarrow> bool" where
  "less_eq_PacketState s t \<longleftrightarrow> PacketState_rank s \<le> PacketState_rank t"

definition less_PacketState :: "PacketState \<Rightarrow> PacketState \<Rightarrow> bool" where
  "less_PacketState s t \<longleftrightarrow> PacketState_rank s < PacketState_rank t"

instance
proof
  fix s t u :: PacketState
  show "s \<le> t \<Longrightarrow> t \<le> s \<Longrightarrow> s = t"
    by (cases s; cases t) (simp_all add: less_eq_PacketState_def)
qed (auto simp: less_eq_PacketState_def less_PacketState_def)

end

section \<open>Function codes\<close>

definition GetValidFunctions :: "Function list" where
  "GetValidFunctions =
    [kReadCoils, kReadDiscreteInputs,
     kReadMultipleHoldingRegisters, kReadInputRegisters,
     kWriteSingleCoil, kWriteSingleHoldingRegister,
     kReadExceptionStatus, kDiagnostic,
     kGetComEventCounter, kGetComEventLog,
     kWriteMultipleCoils, kWriteMultipleHoldingRegisters,
     kReportSlaveId, kReadFileRecord,
     kWriteFileRecord, kMaskWriteRegister,
     kReadWriteMultipleRegisters, kReadFifoQueue,
     kReadDeviceIdentification]"

definition GetSupportedFunctions :: "Function list" where
  "GetSupportedFunctions =
    [kReadMultipleHoldingRegisters, kReadInputRegisters,
     kWriteSingleHoldingRegister, kWriteMultipleHoldingRegisters]"

definition GetErrorFunction :: "Function \<Rightarrow> Function" where
  "GetErrorFunction f =
     (if Function_code f \<ge> kStatusResponseAddValue then f
      else Function_of_code (Function_code f + kStatusResponseAddValue))"

definition GetAddressSpaceFromFunction :: "platform \<Rightarrow> Function \<Rightarrow> AddressSpace result" where
  "GetAddressSpaceFromFunction P f =
     (case f of
        kReadCoils \<Rightarrow> Inr kCoil
      | kWriteSingleCoil \<Rightarrow> Inr kCoil
      | kWriteMultipleCoils \<Rightarrow> Inr kCoil
      | kReadDiscreteInputs \<Rightarrow> Inr kDiscreteInput
      | kReadInputRegisters \<Rightarrow> Inr kInputRegister
      | kReadMultipleHoldingRegisters \<Rightarrow> Inr kHoldingRegister
      | kWriteSingleHoldingRegister \<Rightarrow> Inr kHoldingRegister
      | kWriteMultipleHoldingRegisters \<Rightarrow> Inr kHoldingRegister
      | kReadWriteMultipleRegisters \<Rightarrow> Inr kHoldingRegister
      | kMaskWriteRegister \<Rightarrow> Inr kHoldingRegister
      | kReadExceptionStatus \<Rightarrow> Inr kSystemStatus
      | kDiagnostic \<Rightarrow> Inr kSystemStatus
      | kGetComEventCounter \<Rightarrow> Inr kSystemStatus
      | kGetComEventLog \<Rightarrow> Inr kSystemStatus
      | kReportSlaveId \<Rightarrow> Inr kDeviceIdentifier
      | kReadFileRecord \<Rightarrow> Inr kUnmapped
      | kWriteFileRecord \<Rightarrow> Inr kUnmapped
      | kReadFifoQueue \<Rightarrow> Inr kUnmapped
      | kReadDeviceIdentification \<Rightarrow> Inr kDeviceIdentifier
      | kNone \<Rightarrow> Inr kUnmapped
      | _ \<Rightarrow> rbind (c_assert P False) (\<lambda>_. Inr kUnmapped))"

fun GetFunction_loop :: "Function list \<Rightarrow> u8 \<Rightarrow> Function" where
  "GetFunction_loop [] code = kNone"
| "GetFunction_loop (i # rest) code =
     (if code = Function_code i then i else GetFunction_loop rest code)"

definition GetFunction :: "u8 \<Rightarrow> Function" where
  "GetFunction code = GetFunction_loop GetValidFunctions code"

text \<open>
  The loop of \<open>FunctionIsSupported\<close> has its \<open>return valid\<close> inside the body, and nothing
  after it: a match breaks out of the loop and runs off the end of the function.
\<close>

fun FunctionIsSupported_loop :: "Function list \<Rightarrow> Function \<Rightarrow> bool result" where
  "FunctionIsSupported_loop [] f = Inl MissingReturn"
| "FunctionIsSupported_loop (i # rest) f =
     (let valid = False in if f = i then Inl MissingReturn else Inr valid)"

definition FunctionIsSupported :: "Function \<Rightarrow> bool result" where
  "FunctionIsSupported f = FunctionIsSupported_loop GetSupportedFunctions f"

fun FunctionCodeIsValid_loop :: "Function list \<Rightarrow> u8 \<Rightarrow> bool" where
  "FunctionCodeIsValid_loop [] code = False"
| "FunctionCodeIsValid_loop (pt # rest) code =
     (if Function_code pt = code then True else FunctionCodeIsValid_loop rest code)"

definition FunctionCodeIsValid :: "u8 \<Rightarrow> bool" where
  "FunctionCodeIsValid code =
     (if code > Function_code kReadDeviceIdentification then False
      else FunctionCodeIsValid_loop GetValidFunctions code)"

lemma FunctionCodeIsValid_loop_iff:
  "FunctionCodeIsValid_loop fs code \<longleftrightarrow> code \<in> Function_code ` set fs"
  by (induction fs) auto

lemma GetFunction_loop_code:
  "code \<in> Function_code ` set fs \<Longrightarrow>
   GetFunction_loop fs code \<in> set fs \<and> Function_code (GetFunction_loop fs code) = code"
  by (induction fs) auto

lemma valid_codes_small: "f \<in> set GetValidFunctions \<Longrightarrow> Function_code f \<le> 43"
  by (auto simp: GetValidFunctions_def)

lemma FunctionCodeIsValid_iff:
  "FunctionCodeIsValid code \<longleftrightarrow> code \<in> Function_code ` set GetValidFunctions"
  using valid_codes_small
  by (auto simp: FunctionCodeIsValid_def FunctionCodeIsValid_loop_iff leD)

lemma GetFunction_valid:
  "FunctionCodeIsValid code \<Longrightarrow>
   GetFunction code \<in> set GetValidFunctions \<and> Function_code (GetFunction code) = code"
  by (simp add: FunctionCodeIsValid_iff GetFunction_def GetFunction_loop_code)

lemma GetFunction_code:
  "f \<in> set GetValidFunctions \<Longrightarrow> GetFunction (Function_code f) = f"
  by (auto simp: GetValidFunctions_def GetFunction_def)

lemma FunctionCodeIsValid_code:
  "f \<in> set GetValidFunctions \<Longrightarrow> FunctionCodeIsValid (Function_code f)"
  by (simp add: FunctionCodeIsValid_iff)

text \<open>
  The cast keeps the byte, whatever it is, and turns the code of an enumerator back into it.
\<close>

lemma Function_code_of_code [simp]: "Function_code (Function_of_code c) = c"
  by (auto simp: Function_of_code_def find_Some_iff split: option.split)

lemma distinct_Function_codes: "distinct (map Function_code named_functions)"
  by (simp add: named_functions_def kStatusResponseAddValue_def)

lemma Function_of_code_named:
  assumes "f \<in> set named_functions"
  shows "Function_of_code (Function_code f) = f"
proof -
  obtain g where g: "find (\<lambda>g. Function_code g = Function_code f) named_functions = Some g"
    using assms by (cases "find (\<lambda>g. Function_code g = Function_code f) named_functions")
      (auto simp: find_None_iff)
  then have "g \<in> set named_functions" "Function_code g = Function_code f"
    by (auto simp: find_Some_iff)
  then have "g = f"
    using distinct_Function_codes assms by (auto simp: distinct_map inj_on_def)
  with g show ?thesis by (simp add: Function_of_code_def)
qed

lemma GetErrorFunction_code:
  assumes "f \<in> set GetValidFunctions"
  shows "Function_code (GetErrorFunction f) = Function_code f + kStatusResponseAddValue"
proof -
  have "\<not> kStatusResponseAddValue \<le> Function_code f"
    using valid_codes_small [OF assms] by (simp add: kStatusResponseAddValue_def word_le_nat_alt)
  then show ?thesis by (simp add: GetErrorFunction_def)
qed

section \<open>Frames\<close>

record Frame =
  frame_address :: u8
  frame_function :: Function
  data_length :: nat
  data_array :: "u8 ArrayView"

text \<open>\<open>explicit Frame(ArrayView<uint8_t>)\<close> and the default constructor.\<close>

definition Frame_of_view :: "u8 ArrayView \<Rightarrow> Frame" where
  "Frame_of_view v = \<lparr>frame_address = 0, frame_function = kNone, data_length = 0, data_array = v\<rparr>"

definition Frame_default :: Frame where
  "Frame_default = Frame_of_view \<lparr>view_size = 0, view_data = []\<rparr>"

text \<open>\<open>Frame::Reset\<close> zeroes the elements of the view, not the memory behind it.\<close>

definition Frame_Reset :: "Frame \<Rightarrow> Frame" where
  "Frame_Reset f = f\<lparr>frame_address := 0, frame_function := kNone, data_length := 0,
     data_array := (data_array f)\<lparr>view_data :=
       replicate (min (view_size (data_array f)) (length (view_data (data_array f)))) 0 @
       drop (view_size (data_array f)) (view_data (data_array f))\<rparr>\<rparr>"

section \<open>Responses\<close>

record Response =
  res_length :: nat
  res_data :: "u8 list"
  res_ready :: bool

definition kMaxFrameLength :: nat where
  "kMaxFrameLength = 256"

definition Response_init :: Response where
  "Response_init = \<lparr>res_length = 0, res_data = replicate kMaxFrameLength 0, res_ready = False\<rparr>"

definition Response_wf :: "Response \<Rightarrow> bool" where
  "Response_wf r \<longleftrightarrow> length (res_data r) = kMaxFrameLength"

definition Response_size :: "Response \<Rightarrow> nat" where
  "Response_size r = length (res_data r)"

definition SetLength :: "nat \<Rightarrow> Response \<Rightarrow> Response" where
  "SetLength n r = r\<lparr>res_length := n\<rparr>"

definition SetReady :: "bool \<Rightarrow> Response \<Rightarrow> Response" where
  "SetReady b r = r\<lparr>res_ready := b\<rparr>"

text \<open>
  \<open>at\<close> and \<open>operator[]\<close> assert \<open>index <= size()\<close> and send any index that is not below the
  size to element 0.
\<close>

definition Response_index :: "platform \<Rightarrow> Response \<Rightarrow> nat \<Rightarrow> nat result" where
  "Response_index P r index =
     rbind (c_assert P (index \<le> Response_size r))
       (\<lambda>_. Inr (if index < Response_size r then index else 0))"

definition Response_at :: "platform \<Rightarrow> Response \<Rightarrow> nat \<Rightarrow> u8 result" where
  "Response_at P r index = rbind (Response_index P r index) (\<lambda>i. Inr (res_data r ! i))"

definition Response_set :: "platform \<Rightarrow> nat \<Rightarrow> u8 \<Rightarrow> Response \<Rightarrow> Response result" where
  "Response_set P index x r =
     rbind (Response_index P r index) (\<lambda>i. Inr (r\<lparr>res_data := (res_data r)[i := x]\<rparr>))"

definition Response_GetArrayView :: "Response \<Rightarrow> u8 ArrayView" where
  "Response_GetArrayView r = \<lparr>view_size = res_length r, view_data = res_data r\<rparr>"

definition Response_Reset :: "Response \<Rightarrow> Response" where
  "Response_Reset r =
     SetReady False (SetLength 0 (r\<lparr>res_data := replicate (length (res_data r)) 0\<rparr>))"

text \<open>The bytes from \<open>begin()\<close> to \<open>end()\<close>, which is what a transmitter sends.\<close>

definition Response_bytes :: "Response \<Rightarrow> u8 list result" where
  "Response_bytes r =
     (if res_length r \<le> length (res_data r) then Inr (take (res_length r) (res_data r)) else Inl OutOfBounds)"

lemma Response_init_wf [simp]: "Response_wf Response_init"
  by (simp add: Response_wf_def Response_init_def)

lemma Response_Reset_wf [simp]: "Response_wf (Response_Reset r) = Response_wf r"
  by (simp add: Response_wf_def Response_Reset_def SetReady_def SetLength_def)

lemma Response_Reset_init: "Response_wf r \<Longrightarrow> Response_Reset r = Response_init"
  by (simp add: Response_wf_def Response_Reset_def SetReady_def SetLength_def Response_init_def)

lemma Response_set_ok [simp]:
  "i < length (res_data r) \<Longrightarrow> Response_set P i x r = Inr (r\<lparr>res_data := (res_data r)[i := x]\<rparr>)"
  by (simp add: Response_set_def Response_index_def Response_size_def)

lemma Response_set_past_end:
  "Response_set P (length (res_data r)) x r = Inr (r\<lparr>res_data := (res_data r)[0 := x]\<rparr>)"
  by (simp add: Response_set_def Response_index_def Response_size_def)

section \<open>What the tables of functions guarantee\<close>

text \<open>
  C29: the three function tables agree: a byte is a valid code exactly when it is the code of one
  of the 19 functions; \<open>GetFunction\<close> is the inverse of the code on them and gives \<open>kNone\<close> for
  every other byte; their error function is the code with the top bit set, which is never a
  valid code, and a second application leaves it alone.
\<close>

theorem function_codes_roundtrip:
  "(FunctionCodeIsValid code \<longleftrightarrow> (\<exists>f. f \<in> set GetValidFunctions \<and> Function_code f = code)) \<and>
   GetFunction code = (if FunctionCodeIsValid code then Function_of_code code else kNone) \<and>
   (FunctionCodeIsValid code \<longrightarrow> Function_code (GetFunction code) = code \<and>
      Function_code (GetErrorFunction (GetFunction code)) = code + 0x80 \<and>
      \<not> FunctionCodeIsValid (code + 0x80) \<and>
      GetErrorFunction (GetErrorFunction (GetFunction code)) = GetErrorFunction (GetFunction code))"
proof (intro conjI impI)
  show "FunctionCodeIsValid code \<longleftrightarrow> (\<exists>f. f \<in> set GetValidFunctions \<and> Function_code f = code)"
    by (auto simp: FunctionCodeIsValid_iff)
  have none: "GetFunction_loop fs code = kNone" if "code \<notin> Function_code ` set fs" for fs
    using that by (induction fs) auto
  show "GetFunction code = (if FunctionCodeIsValid code then Function_of_code code else kNone)"
  proof (cases "FunctionCodeIsValid code")
    case True
    then obtain f where f: "f \<in> set GetValidFunctions" "Function_code f = code"
      by (auto simp: FunctionCodeIsValid_iff)
    then have "f \<in> set named_functions" by (auto simp: GetValidFunctions_def named_functions_def)
    then show ?thesis
      using True f(2) GetFunction_code [OF f(1)] Function_of_code_named by auto
  next
    case False
    then show ?thesis using none by (simp add: FunctionCodeIsValid_iff GetFunction_def)
  qed
  assume v: "FunctionCodeIsValid code"
  note f = GetFunction_valid [OF v]
  show "Function_code (GetFunction code) = code" using f by simp
  show e: "Function_code (GetErrorFunction (GetFunction code)) = code + 0x80"
    using GetErrorFunction_code f by (simp add: kStatusResponseAddValue_def)
  have "code \<le> 43" using valid_codes_small f by fastforce
  then have "unat (code + 0x80) = unat code + 128"
    by (simp add: unat_word_ariths word_le_nat_alt)
  then have big: "kStatusResponseAddValue \<le> code + 0x80" "43 < code + 0x80"
    by (simp_all add: kStatusResponseAddValue_def word_le_nat_alt word_less_nat_alt)
  then show "\<not> FunctionCodeIsValid (code + 0x80)"
    by (simp add: FunctionCodeIsValid_def)
  show "GetErrorFunction (GetErrorFunction (GetFunction code)) = GetErrorFunction (GetFunction code)"
    using big(1) e by (simp add: GetErrorFunction_def [of "GetErrorFunction (GetFunction code)"])
qed

theorem function_codes_roundtrip_witness:
  "FunctionCodeIsValid 16 \<and> Function_code (GetErrorFunction (GetFunction 16)) = 0x90"
proof -
  have "FunctionCodeIsValid 16"
    by (simp add: FunctionCodeIsValid_def GetValidFunctions_def)
  moreover from this have "Function_code (GetErrorFunction (GetFunction 16)) = 16 + 0x80"
    using function_codes_roundtrip [of 16] by blast
  ultimately show ?thesis by simp
qed

text \<open>
  \<open>FunctionIsSupported\<close> never answers \<open>true\<close>: for the first supported function control runs
  off the end of the function, for every other one, supported or not, the answer is \<open>false\<close>.
\<close>

lemma FunctionIsSupported_never_true:
  "FunctionIsSupported f = (if f = kReadMultipleHoldingRegisters then Inl MissingReturn else Inr False)"
  by (simp add: FunctionIsSupported_def GetSupportedFunctions_def)

end
