(* ===== verification/RegisterCommands.thy ===== *)
theory RegisterCommands
  imports ModbusDefs
begin

text \<open>
  The layout of the register commands: \<open>Command\<close> (\<open>Modbus.h\<close>), \<open>DataCommand.h\<close>, the
  command classes of \<open>RegisterControl.h\<close> and the helpers of \<open>Utilities.h\<close>. Each class reads
  fields out of a request's data, writes a request (\<open>FillFrame\<close>) and writes the header of
  a reply (\<open>FillResponseHeader\<close>). The lemmas say which bytes they read and write, and that
  reading a filled request gives its fields back.
\<close>

section \<open>Offsets\<close>

named_theorems layout \<open>the offsets of the packets, as numbers\<close>

definition kHeaderLength :: nat where [layout]: "kHeaderLength = 2"
definition kFooterLength :: nat where [layout]: "kFooterLength = 2"
definition Command_kSlaveAddress :: nat where [layout]: "Command_kSlaveAddress = 0"
definition Command_kFunction :: nat where [layout]: "Command_kFunction = 1"
definition Command_kHeaderEnd :: nat where [layout]: "Command_kHeaderEnd = Command_kFunction"

definition kDataAddressStart :: nat where [layout]: "kDataAddressStart = 0"
definition kDataAddressEnd :: nat where [layout]: "kDataAddressEnd = kDataAddressStart + 2 - 1"

definition WriteSingle_kValueStart :: nat where
  [layout]: "WriteSingle_kValueStart = kDataAddressEnd + 1"
definition WriteSingle_kPacketSize :: nat where
  [layout]: "WriteSingle_kPacketSize = WriteSingle_kValueStart + 2"
definition WriteSingle_Response_kDataAddress :: nat where
  [layout]: "WriteSingle_Response_kDataAddress = Command_kHeaderEnd + 1"
definition WriteSingle_Response_kValueStart :: nat where
  [layout]: "WriteSingle_Response_kValueStart = WriteSingle_Response_kDataAddress + 2"
definition WriteSingle_Response_kPacketSize :: nat where
  [layout]: "WriteSingle_Response_kPacketSize = WriteSingle_Response_kValueStart + 2"

definition ReadMultiple_kRegisterCount :: nat where
  [layout]: "ReadMultiple_kRegisterCount = kDataAddressEnd + 1"
definition ReadMultiple_kPacketSize :: nat where
  [layout]: "ReadMultiple_kPacketSize = ReadMultiple_kRegisterCount + 2"
definition ReadMultiple_Response_kNumberOfBytes :: nat where
  [layout]: "ReadMultiple_Response_kNumberOfBytes = Command_kHeaderEnd + 1"
definition ReadMultiple_Response_kHeaderSize :: nat where
  [layout]: "ReadMultiple_Response_kHeaderSize = ReadMultiple_Response_kNumberOfBytes + 1"

definition WriteMultiple_kRegisterCount :: nat where
  [layout]: "WriteMultiple_kRegisterCount = kDataAddressEnd + 1"
definition WriteMultiple_kNumberOfDataBytes :: nat where
  [layout]: "WriteMultiple_kNumberOfDataBytes = WriteMultiple_kRegisterCount + 2"
definition WriteMultiple_kValueStart :: nat where
  [layout]: "WriteMultiple_kValueStart = WriteMultiple_kNumberOfDataBytes + 1"
definition WriteMultiple_kHeaderSize :: nat where
  [layout]: "WriteMultiple_kHeaderSize = WriteMultiple_kValueStart"
definition WriteMultiple_Response_kDataAddress :: nat where
  [layout]: "WriteMultiple_Response_kDataAddress = Command_kHeaderEnd + 1"
definition WriteMultiple_Response_kRegisterCount :: nat where
  [layout]: "WriteMultiple_Response_kRegisterCount = WriteMultiple_Response_kDataAddress + 2"
definition WriteMultiple_Response_kPacketSize :: nat where
  [layout]: "WriteMultiple_Response_kPacketSize = WriteMultiple_Response_kRegisterCount + 2"

lemma layout_numbers [simp]:
  "kHeaderLength = 2" "kFooterLength = 2" "Command_kSlaveAddress = 0" "Command_kFunction = 1"
  "Command_kHeaderEnd = 1" "kDataAddressStart = 0" "kDataAddressEnd = 1"
  "WriteSingle_kValueStart = 2" "WriteSingle_kPacketSize = 4"
  "WriteSingle_Response_kDataAddress = 2" "WriteSingle_Response_kValueStart = 4"
  "WriteSingle_Response_kPacketSize = 6"
  "ReadMultiple_kRegisterCount = 2" "ReadMultiple_kPacketSize = 4"
  "ReadMultiple_Response_kNumberOfBytes = 2" "ReadMultiple_Response_kHeaderSize = 3"
  "WriteMultiple_kRegisterCount = 2" "WriteMultiple_kNumberOfDataBytes = 4"
  "WriteMultiple_kValueStart = 5" "WriteMultiple_kHeaderSize = 5"
  "WriteMultiple_Response_kDataAddress = 2" "WriteMultiple_Response_kRegisterCount = 4"
  "WriteMultiple_Response_kPacketSize = 6"
  by (simp_all add: layout)

section \<open>Utilities.h\<close>

function MakeRegistersToBytes_loop ::
  "platform \<Rightarrow> u16 list \<Rightarrow> nat \<Rightarrow> u8 ArrayView \<Rightarrow> u8 ArrayView result" where
  "MakeRegistersToBytes_loop P data_view i data_out =
     (if i < length data_view
      then rbind (view_set data_out (i * 2) (GetByte P (unat (data_view ! i)) 1))
        (\<lambda>data_out. rbind (view_set data_out (i * 2 + 1) (GetByte P (unat (data_view ! i)) 0))
        (\<lambda>data_out. MakeRegistersToBytes_loop P data_view (Suc i) data_out))
      else Inr data_out)"
  by pat_completeness auto
termination
  by (relation "measure (\<lambda>(P, data_view, i, data_out). length data_view - i)") auto

declare MakeRegistersToBytes_loop.simps [simp del]

definition MakeRegistersToBytes ::
  "platform \<Rightarrow> u16 list \<Rightarrow> u8 ArrayView \<Rightarrow> u8 ArrayView result" where
  "MakeRegistersToBytes P data_view data_out = MakeRegistersToBytes_loop P data_view 0 data_out"

function InList_loop :: "'a \<Rightarrow> 'a list \<Rightarrow> nat \<Rightarrow> nat \<Rightarrow> bool" where
  "InList_loop item xs sz i =
     (if i < sz then (if item = xs ! i then True else InList_loop item xs sz (Suc i))
      else False)"
  by pat_completeness auto
termination
  by (relation "measure (\<lambda>(item, xs, sz, i). sz - i)") auto

declare InList_loop.simps [simp del]

definition InList :: "'a \<Rightarrow> 'a list \<Rightarrow> bool" where
  "InList item xs = InList_loop item xs (length xs) 0"

section \<open>Reading requests and replies\<close>

definition read_u16 :: "platform \<Rightarrow> u8 ArrayView \<Rightarrow> nat \<Rightarrow> u16 result" where
  "read_u16 P v k = rbind (view_from v k 2) (Make_MSB_uint16_tFromU8Array P)"

definition DataCommand_ReadAddressStart :: "platform \<Rightarrow> u8 ArrayView \<Rightarrow> u16 result" where
  "DataCommand_ReadAddressStart P v = read_u16 P v kDataAddressStart"

definition WriteSingle_ReadSetting :: "platform \<Rightarrow> u8 ArrayView \<Rightarrow> u16 result" where
  "WriteSingle_ReadSetting P v = read_u16 P v WriteSingle_kValueStart"

definition WriteSingle_ReadResponseSetting :: "platform \<Rightarrow> u8 ArrayView \<Rightarrow> u16 result" where
  "WriteSingle_ReadResponseSetting P v = read_u16 P v WriteSingle_Response_kValueStart"

definition WriteSingle_ReadResponseAddressStart :: "platform \<Rightarrow> u8 ArrayView \<Rightarrow> u16 result" where
  "WriteSingle_ReadResponseAddressStart P v = read_u16 P v WriteSingle_Response_kDataAddress"

definition ReadMultiple_ReadRegisterCount :: "platform \<Rightarrow> u8 ArrayView \<Rightarrow> u16 result" where
  "ReadMultiple_ReadRegisterCount P v = read_u16 P v ReadMultiple_kRegisterCount"

definition ReadMultiple_ReadResponseByteCount :: "u8 ArrayView \<Rightarrow> u8 result" where
  "ReadMultiple_ReadResponseByteCount v = view_get v ReadMultiple_Response_kNumberOfBytes"

definition WriteMultiple_ReadRegisterCount :: "platform \<Rightarrow> u8 ArrayView \<Rightarrow> u16 result" where
  "WriteMultiple_ReadRegisterCount P v = read_u16 P v WriteMultiple_kRegisterCount"

definition WriteMultiple_ReadDataByteCount :: "u8 ArrayView \<Rightarrow> nat result" where
  "WriteMultiple_ReadDataByteCount v =
     rbind (view_get v WriteMultiple_kNumberOfDataBytes) (\<lambda>b. Inr (unat b))"

definition WriteMultiple_ReadResponseRegisterCount :: "platform \<Rightarrow> u8 ArrayView \<Rightarrow> u16 result" where
  "WriteMultiple_ReadResponseRegisterCount P v = read_u16 P v WriteMultiple_Response_kRegisterCount"

definition WriteMultiple_ReadResponseAddressStart :: "platform \<Rightarrow> u8 ArrayView \<Rightarrow> u16 result" where
  "WriteMultiple_ReadResponseAddressStart P v = read_u16 P v WriteMultiple_Response_kDataAddress"

lemmas read_field_defs =
  DataCommand_ReadAddressStart_def WriteSingle_ReadSetting_def
  WriteSingle_ReadResponseSetting_def WriteSingle_ReadResponseAddressStart_def
  ReadMultiple_ReadRegisterCount_def ReadMultiple_ReadResponseByteCount_def
  WriteMultiple_ReadRegisterCount_def WriteMultiple_ReadDataByteCount_def
  WriteMultiple_ReadResponseRegisterCount_def WriteMultiple_ReadResponseAddressStart_def

section \<open>Writing requests\<close>

definition Frame_set :: "nat \<Rightarrow> u8 \<Rightarrow> Frame \<Rightarrow> Frame result" where
  "Frame_set i x f = rbind (view_set (data_array f) i x) (\<lambda>v. Inr (f\<lparr>data_array := v\<rparr>))"

text \<open>\<open>WriteSingleHoldingRegisterCommand::FillFrame\<close>. Every \<open>FillFrame\<close> returns 0.\<close>

definition WriteSingle_FillFrame ::
  "platform \<Rightarrow> u16 \<Rightarrow> u16 \<Rightarrow> Frame \<Rightarrow> (int \<times> Frame) result" where
  "WriteSingle_FillFrame P addr val f =
     rbind (c_assert P (view_size (data_array f) \<ge> WriteSingle_kPacketSize)) (\<lambda>_.
     rbind (Frame_set kDataAddressStart (GetByte P (unat addr) 1)
              (f\<lparr>frame_function := kWriteSingleHoldingRegister\<rparr>)) (\<lambda>f.
     rbind (Frame_set (kDataAddressStart + 1) (GetByte P (unat addr) 0) f) (\<lambda>f.
     rbind (Frame_set WriteSingle_kValueStart (GetByte P (unat val) 1) f) (\<lambda>f.
     rbind (Frame_set (WriteSingle_kValueStart + 1) (GetByte P (unat val) 0) f) (\<lambda>f.
     Inr (0, f\<lparr>data_length := WriteSingle_kPacketSize\<rparr>))))))"

definition ReadMultiple_FillFrameBase ::
  "platform \<Rightarrow> u16 \<Rightarrow> u16 \<Rightarrow> Function \<Rightarrow> Frame \<Rightarrow> (int \<times> Frame) result" where
  "ReadMultiple_FillFrameBase P addr val fn f =
     rbind (c_assert P (view_size (data_array f) \<ge> ReadMultiple_kPacketSize)) (\<lambda>_.
     rbind (Frame_set kDataAddressStart (GetByte P (unat addr) 1)
              (f\<lparr>frame_function := fn\<rparr>)) (\<lambda>f.
     rbind (Frame_set (kDataAddressStart + 1) (GetByte P (unat addr) 0) f) (\<lambda>f.
     rbind (Frame_set ReadMultiple_kRegisterCount (GetByte P (unat val) 1) f) (\<lambda>f.
     rbind (Frame_set (ReadMultiple_kRegisterCount + 1) (GetByte P (unat val) 0) f) (\<lambda>f.
     Inr (0, f\<lparr>data_length := ReadMultiple_kPacketSize\<rparr>))))))"

definition ReadMultipleHoldingRegisters_FillFrame ::
  "platform \<Rightarrow> u16 \<Rightarrow> u16 \<Rightarrow> Frame \<Rightarrow> (int \<times> Frame) result" where
  "ReadMultipleHoldingRegisters_FillFrame P addr val f =
     ReadMultiple_FillFrameBase P addr val kReadMultipleHoldingRegisters f"

definition ReadInputRegisters_FillFrame ::
  "platform \<Rightarrow> u16 \<Rightarrow> u16 \<Rightarrow> Frame \<Rightarrow> (int \<times> Frame) result" where
  "ReadInputRegisters_FillFrame P addr val f =
     ReadMultiple_FillFrameBase P addr val kReadInputRegisters f"

fun WriteMultiple_FillFrame_loop ::
  "platform \<Rightarrow> u16 list \<Rightarrow> nat \<Rightarrow> Frame \<Rightarrow> Frame result" where
  "WriteMultiple_FillFrame_loop P [] index f = Inr f"
| "WriteMultiple_FillFrame_loop P (pt # rest) index f =
     rbind (Frame_set index (GetByte P (unat pt) 1) f) (\<lambda>f.
     rbind (Frame_set (index + 1) (GetByte P (unat pt) 0) f) (\<lambda>f.
     WriteMultiple_FillFrame_loop P rest (index + 2) f))"

text \<open>The number of data bytes is a \<open>uint8_t\<close>: twice the register count, modulo 256.\<close>

definition WriteMultiple_FillFrame ::
  "platform \<Rightarrow> u16 \<Rightarrow> u16 \<Rightarrow> u16 ArrayView \<Rightarrow> Frame \<Rightarrow> (int \<times> Frame) result" where
  "WriteMultiple_FillFrame P starting_address register_count data f =
     (let number_of_data_bytes = (word_of_nat (view_size data * 2) :: u8);
          frame_size = WriteMultiple_kHeaderSize + unat number_of_data_bytes in
     rbind (c_assert P (view_size (data_array f) \<ge> frame_size)) (\<lambda>_.
     rbind (Frame_set kDataAddressStart (GetByte P (unat starting_address) 1)
              (f\<lparr>frame_function := kWriteMultipleHoldingRegisters\<rparr>)) (\<lambda>f.
     rbind (Frame_set (kDataAddressStart + 1) (GetByte P (unat starting_address) 0) f) (\<lambda>f.
     rbind (Frame_set WriteMultiple_kRegisterCount (GetByte P (unat register_count) 1) f) (\<lambda>f.
     rbind (Frame_set (WriteMultiple_kRegisterCount + 1) (GetByte P (unat register_count) 0) f) (\<lambda>f.
     rbind (Frame_set WriteMultiple_kNumberOfDataBytes number_of_data_bytes f) (\<lambda>f.
     rbind (view_elems data) (\<lambda>pts.
     rbind (WriteMultiple_FillFrame_loop P pts WriteMultiple_kValueStart
              (f\<lparr>data_length := frame_size\<rparr>)) (\<lambda>f.
     Inr (0, f))))))))))"

section \<open>Writing reply headers\<close>

definition WriteSingle_FillResponseHeader ::
  "platform \<Rightarrow> u8 \<Rightarrow> u16 \<Rightarrow> u16 \<Rightarrow> Response \<Rightarrow> Response result" where
  "WriteSingle_FillResponseHeader P slave_address addr val r =
     rbind (Response_set P Command_kSlaveAddress slave_address r) (\<lambda>r.
     rbind (Response_set P Command_kFunction (Function_code kWriteSingleHoldingRegister) r) (\<lambda>r.
     rbind (Response_set P WriteSingle_Response_kDataAddress (GetByte P (unat addr) 1) r) (\<lambda>r.
     rbind (Response_set P (WriteSingle_Response_kDataAddress + 1) (GetByte P (unat addr) 0) r) (\<lambda>r.
     rbind (Response_set P WriteSingle_Response_kValueStart (GetByte P (unat val) 1) r) (\<lambda>r.
     rbind (Response_set P (WriteSingle_Response_kValueStart + 1) (GetByte P (unat val) 0) r) (\<lambda>r.
     Inr (SetLength WriteSingle_Response_kPacketSize r)))))))"

definition ReadMultiple_FillResponseHeaderBase ::
  "platform \<Rightarrow> u8 \<Rightarrow> nat \<Rightarrow> Function \<Rightarrow> Response \<Rightarrow> Response result" where
  "ReadMultiple_FillResponseHeaderBase P slave_address register_count fn r =
     rbind (Response_set P Command_kSlaveAddress slave_address r) (\<lambda>r.
     rbind (Response_set P Command_kFunction (Function_code fn) r) (\<lambda>r.
     let number_of_data_bytes = register_count * 2 in
     rbind (Response_set P ReadMultiple_Response_kNumberOfBytes
              (word_of_nat number_of_data_bytes) r) (\<lambda>r.
     Inr (SetLength (ReadMultiple_Response_kHeaderSize + number_of_data_bytes) r))))"

definition ReadMultipleHoldingRegisters_FillResponseHeader ::
  "platform \<Rightarrow> u8 \<Rightarrow> nat \<Rightarrow> Response \<Rightarrow> Response result" where
  "ReadMultipleHoldingRegisters_FillResponseHeader P slave_address register_count r =
     ReadMultiple_FillResponseHeaderBase P slave_address register_count
       kReadMultipleHoldingRegisters r"

definition ReadInputRegisters_FillResponseHeader ::
  "platform \<Rightarrow> u8 \<Rightarrow> nat \<Rightarrow> Response \<Rightarrow> Response result" where
  "ReadInputRegisters_FillResponseHeader P slave_address register_count r =
     ReadMultiple_FillResponseHeaderBase P slave_address register_count kReadInputRegisters r"

definition WriteMultiple_FillResponseHeader ::
  "platform \<Rightarrow> u8 \<Rightarrow> u16 \<Rightarrow> nat \<Rightarrow> Response \<Rightarrow> Response result" where
  "WriteMultiple_FillResponseHeader P slave_address starting_address register_count r =
     rbind (Response_set P Command_kSlaveAddress slave_address r) (\<lambda>r.
     rbind (Response_set P Command_kFunction (Function_code kWriteMultipleHoldingRegisters) r) (\<lambda>r.
     rbind (Response_set P WriteMultiple_Response_kDataAddress
              (GetByte P (unat starting_address) 1) r) (\<lambda>r.
     rbind (Response_set P (WriteMultiple_Response_kDataAddress + 1)
              (GetByte P (unat starting_address) 0) r) (\<lambda>r.
     rbind (Response_set P WriteMultiple_Response_kRegisterCount (GetByte P register_count 1) r) (\<lambda>r.
     rbind (Response_set P (WriteMultiple_Response_kRegisterCount + 1)
              (GetByte P register_count 0) r) (\<lambda>r.
     Inr (SetLength WriteMultiple_Response_kPacketSize r)))))))"

section \<open>Lemmas\<close>

lemma read_u16_Inr [simp]:
  "k < view_size v \<Longrightarrow> Suc k < length (view_data v) \<Longrightarrow>
   read_u16 P v k = Inr (Make_MSB P (view_data v ! k) (view_data v ! Suc k))"
  by (simp add: read_u16_def)

lemma InList_loop_iff:
  "InList_loop item xs sz i \<longleftrightarrow> (\<exists>j\<in>{i..<sz}. item = xs ! j)"
proof (induction item xs sz i rule: InList_loop.induct)
  case (1 item xs sz i)
  show ?case
  proof (cases "i < sz")
    case True
    then have "{i..<sz} = insert i {Suc i..<sz}" by auto
    with True 1 show ?thesis by (subst InList_loop.simps) simp
  next
    case False
    then show ?thesis by (subst InList_loop.simps) simp
  qed
qed

lemma InList_iff [simp]: "InList item xs \<longleftrightarrow> item \<in> set xs"
  by (auto simp: InList_def InList_loop_iff in_set_conv_nth)

lemma Frame_set_ok [simp]:
  "i < view_size (data_array f) \<Longrightarrow> i < length (view_data (data_array f)) \<Longrightarrow>
   Frame_set i x f = Inr (f\<lparr>data_array := (data_array f)\<lparr>view_data := (view_data (data_array f))[i := x]\<rparr>\<rparr>)"
  by (simp add: Frame_set_def)

text \<open>The store loops write the registers' bytes over a stretch of the view.\<close>

lemma MakeRegistersToBytes_loop_spec:
  "i \<le> length ws \<Longrightarrow> 2 * length ws \<le> view_size v \<Longrightarrow> view_wf v \<Longrightarrow>
   MakeRegistersToBytes_loop P ws i v =
   Inr (v\<lparr>view_data := overwrite (2 * i) (reg_bytes P (drop i ws)) (view_data v)\<rparr>)"
proof (induction "length ws - i" arbitrary: i v)
  case 0
  then show ?case by (simp add: MakeRegistersToBytes_loop.simps)
next
  case (Suc n)
  then have i: "i < length ws" by simp
  have drop: "drop i ws = ws ! i # drop (Suc i) ws"
    using i by (simp add: Cons_nth_drop_Suc)
  have "2 * Suc i \<le> view_size v" "2 * Suc i \<le> length (view_data v)"
    using i Suc.prems by (auto simp: view_wf_def)
  with i Suc show ?case
    by (simp add: MakeRegistersToBytes_loop.simps [of P ws i] drop view_wf_def
        overwrite_Cons mult.commute)
qed

lemma MakeRegistersToBytes_spec:
  "2 * length ws \<le> view_size v \<Longrightarrow> view_wf v \<Longrightarrow>
   MakeRegistersToBytes P ws v = Inr (v\<lparr>view_data := overwrite 0 (reg_bytes P ws) (view_data v)\<rparr>)"
  by (simp add: MakeRegistersToBytes_def MakeRegistersToBytes_loop_spec)

lemma WriteMultiple_FillFrame_loop_spec:
  "index + 2 * length ws \<le> view_size (data_array f) \<Longrightarrow> view_wf (data_array f) \<Longrightarrow>
   WriteMultiple_FillFrame_loop P ws index f =
   Inr (f\<lparr>data_array := (data_array f)\<lparr>view_data :=
          overwrite index (reg_bytes P ws) (view_data (data_array f))\<rparr>\<rparr>)"
proof (induction ws arbitrary: index f)
  case Nil
  then show ?case by simp
next
  case (Cons w ws)
  then have "Suc index < view_size (data_array f)"
    and "Suc index < length (view_data (data_array f))"
    by (auto simp: view_wf_def)
  with Cons show ?case
    by (simp add: view_wf_def overwrite_Cons)
qed

end
