(* ===== verification/DataStores.thy ===== *)
theory DataStores
  imports RegisterCommands
begin

text \<open>
  \<open>include/Modbus/DataStores\<close>: \<open>DataStore\<close>, \<open>RegisterDataStore\<close> (an array of 16-bit
  registers) and \<open>UpdatingRegisterDataStore\<close> (the same with one "written" flag per
  register), and the interface that the register controllers ask of their template
  argument. The interface is a record of operations; its laws are the locales
  \<open>readable_register_store\<close> and \<open>writable_register_store\<close>, and \<open>plain_register_store\<close> for a
  store in which each register can be written on its own; the two stores interpret them.
\<close>

section \<open>RegisterDataStore\<close>

definition kAddressStart :: size_t where
  "kAddressStart = 0"

definition GetAddressStart :: size_t where
  "GetAddressStart = kAddressStart"

text \<open>\<open>data_store_\<close>, a pointer to \<open>length\<close> registers, is the list of them.\<close>

record RegisterDataStore =
  registers :: "u16 list"

definition GetIndex :: "u16 \<Rightarrow> nat" where
  "GetIndex addr = unat (ucast addr - GetAddressStart)"

definition GetSize :: "'x RegisterDataStore_scheme \<Rightarrow> size_t" where
  "GetSize s = word_of_nat (length (registers s))"

definition IsAddressValid :: "'x RegisterDataStore_scheme \<Rightarrow> size_t \<Rightarrow> bool" where
  "IsAddressValid s addr \<longleftrightarrow> addr + 1 \<le> GetAddressStart + GetSize s"

definition RegisterDataStore_ReadLocationValid ::
  "'x RegisterDataStore_scheme \<Rightarrow> size_t \<Rightarrow> size_t \<Rightarrow> bool" where
  "RegisterDataStore_ReadLocationValid s addr count \<longleftrightarrow>
     IsAddressValid s addr \<and> IsAddressValid s (addr + count - 1)"

definition RegisterDataStore_WriteLocationValid ::
  "'x RegisterDataStore_scheme \<Rightarrow> size_t \<Rightarrow> size_t \<Rightarrow> bool" where
  "RegisterDataStore_WriteLocationValid s addr count =
     RegisterDataStore_ReadLocationValid s addr count"

text \<open>\<open>GetIndex\<close> takes a \<open>uint16_t\<close>: the address is cut to 16 bits on the way.\<close>

definition RegisterDataStore_GetRegister ::
  "platform \<Rightarrow> 'x RegisterDataStore_scheme \<Rightarrow> size_t \<Rightarrow> u16 result" where
  "RegisterDataStore_GetRegister P s addr =
     (let index = GetIndex (ucast addr) in
      rbind (c_assert P (index < length (registers s))) (\<lambda>_.
      if index < length (registers s) then Inr (registers s ! index) else Inl OutOfBounds))"

function RegisterDataStore_GetRegisters_loop ::
  "platform \<Rightarrow> 'x RegisterDataStore_scheme \<Rightarrow> size_t \<Rightarrow> nat \<Rightarrow> nat \<Rightarrow> u8 ArrayView \<Rightarrow>
   u8 ArrayView result" where
  "RegisterDataStore_GetRegisters_loop P s register_index byte_number num_data_bytes v =
     (if byte_number < num_data_bytes
      then rbind (RegisterDataStore_GetRegister P s register_index) (\<lambda>state.
           rbind (view_set v byte_number (GetByte P (unat state) 1)) (\<lambda>v.
           rbind (view_set v (byte_number + 1) (GetByte P (unat state) 0)) (\<lambda>v.
           RegisterDataStore_GetRegisters_loop P s (register_index + 1) (byte_number + 2)
             num_data_bytes v)))
      else Inr v)"
  by pat_completeness auto
termination
  by (relation "measure (\<lambda>(P, s, register_index, byte_number, num_data_bytes, v).
        num_data_bytes - byte_number)") auto

declare RegisterDataStore_GetRegisters_loop.simps [simp del]

definition RegisterDataStore_GetRegisters ::
  "platform \<Rightarrow> 'x RegisterDataStore_scheme \<Rightarrow> size_t \<Rightarrow> size_t \<Rightarrow> u8 ArrayView \<Rightarrow>
   u8 ArrayView result" where
  "RegisterDataStore_GetRegisters P s addr register_count v =
     RegisterDataStore_GetRegisters_loop P s addr 0 (unat (register_count * 2)) v"

definition RegisterDataStore_SetRegister ::
  "'x RegisterDataStore_scheme \<Rightarrow> size_t \<Rightarrow> u16 \<Rightarrow> 'x RegisterDataStore_scheme result" where
  "RegisterDataStore_SetRegister s addr val =
     (let index = GetIndex (ucast addr) in
      if index < length (registers s)
      then Inr (s\<lparr>registers := (registers s)[index := val]\<rparr>) else Inl OutOfBounds)"

function RegisterDataStore_SetRegisters_loop ::
  "platform \<Rightarrow> size_t \<Rightarrow> nat \<Rightarrow> u8 ArrayView \<Rightarrow> nat \<Rightarrow> 'x RegisterDataStore_scheme \<Rightarrow>
   'x RegisterDataStore_scheme result" where
  "RegisterDataStore_SetRegisters_loop P addr register_count v index s =
     (if index < register_count
      then rbind (view_from v (index * 2) 2) (\<lambda>uint16_data_view.
           rbind (Make_MSB_uint16_tFromU8Array P uint16_data_view) (\<lambda>val.
           rbind (RegisterDataStore_SetRegister s (addr + word_of_nat index) val) (\<lambda>s.
           RegisterDataStore_SetRegisters_loop P addr register_count v (Suc index) s)))
      else Inr s)"
  by pat_completeness auto
termination
  by (relation "measure (\<lambda>(P, addr, register_count, v, index, s). register_count - index)") auto

declare RegisterDataStore_SetRegisters_loop.simps [simp del]

definition RegisterDataStore_SetRegisters ::
  "platform \<Rightarrow> 'x RegisterDataStore_scheme \<Rightarrow> size_t \<Rightarrow> size_t \<Rightarrow> u8 ArrayView \<Rightarrow>
   'x RegisterDataStore_scheme result" where
  "RegisterDataStore_SetRegisters P s addr register_count v =
     RegisterDataStore_SetRegisters_loop P addr (unat register_count) v 0 s"

section \<open>UpdatingRegisterDataStore\<close>

record UpdatingRegisterDataStore = RegisterDataStore +
  flags :: "bool list"

definition flag_set :: "UpdatingRegisterDataStore \<Rightarrow> size_t \<Rightarrow> bool result" where
  "flag_set s addr =
     (let i = unat (min addr (word_of_nat (length (flags s)) - 1)) in
      if i < length (flags s) then Inr (flags s ! i) else Inl OutOfBounds)"

definition mark_flag :: "UpdatingRegisterDataStore \<Rightarrow> size_t \<Rightarrow> UpdatingRegisterDataStore result" where
  "mark_flag s addr =
     (let i = GetIndex (ucast addr) in
      if i < length (flags s) then Inr (s\<lparr>flags := (flags s)[i := True]\<rparr>) else Inl OutOfBounds)"

definition set_register_callback ::
  "UpdatingRegisterDataStore \<Rightarrow> size_t \<Rightarrow> u16 \<Rightarrow> UpdatingRegisterDataStore result" where
  "set_register_callback s addr val = mark_flag s addr"

function set_registers_callback_loop ::
  "size_t \<Rightarrow> nat \<Rightarrow> nat \<Rightarrow> UpdatingRegisterDataStore \<Rightarrow> UpdatingRegisterDataStore result" where
  "set_registers_callback_loop addr register_count i s =
     (if i < register_count
      then rbind (mark_flag s (addr + word_of_nat i))
        (\<lambda>s. set_registers_callback_loop addr register_count (Suc i) s)
      else Inr s)"
  by pat_completeness auto
termination
  by (relation "measure (\<lambda>(addr, register_count, i, s). register_count - i)") auto

declare set_registers_callback_loop.simps [simp del]

definition set_registers_callback ::
  "UpdatingRegisterDataStore \<Rightarrow> size_t \<Rightarrow> size_t \<Rightarrow> u8 ArrayView \<Rightarrow>
   UpdatingRegisterDataStore result" where
  "set_registers_callback s addr register_count v =
     set_registers_callback_loop addr (unat register_count) 0 s"

text \<open>
  The two range algorithms run from \<open>first\<close> to \<open>first + second - 1\<close>, which stops short of
  the last flag, and is not a range at all when there is no flag.
\<close>

definition is_true :: "bool \<Rightarrow> bool" where
  "is_true val = val"

definition new_data_available :: "UpdatingRegisterDataStore \<Rightarrow> bool result" where
  "new_data_available s =
     (if flags s = [] then Inl OutOfBounds
      else Inr (list_ex is_true (take (length (flags s) - 1) (flags s))))"

definition clear_new_data_flags ::
  "UpdatingRegisterDataStore \<Rightarrow> UpdatingRegisterDataStore result" where
  "clear_new_data_flags s =
     (if flags s = [] then Inl OutOfBounds
      else Inr (s\<lparr>flags := replicate (length (flags s) - 1) False @
                           drop (length (flags s) - 1) (flags s)\<rparr>))"

section \<open>The interface of a data store\<close>

text \<open>
  What \<open>InputRegisterController<T>\<close> calls on its \<open>T\<close>, and what \<open>HoldingRegisterController<T>\<close>
  calls on top of that. \<open>RegisterDataStore\<close> has the first only: its two callbacks are
  commented out in the source.
\<close>

record 'st readable_store =
  op_ReadLocationValid :: "'st \<Rightarrow> size_t \<Rightarrow> size_t \<Rightarrow> bool"
  op_GetRegister :: "'st \<Rightarrow> size_t \<Rightarrow> u16 result"
  op_GetRegisters :: "'st \<Rightarrow> size_t \<Rightarrow> size_t \<Rightarrow> u8 ArrayView \<Rightarrow> u8 ArrayView result"
  op_SetRegister :: "'st \<Rightarrow> size_t \<Rightarrow> u16 \<Rightarrow> 'st result"

record 'st writable_store = "'st readable_store" +
  op_WriteLocationValid :: "'st \<Rightarrow> size_t \<Rightarrow> size_t \<Rightarrow> bool"
  op_SetRegisters :: "'st \<Rightarrow> size_t \<Rightarrow> size_t \<Rightarrow> u8 ArrayView \<Rightarrow> 'st result"
  op_set_register_callback :: "'st \<Rightarrow> size_t \<Rightarrow> u16 \<Rightarrow> 'st result"
  op_set_registers_callback :: "'st \<Rightarrow> size_t \<Rightarrow> size_t \<Rightarrow> u8 ArrayView \<Rightarrow> 'st result"

definition RegisterDataStore_ops :: "platform \<Rightarrow> RegisterDataStore readable_store" where
  "RegisterDataStore_ops P = \<lparr>
     op_ReadLocationValid = RegisterDataStore_ReadLocationValid,
     op_GetRegister = RegisterDataStore_GetRegister P,
     op_GetRegisters = RegisterDataStore_GetRegisters P,
     op_SetRegister = RegisterDataStore_SetRegister\<rparr>"

definition UpdatingRegisterDataStore_ops ::
  "platform \<Rightarrow> UpdatingRegisterDataStore writable_store" where
  "UpdatingRegisterDataStore_ops P = \<lparr>
     op_ReadLocationValid = RegisterDataStore_ReadLocationValid,
     op_GetRegister = RegisterDataStore_GetRegister P,
     op_GetRegisters = RegisterDataStore_GetRegisters P,
     op_SetRegister = RegisterDataStore_SetRegister,
     op_WriteLocationValid = RegisterDataStore_WriteLocationValid,
     op_SetRegisters = RegisterDataStore_SetRegisters P,
     op_set_register_callback = set_register_callback,
     op_set_registers_callback = set_registers_callback\<rparr>"

section \<open>Facts about the array store\<close>

lemma unat_add_small:
  "unat (a :: size_t) + k < 2 ^ 64 \<Longrightarrow> unat (a + word_of_nat k) = unat a + k"
  by (simp add: unat_word_ariths unat_of_nat)

lemma unat_ucast_16_64 [simp]: "unat (ucast (w :: u16) :: size_t) = unat w"
  using unat_u16_lt [of w] by (simp add: unsigned_ucast_eq take_bit_eq_mod del: unat_u16_lt)

lemma unat_ucast_64_16 [simp]: "unat (a :: size_t) < 65536 \<Longrightarrow> unat (ucast a :: u16) = unat a"
  by (simp add: unsigned_ucast_eq take_bit_eq_mod)

lemma unat_double: "unat (n :: size_t) < 65536 \<Longrightarrow> unat (n * 2) = 2 * unat n"
  by (simp add: unat_word_ariths)

lemma unat_ucast_double: "unat ((ucast (n :: u16) :: size_t) * 2) = 2 * unat n"
  using unat_double [of "ucast n"] by simp

lemma GetIndex_ucast [simp]: "unat a < 65536 \<Longrightarrow> GetIndex (ucast (a :: size_t)) = unat a"
  by (simp add: GetIndex_def GetAddressStart_def kAddressStart_def)

definition store_wf :: "'x RegisterDataStore_scheme \<Rightarrow> bool" where
  "store_wf s \<longleftrightarrow> length (registers s) \<le> 65536"

lemma unat_GetSize [simp]: "store_wf s \<Longrightarrow> unat (GetSize s) = length (registers s)"
  by (simp add: GetSize_def store_wf_def unat_of_nat)

lemma IsAddressValid_iff:
  "store_wf s \<Longrightarrow> unat a < 2 ^ 32 \<Longrightarrow> IsAddressValid s (a - 1) \<longleftrightarrow> unat a \<le> length (registers s)"
  by (simp add: IsAddressValid_def GetAddressStart_def kAddressStart_def word_le_nat_alt)

lemma RegisterDataStore_ReadLocationValid_iff:
  assumes "store_wf s" and "unat a < 65536" and "unat n < 65536"
  shows "RegisterDataStore_ReadLocationValid s a n \<longleftrightarrow>
         unat a < length (registers s) \<and> unat a + unat n \<le> length (registers s)"
proof -
  have "unat (a + 1) = unat a + 1" "unat (a + n) = unat a + unat n"
    using assms unat_add_small [of a 1] unat_add_small [of a "unat n"] by simp_all
  then show ?thesis
    using assms IsAddressValid_iff [of s "a + 1"] IsAddressValid_iff [of s "a + n"]
    by (simp add: RegisterDataStore_ReadLocationValid_def Suc_le_eq)
qed

lemma GetRegister_ok [simp]:
  "store_wf s \<Longrightarrow> unat a < length (registers s) \<Longrightarrow>
   RegisterDataStore_GetRegister P s a = Inr (registers s ! unat a)"
  by (simp add: RegisterDataStore_GetRegister_def store_wf_def Let_def)

lemma SetRegister_ok [simp]:
  "store_wf s \<Longrightarrow> unat a < length (registers s) \<Longrightarrow>
   RegisterDataStore_SetRegister s a w = Inr (s\<lparr>registers := (registers s)[unat a := w]\<rparr>)"
  by (simp add: RegisterDataStore_SetRegister_def store_wf_def Let_def)

text \<open>The read loop stores the bytes of the registers it passes.\<close>

lemma GetRegisters_loop_spec:
  assumes "store_wf s" and "unat a + k \<le> length (registers s)"
    and "b + 2 * k \<le> view_size v" and "view_wf v"
  shows "RegisterDataStore_GetRegisters_loop P s a b (b + 2 * k) v =
    Inr (v\<lparr>view_data := overwrite b (reg_bytes P (take k (drop (unat a) (registers s)))) (view_data v)\<rparr>)"
  using assms
proof (induction k arbitrary: a b v)
  case 0
  then show ?case by (simp add: RegisterDataStore_GetRegisters_loop.simps)
next
  case (Suc k)
  have a1: "unat (a + 1) = unat a + 1"
    using Suc.prems unat_add_small [of a 1] by (simp add: store_wf_def)
  have slice: "take (Suc k) (drop (unat a) (registers s)) =
      registers s ! unat a # take k (drop (unat (a + 1)) (registers s))"
    using Suc.prems a1 by (simp add: Cons_nth_drop_Suc [symmetric])
  have b: "b + 2 * Suc k = (b + 2) + 2 * k" "b + 2 \<le> view_size v" "b + 2 \<le> length (view_data v)"
    using Suc.prems by (auto simp: view_wf_def)
  have step: "RegisterDataStore_GetRegisters_loop P s a b (b + 2 * Suc k) v =
      RegisterDataStore_GetRegisters_loop P s (a + 1) (b + 2) ((b + 2) + 2 * k)
        (v\<lparr>view_data := (view_data v)[b := GetByte P (unat (registers s ! unat a)) 1,
            Suc b := GetByte P (unat (registers s ! unat a)) 0]\<rparr>)"
    using Suc.prems b by (subst RegisterDataStore_GetRegisters_loop.simps) simp
  show ?case
    using Suc.prems b a1
    by (subst step, subst Suc.IH) (simp_all add: slice view_wf_def overwrite_Cons)
qed

lemma GetRegisters_spec:
  assumes "store_wf s" and "unat n < 65536" and "unat a + unat n \<le> length (registers s)"
    and "2 * unat n \<le> view_size v" and "view_wf v"
  shows "RegisterDataStore_GetRegisters P s a n v =
    Inr (v\<lparr>view_data := overwrite 0 (reg_bytes P (take (unat n) (drop (unat a) (registers s)))) (view_data v)\<rparr>)"
proof -
  have "unat (n * 2) = 2 * unat n"
    using assms(2) by (rule unat_double)
  then show ?thesis
    using GetRegisters_loop_spec [of s a "unat n" 0 v P] assms
    by (simp add: RegisterDataStore_GetRegisters_def)
qed

text \<open>The write loop replaces the registers by the pairs of bytes it reads.\<close>

lemma bytes_regs_drop_Cons:
  "2 * i + 1 < length bs \<Longrightarrow>
   bytes_regs P (drop (2 * i) bs) = Make_MSB P (bs ! (2 * i)) (bs ! Suc (2 * i)) # bytes_regs P (drop (2 * Suc i) bs)"
  by (simp add: Cons_nth_drop_Suc [symmetric])

lemma SetRegisters_loop_spec:
  assumes "store_wf s" and "unat a + n \<le> length (registers s)"
    and "2 * n \<le> view_size v" and "view_wf v" and "i \<le> n"
  shows "RegisterDataStore_SetRegisters_loop P a n v i s =
    Inr (s\<lparr>registers := overwrite (unat a + i) (bytes_regs P (drop (2 * i) (take (2 * n) (view_data v)))) (registers s)\<rparr>)"
  using assms
proof (induction "n - i" arbitrary: i s)
  case 0
  then show ?case by (simp add: RegisterDataStore_SetRegisters_loop.simps)
next
  case (Suc m)
  then have i: "i < n" by simp
  have ai: "unat (a + word_of_nat i) = unat a + i"
    using Suc.prems i by (intro unat_add_small) (simp add: store_wf_def)
  have d: "2 * i + 1 < length (take (2 * n) (view_data v))"
    using i Suc.prems by (simp add: view_wf_def)
  have get: "rbind (view_from v (i * 2) 2) (\<lambda>w. rbind (Make_MSB_uint16_tFromU8Array P w) f) =
      f (Make_MSB P (view_data v ! (2 * i)) (view_data v ! Suc (2 * i)))" for f :: "u16 \<Rightarrow> 'z result"
    using i Suc.prems
    by (simp add: view_from_def Make_MSB_uint16_tFromU8Array_def view_wf_def mult.commute)
  show ?case
    using Suc i ai d
    by (subst RegisterDataStore_SetRegisters_loop.simps)
      (simp add: get bytes_regs_drop_Cons [OF d] overwrite_Cons store_wf_def)
qed

lemma SetRegisters_spec:
  assumes "store_wf s" and "unat a + unat n \<le> length (registers s)"
    and "2 * unat n \<le> view_size v" and "view_wf v"
  shows "RegisterDataStore_SetRegisters P s a n v =
    Inr (s\<lparr>registers := overwrite (unat a) (bytes_regs P (take (2 * unat n) (view_data v))) (registers s)\<rparr>)"
  using SetRegisters_loop_spec [of s a "unat n" v 0 P] assms
  by (simp add: RegisterDataStore_SetRegisters_def)

section \<open>Facts about the flags\<close>

definition updating_wf :: "UpdatingRegisterDataStore \<Rightarrow> bool" where
  "updating_wf s \<longleftrightarrow> store_wf s \<and> length (flags s) = length (registers s)"

lemma mark_flag_ok [simp]:
  "unat a < 65536 \<Longrightarrow> unat a < length (flags s) \<Longrightarrow>
   mark_flag s a = Inr (s\<lparr>flags := (flags s)[unat a := True]\<rparr>)"
  by (simp add: mark_flag_def)

lemma set_registers_callback_loop_spec:
  assumes "unat a + n \<le> length (flags s)" and "length (flags s) \<le> 65536" and "i \<le> n"
  shows "set_registers_callback_loop a n i s =
    Inr (s\<lparr>flags := overwrite (unat a + i) (replicate (n - i) True) (flags s)\<rparr>)"
  using assms
proof (induction "n - i" arbitrary: i s)
  case 0
  then show ?case by (simp add: set_registers_callback_loop.simps)
next
  case (Suc m)
  then have i: "i < n" by simp
  have ai: "unat (a + word_of_nat i) = unat a + i"
    using Suc.prems i by (intro unat_add_small) simp
  have rep: "replicate (n - i) True = True # replicate (n - Suc i) True"
    using i by (simp add: Suc_diff_Suc flip: replicate_Suc)
  show ?case
    using Suc i ai
    by (subst set_registers_callback_loop.simps) (simp add: rep overwrite_Cons)
qed

lemma set_registers_callback_spec:
  "unat a + unat n \<le> length (flags s) \<Longrightarrow> length (flags s) \<le> 65536 \<Longrightarrow>
   set_registers_callback s a n v =
   Inr (s\<lparr>flags := overwrite (unat a) (replicate (unat n) True) (flags s)\<rparr>)"
  by (simp add: set_registers_callback_def set_registers_callback_loop_spec)

section \<open>The contract of a data store\<close>

text \<open>
  \<open>fetch P s a n\<close> is what a read of \<open>n\<close> registers at \<open>a\<close> puts into the reply. A store may
  put in fewer bytes than \<open>2 * n\<close>, never more.
\<close>

locale readable_register_store =
  fixes ops :: "platform \<Rightarrow> ('st, 'x) readable_store_scheme"
    and inv :: "'st \<Rightarrow> bool"
    and fetch :: "platform \<Rightarrow> 'st \<Rightarrow> nat \<Rightarrow> nat \<Rightarrow> u8 list"
  assumes length_fetch:
    "inv s \<Longrightarrow> op_ReadLocationValid (ops P) s (ucast (a :: u16)) (ucast (n :: u16)) \<Longrightarrow>
     n \<noteq> 0 \<Longrightarrow> length (fetch P s (unat a) (unat n)) \<le> 2 * unat n"
  and GetRegisters_law:
    "inv s \<Longrightarrow> op_ReadLocationValid (ops P) s (ucast (a :: u16)) (ucast (n :: u16)) \<Longrightarrow>
     n \<noteq> 0 \<Longrightarrow> 2 * unat n \<le> view_size v \<Longrightarrow> view_wf v \<Longrightarrow>
     op_GetRegisters (ops P) s (ucast a) (ucast n) v =
     Inr (v\<lparr>view_data := overwrite 0 (fetch P s (unat a) (unat n)) (view_data v)\<rparr>)"

text \<open>
  A store that the master can write: \<open>update P s a bs\<close> is the store after the registers from
  \<open>a\<close> on took the bytes \<open>bs\<close> and the callback ran.
\<close>

locale writable_register_store =
  readable_register_store ops inv fetch
  for ops :: "platform \<Rightarrow> ('st, 'x) writable_store_scheme"
    and inv :: "'st \<Rightarrow> bool"
    and fetch :: "platform \<Rightarrow> 'st \<Rightarrow> nat \<Rightarrow> nat \<Rightarrow> u8 list" +
  fixes update :: "platform \<Rightarrow> 'st \<Rightarrow> nat \<Rightarrow> u8 list \<Rightarrow> 'st"
  assumes write_one_law:
    "platform_ok P \<Longrightarrow> inv s \<Longrightarrow> op_WriteLocationValid (ops P) s (ucast (a :: u16)) 1 \<Longrightarrow>
     rbind (op_SetRegister (ops P) s (ucast a) w)
       (\<lambda>s. op_set_register_callback (ops P) s (ucast a) w) =
     Inr (update P s (unat a) (reg_bytes P [w]))"
  and write_block_law:
    "inv s \<Longrightarrow> op_WriteLocationValid (ops P) s (ucast (a :: u16)) (ucast (n :: u16)) \<Longrightarrow>
     n \<noteq> 0 \<Longrightarrow> view_size v = 2 * unat n \<Longrightarrow> view_wf v \<Longrightarrow>
     rbind (op_SetRegisters (ops P) s (ucast a) (ucast n) v)
       (\<lambda>s. op_set_registers_callback (ops P) s (ucast a) (ucast n) v) =
     Inr (update P s (unat a) (take (2 * unat n) (view_data v)))"
  and inv_update:
    "inv s \<Longrightarrow> op_WriteLocationValid (ops P) s (ucast (a :: u16)) (ucast (n :: u16)) \<Longrightarrow>
     n \<noteq> 0 \<Longrightarrow> length bs = 2 * unat n \<Longrightarrow> inv (update P s (unat a) bs)"

text \<open>
  A store whose registers are independent of each other: what is written is read back, and nothing
  else changes.
\<close>

locale plain_register_store = writable_register_store ops inv fetch update
  for ops :: "platform \<Rightarrow> ('st, 'x) writable_store_scheme"
    and inv :: "'st \<Rightarrow> bool"
    and fetch :: "platform \<Rightarrow> 'st \<Rightarrow> nat \<Rightarrow> nat \<Rightarrow> u8 list"
    and update :: "platform \<Rightarrow> 'st \<Rightarrow> nat \<Rightarrow> u8 list \<Rightarrow> 'st" +
  assumes fetch_update:
    "platform_ok P \<Longrightarrow> inv s \<Longrightarrow>
     op_WriteLocationValid (ops P) s (ucast (a :: u16)) (ucast (n :: u16)) \<Longrightarrow> n \<noteq> 0 \<Longrightarrow>
     length bs = 2 * unat n \<Longrightarrow> fetch P (update P s (unat a) bs) (unat a) (unat n) = bs"
  and fetch_frame:
    "inv s \<Longrightarrow> op_WriteLocationValid (ops P) s (ucast (a :: u16)) (ucast (n :: u16)) \<Longrightarrow>
     n \<noteq> 0 \<Longrightarrow> length bs = 2 * unat n \<Longrightarrow> b + m \<le> unat a \<or> unat a + unat n \<le> b \<Longrightarrow>
     fetch P (update P s (unat a) bs) b m = fetch P s b m"
  and write_valid_read_valid:
    "op_WriteLocationValid (ops P) s x y \<Longrightarrow> op_ReadLocationValid (ops P) s x y"
  and valid_update:
    "inv s \<Longrightarrow> op_WriteLocationValid (ops P) s (ucast (a :: u16)) (ucast (n :: u16)) \<Longrightarrow>
     n \<noteq> 0 \<Longrightarrow> length bs = 2 * unat n \<Longrightarrow>
     op_ReadLocationValid (ops P) (update P s (unat a) bs) (ucast (b2 :: u16)) (ucast (n2 :: u16)) \<longleftrightarrow>
     op_ReadLocationValid (ops P) s (ucast b2) (ucast n2)"
begin

lemma block_roundtrip:
  fixes a n :: u16
  assumes P: "platform_ok P" and inv: "inv s" and valid: "op_WriteLocationValid (ops P) s (ucast a) (ucast n)"
    and n: "n \<noteq> 0" and v: "view_size v = 2 * unat n" "view_wf v" and w: "2 * unat n \<le> view_size w" "view_wf w"
  defines "bs \<equiv> take (2 * unat n) (view_data v)"
  shows "rbind (op_SetRegisters (ops P) s (ucast a) (ucast n) v)
      (\<lambda>s. op_set_registers_callback (ops P) s (ucast a) (ucast n) v) = Inr (update P s (unat a) bs) \<and>
    op_GetRegisters (ops P) (update P s (unat a) bs) (ucast a) (ucast n) w =
      Inr (w\<lparr>view_data := overwrite 0 bs (view_data w)\<rparr>)"
proof -
  have len: "length bs = 2 * unat n" using v by (simp add: bs_def view_wf_def)
  have "op_ReadLocationValid (ops P) (update P s (unat a) bs) (ucast a) (ucast n)"
    using valid_update [OF inv valid n len] write_valid_read_valid [OF valid] by simp
  from GetRegisters_law [OF inv_update [OF inv valid n len] this n w] fetch_update [OF P inv valid n len]
  show ?thesis using write_block_law [OF inv valid n v] by (simp add: bs_def)
qed

end

section \<open>The stores meet the contract\<close>

definition array_fetch ::
  "platform \<Rightarrow> 'x RegisterDataStore_scheme \<Rightarrow> nat \<Rightarrow> nat \<Rightarrow> u8 list" where
  "array_fetch P s a n = reg_bytes P (take n (drop a (registers s)))"

definition array_update ::
  "platform \<Rightarrow> UpdatingRegisterDataStore \<Rightarrow> nat \<Rightarrow> u8 list \<Rightarrow> UpdatingRegisterDataStore" where
  "array_update P s a bs =
     s\<lparr>registers := overwrite a (bytes_regs P bs) (registers s),
       flags := overwrite a (replicate (length bs div 2) True) (flags s)\<rparr>"

lemma valid_read_range:
  assumes "store_wf s" and "RegisterDataStore_ReadLocationValid s (ucast a) (ucast n)"
  shows "unat (a :: u16) < length (registers s)" and "unat a + unat (n :: u16) \<le> length (registers s)"
  using assms by (simp_all add: RegisterDataStore_ReadLocationValid_iff)

lemma array_GetRegisters:
  assumes "store_wf s" and "RegisterDataStore_ReadLocationValid s (ucast a) (ucast n)"
    and "2 * unat n \<le> view_size v" and "view_wf v"
  shows "RegisterDataStore_GetRegisters P s (ucast (a :: u16)) (ucast (n :: u16)) v =
    Inr (v\<lparr>view_data := overwrite 0 (array_fetch P s (unat a) (unat n)) (view_data v)\<rparr>)"
proof -
  have "unat (ucast n :: size_t) < 65536" by (simp only: unat_ucast_16_64 unat_u16_lt)
  with GetRegisters_spec [of s "ucast n" "ucast a" v P] show ?thesis
    using valid_read_range [of s a n] assms by (simp add: array_fetch_def)
qed

interpretation array_store:
  readable_register_store RegisterDataStore_ops store_wf array_fetch
  by unfold_locales
    (auto simp: RegisterDataStore_ops_def array_GetRegisters, simp add: array_fetch_def)

lemma array_SetRegisters:
  assumes "updating_wf s" and "RegisterDataStore_ReadLocationValid s (ucast a) (ucast n)"
    and "2 * unat n \<le> view_size v" and "view_wf v"
  shows "rbind (RegisterDataStore_SetRegisters P s (ucast (a :: u16)) (ucast (n :: u16)) v)
      (\<lambda>s. set_registers_callback s (ucast a) (ucast n) v) =
    Inr (array_update P s (unat a) (take (2 * unat n) (view_data v)))"
proof -
  have wf: "store_wf s" "length (flags s) = length (registers s)" "length (flags s) \<le> 65536"
    using assms(1) by (simp_all add: updating_wf_def store_wf_def)
  have range: "unat a + unat n \<le> length (registers s)"
    using valid_read_range(2) wf(1) assms(2) .
  have "2 * unat n \<le> length (view_data v)"
    using assms(3,4) by (simp add: view_wf_def)
  then show ?thesis
    using SetRegisters_spec [of s "ucast a" "ucast n" v P] wf range assms(3,4)
    by (simp add: array_update_def set_registers_callback_spec)
qed

lemma array_fetch_update:
  assumes "platform_ok P" and "even (length bs)" and "a + length bs div 2 \<le> length (registers s)"
  shows "array_fetch P (array_update P s a bs) a (length bs div 2) = bs"
proof -
  have "take (length bs div 2) (drop a (overwrite a (bytes_regs P bs) (registers s))) = bytes_regs P bs"
    using take_drop_overwrite [of a "bytes_regs P bs" "registers s"] assms(3) by simp
  then show ?thesis
    using assms by (simp add: array_fetch_def array_update_def reg_bytes_bytes_regs)
qed

lemma take_drop_overwrite_frame:
  assumes "k + length ys \<le> length xs" and "b + m \<le> k \<or> k + length ys \<le> b"
  shows "take m (drop b (overwrite k ys xs)) = take m (drop b xs)"
  by (rule nth_equalityI) (use assms in \<open>auto simp: nth_overwrite\<close>)

interpretation updating_store:
  plain_register_store UpdatingRegisterDataStore_ops updating_wf array_fetch array_update
proof unfold_locales
  fix P s and a n :: u16 and v w and bs :: "u8 list" and b m
  note defs = UpdatingRegisterDataStore_ops_def RegisterDataStore_WriteLocationValid_def updating_wf_def
  show "updating_wf s \<Longrightarrow>
     op_ReadLocationValid (UpdatingRegisterDataStore_ops P) s (ucast a) (ucast n) \<Longrightarrow> n \<noteq> 0 \<Longrightarrow>
     length (array_fetch P s (unat a) (unat n)) \<le> 2 * unat n"
    by (simp add: array_fetch_def)
  show "updating_wf s \<Longrightarrow>
     op_ReadLocationValid (UpdatingRegisterDataStore_ops P) s (ucast a) (ucast n) \<Longrightarrow> n \<noteq> 0 \<Longrightarrow>
     2 * unat n \<le> view_size v \<Longrightarrow> view_wf v \<Longrightarrow>
     op_GetRegisters (UpdatingRegisterDataStore_ops P) s (ucast a) (ucast n) v =
     Inr (v\<lparr>view_data := overwrite 0 (array_fetch P s (unat a) (unat n)) (view_data v)\<rparr>)"
    by (simp add: defs array_GetRegisters)
  show "updating_wf s \<Longrightarrow>
     op_WriteLocationValid (UpdatingRegisterDataStore_ops P) s (ucast a) (ucast n) \<Longrightarrow> n \<noteq> 0 \<Longrightarrow>
     view_size v = 2 * unat n \<Longrightarrow> view_wf v \<Longrightarrow>
     rbind (op_SetRegisters (UpdatingRegisterDataStore_ops P) s (ucast a) (ucast n) v)
       (\<lambda>s. op_set_registers_callback (UpdatingRegisterDataStore_ops P) s (ucast a) (ucast n) v) =
     Inr (array_update P s (unat a) (take (2 * unat n) (view_data v)))"
    using array_SetRegisters [of s a n v P] by (simp add: UpdatingRegisterDataStore_ops_def RegisterDataStore_WriteLocationValid_def)
  show "platform_ok P \<Longrightarrow> updating_wf s \<Longrightarrow>
     op_WriteLocationValid (UpdatingRegisterDataStore_ops P) s (ucast a) 1 \<Longrightarrow>
     rbind (op_SetRegister (UpdatingRegisterDataStore_ops P) s (ucast a) w)
       (\<lambda>s. op_set_register_callback (UpdatingRegisterDataStore_ops P) s (ucast a) w) =
     Inr (array_update P s (unat a) (reg_bytes P [w]))"
    using valid_read_range(1) [of s a 1]
    by (simp add: defs set_register_callback_def array_update_def store_wf_def overwrite_Cons)
  assume w: "updating_wf s" "op_WriteLocationValid (UpdatingRegisterDataStore_ops P) s (ucast a) (ucast n)"
    "n \<noteq> 0" "length bs = 2 * unat n"
  then have wf: "store_wf s" "length (flags s) = length (registers s)"
    and valid: "RegisterDataStore_ReadLocationValid s (ucast a) (ucast n)"
    by (simp_all add: defs)
  have r: "unat a + unat n \<le> length (registers s)"
    using wf(1) valid by (rule valid_read_range(2))
  show "updating_wf (array_update P s (unat a) bs)"
    using w(4) wf r by (simp add: updating_wf_def store_wf_def array_update_def)
  show "platform_ok P \<Longrightarrow> array_fetch P (array_update P s (unat a) bs) (unat a) (unat n) = bs"
    using array_fetch_update [of P bs "unat a" s] w r by simp
  show "b + m \<le> unat a \<or> unat a + unat n \<le> b \<Longrightarrow>
     array_fetch P (array_update P s (unat a) bs) b m = array_fetch P s b m"
    using w(4) wf r by (simp add: array_fetch_def array_update_def take_drop_overwrite_frame)
  fix b' m' :: u16
  have "length (registers (array_update P s (unat a) bs)) = length (registers s)"
    using w(4) r by (simp add: array_update_def)
  then show "op_ReadLocationValid (UpdatingRegisterDataStore_ops P) (array_update P s (unat a) bs) (ucast b') (ucast m') \<longleftrightarrow>
      op_ReadLocationValid (UpdatingRegisterDataStore_ops P) s (ucast b') (ucast m')"
    using wf(1) by (simp add: defs RegisterDataStore_ReadLocationValid_iff store_wf_def)
qed (simp add: UpdatingRegisterDataStore_ops_def RegisterDataStore_WriteLocationValid_def)

section \<open>What the stores guarantee\<close>

text \<open>
  C28: a block of registers written from bytes inside the store is read back as the same bytes,
  every other register keeps its value, and exactly the flags of the block are set.
\<close>

theorem store_block_roundtrip:
  assumes P: "platform_ok P" and wf: "updating_wf s"
    and range: "unat (a :: u16) + unat (n :: u16) \<le> length (registers s)" "n \<noteq> 0"
    and v: "2 * unat n \<le> view_size v" "view_wf v" and w: "2 * unat n \<le> view_size w" "view_wf w"
  shows "\<exists>s'. rbind (RegisterDataStore_SetRegisters P s (ucast a) (ucast n) v)
      (\<lambda>s. set_registers_callback s (ucast a) (ucast n) v) = Inr s' \<and>
    RegisterDataStore_GetRegisters P s' (ucast a) (ucast n) w =
      Inr (w\<lparr>view_data := overwrite 0 (take (2 * unat n) (view_data v)) (view_data w)\<rparr>) \<and>
    (\<forall>k < length (registers s). k < unat a \<or> unat a + unat n \<le> k \<longrightarrow>
       registers s' ! k = registers s ! k \<and> flags s' ! k = flags s ! k) \<and>
    (\<forall>k. unat a \<le> k \<and> k < unat a + unat n \<longrightarrow> flags s' ! k)"
proof -
  let ?bs = "take (2 * unat n) (view_data v)"
  let ?s = "array_update P s (unat a) ?bs"
  have store: "store_wf s" "length (flags s) = length (registers s)"
    using wf by (simp_all add: updating_wf_def)
  have "unat n \<noteq> 0" using range(2) by (simp add: unat_eq_0)
  then have lt: "unat a < length (registers s)" using range(1) by linarith
  then have valid: "RegisterDataStore_ReadLocationValid s (ucast a) (ucast n)"
    using store(1) range(1) by (simp add: RegisterDataStore_ReadLocationValid_iff)
  have len: "length ?bs = 2 * unat n" using v by (simp add: view_wf_def)
  have wfs: "store_wf ?s"
    using store range len by (simp add: array_update_def store_wf_def)
  have "RegisterDataStore_ReadLocationValid ?s (ucast a) (ucast n)"
    using wfs lt range(1) len by (simp add: RegisterDataStore_ReadLocationValid_iff array_update_def)
  then have "RegisterDataStore_GetRegisters P ?s (ucast a) (ucast n) w =
      Inr (w\<lparr>view_data := overwrite 0 ?bs (view_data w)\<rparr>)"
    using array_GetRegisters [OF wfs _ w] array_fetch_update [OF P, of ?bs "unat a" s] len range(1)
    by simp
  moreover have "rbind (RegisterDataStore_SetRegisters P s (ucast a) (ucast n) v)
      (\<lambda>s. set_registers_callback s (ucast a) (ucast n) v) = Inr ?s"
    using array_SetRegisters [OF wf valid v] .
  moreover have "registers ?s ! k = registers s ! k \<and> flags ?s ! k = flags s ! k"
    if "k < length (registers s)" "k < unat a \<or> unat a + unat n \<le> k" for k
    using that len range(1) store(2) by (auto simp: array_update_def nth_overwrite)
  moreover have "flags ?s ! k" if "unat a \<le> k \<and> k < unat a + unat n" for k
  proof -
    have "k - unat a < unat n" using that by linarith
    then show ?thesis
      using that len range(1) store(2) by (simp add: array_update_def nth_overwrite)
  qed
  ultimately show ?thesis by blast
qed

definition demo_bank :: UpdatingRegisterDataStore where
  "demo_bank = \<lparr>registers = [1, 2, 3], flags = [False, False, False]\<rparr>"

theorem store_block_roundtrip_witness:
  "\<exists>s'. rbind (RegisterDataStore_SetRegisters (msb_platform True) demo_bank 1 2 (view_of [0, 9, 1, 0]))
      (\<lambda>s. set_registers_callback s 1 2 (view_of [0, 9, 1, 0])) = Inr s' \<and>
    RegisterDataStore_GetRegisters (msb_platform True) s' 1 2 (view_of [5, 5, 5, 5]) = Inr (view_of [0, 9, 1, 0]) \<and>
    registers s' ! 0 = 1"
proof -
  have wf: "updating_wf demo_bank"
    by (simp add: demo_bank_def updating_wf_def store_wf_def)
  obtain s' where "rbind (RegisterDataStore_SetRegisters (msb_platform True) demo_bank (ucast (1 :: u16)) (ucast (2 :: u16))
        (view_of [0, 9, 1, 0])) (\<lambda>s. set_registers_callback s (ucast (1 :: u16)) (ucast (2 :: u16)) (view_of [0, 9, 1, 0])) = Inr s'"
    "RegisterDataStore_GetRegisters (msb_platform True) s' (ucast (1 :: u16)) (ucast (2 :: u16)) (view_of [5, 5, 5, 5]) =
     Inr ((view_of [5, 5, 5, 5])\<lparr>view_data := overwrite 0 (take 4 [0, 9, 1, 0]) [5, 5, 5, 5]\<rparr>)"
    "registers s' ! 0 = registers demo_bank ! 0"
    using store_block_roundtrip [OF msb_platform_ok wf, of 1 2 "view_of [0, 9, 1, 0]" "view_of [5, 5, 5, 5]" True]
    by (auto simp: demo_bank_def simp del: rbind_eq_Inr)
  then show ?thesis
    by (intro exI [of _ s']) (simp add: demo_bank_def view_of_def overwrite_0 del: rbind_eq_Inr)
qed

text \<open>
  C40: the \<open>new data\<close> flag of a store of at least two registers: a write to any register but the
  last is reported, and is not reported after the flags were cleared; a write to the last
  register alone is never reported, and its flag survives the clearing.
\<close>

theorem new_data_flags_skip_the_last:
  assumes two: "2 \<le> length (flags s)" "length (flags s) \<le> 65536" and clear: "\<forall>b \<in> set (flags s). \<not> b"
    and a: "unat (a :: size_t) < length (flags s)"
  shows "rbind (set_register_callback s a w) new_data_available =
      Inr (unat a \<noteq> length (flags s) - 1) \<and>
    rbind (rbind (set_register_callback s a w) clear_new_data_flags) new_data_available = Inr False \<and>
    rbind (rbind (set_register_callback s a w) clear_new_data_flags) (\<lambda>s. Inr (flags s)) =
      Inr ((flags s)[length (flags s) - 1 := unat a = length (flags s) - 1])"
proof -
  let ?n = "length (flags s)" and ?fs = "(flags s)[unat a := True]"
  have f: "\<not> flags s ! k" if "k < ?n" for k using clear nth_mem [OF that] by blast
  have set: "set_register_callback s a w = Inr (s\<lparr>flags := ?fs\<rparr>)"
    using two(2) a by (simp add: set_register_callback_def)
  have ne: "?fs \<noteq> []" "flags s \<noteq> []" using two(1) by auto
  have "list_ex is_true (take (?n - 1) ?fs) \<longleftrightarrow> unat a \<noteq> ?n - 1"
  proof
    assume "unat a \<noteq> ?n - 1"
    then have "unat a < ?n - 1" using a by linarith
    then show "list_ex is_true (take (?n - 1) ?fs)"
      using a by (auto simp: list_ex_length is_true_def intro!: exI [of _ "unat a"])
  qed (use a f in \<open>auto simp: list_ex_length is_true_def nth_list_update split: if_splits\<close>)
  moreover have "\<not> list_ex is_true (take (?n - 1) (replicate (?n - 1) False @ drop (?n - 1) ?fs))"
    by (simp add: list_ex_iff is_true_def)
  moreover have "\<not> list_ex is_true (take (?n - 1) (flags s))"
    using clear by (auto simp: list_ex_iff is_true_def dest: in_set_takeD)
  moreover have "replicate (?n - 1) False @ drop (?n - 1) ?fs = (flags s)[?n - 1 := unat a = ?n - 1]"
    by (rule nth_equalityI)
      (use two(1) a f in \<open>auto simp: nth_append nth_list_update less_diff_conv not_less\<close>)
  ultimately show ?thesis
    using set ne by (simp add: new_data_available_def clear_new_data_flags_def)
qed

theorem new_data_flags_skip_the_last_witness:
  "rbind (set_register_callback demo_bank 2 7) new_data_available = Inr False \<and>
   rbind (set_register_callback demo_bank 1 7) new_data_available = Inr True"
  using new_data_flags_skip_the_last [of demo_bank 2 7] new_data_flags_skip_the_last [of demo_bank 1 7]
  by (simp add: demo_bank_def)

end
