(* ===== verification/RegisterControl.thy ===== *)
theory RegisterControl
  imports DataStores
begin

text \<open>
  \<open>HoldingRegisterController<T>\<close> and \<open>InputRegisterController<T>\<close> of
  \<open>include/Modbus/RegisterControl.h\<close>. The template argument \<open>T\<close> is a record of operations
  (\<open>DataStores\<close>) and the object behind \<open>register_data_\<close> is the store \<open>s\<close> that each operation
  takes and, where it writes, returns. The lemmas are proved once for every store that meets
  the contract, inside the locales of \<open>DataStores\<close>.
\<close>

section \<open>HoldingRegisterController\<close>

definition Holding_WriteLocationValid ::
  "('st, 'x) writable_store_scheme \<Rightarrow> 'st \<Rightarrow> size_t \<Rightarrow> size_t \<Rightarrow> bool" where
  "Holding_WriteLocationValid T s addr count = op_WriteLocationValid T s addr count"

definition Holding_ReadLocationValid ::
  "('st, 'x) writable_store_scheme \<Rightarrow> 'st \<Rightarrow> size_t \<Rightarrow> size_t \<Rightarrow> bool" where
  "Holding_ReadLocationValid T s addr count = op_ReadLocationValid T s addr count"

definition Holding_ReadRegister ::
  "('st, 'x) writable_store_scheme \<Rightarrow> 'st \<Rightarrow> u16 \<Rightarrow> u16 result" where
  "Holding_ReadRegister T s addr = op_GetRegister T s (ucast addr)"

definition Holding_WriteRegister ::
  "('st, 'x) writable_store_scheme \<Rightarrow> 'st \<Rightarrow> u16 \<Rightarrow> u16 \<Rightarrow> 'st result" where
  "Holding_WriteRegister T s addr val = op_SetRegister T s (ucast addr) val"

definition ValidateWriteSingleHoldingRegister ::
  "platform \<Rightarrow> ('st, 'x) writable_store_scheme \<Rightarrow> 'st \<Rightarrow> u8 ArrayView \<Rightarrow> Exception result" where
  "ValidateWriteSingleHoldingRegister P T s v =
     rbind (DataCommand_ReadAddressStart P v) (\<lambda>addr.
     if \<not> Holding_WriteLocationValid T s (ucast addr) 1 then Inr kIllegalDataAddress
     else Inr kAck)"

definition ValidateReadMultipleHoldingRegisters ::
  "platform \<Rightarrow> ('st, 'x) writable_store_scheme \<Rightarrow> 'st \<Rightarrow> u8 ArrayView \<Rightarrow> Exception result" where
  "ValidateReadMultipleHoldingRegisters P T s v =
     rbind (DataCommand_ReadAddressStart P v) (\<lambda>addr.
     rbind (ReadMultiple_ReadRegisterCount P v) (\<lambda>register_count.
     if \<not> Holding_ReadLocationValid T s (ucast addr) (ucast register_count)
     then Inr kIllegalDataAddress else Inr kAck))"

definition ValidateWriteMultipleHoldingRegisters ::
  "platform \<Rightarrow> ('st, 'x) writable_store_scheme \<Rightarrow> 'st \<Rightarrow> u8 ArrayView \<Rightarrow> Exception result" where
  "ValidateWriteMultipleHoldingRegisters P T s v =
     rbind (WriteMultiple_ReadRegisterCount P v) (\<lambda>register_count.
     rbind (WriteMultiple_ReadDataByteCount v) (\<lambda>num_data_bytes.
     rbind (DataCommand_ReadAddressStart P v) (\<lambda>addr.
     if \<not> Holding_WriteLocationValid T s (ucast addr) (ucast register_count)
     then Inr kIllegalDataAddress
     else if unat register_count * 2 \<noteq> num_data_bytes then Inr kIllegalDataValue
     else Inr kAck)))"

definition Holding_ReadRegisters ::
  "platform \<Rightarrow> ('st, 'x) writable_store_scheme \<Rightarrow> 'st \<Rightarrow> u16 \<Rightarrow> u16 \<Rightarrow> u8 ArrayView \<Rightarrow>
   u8 ArrayView result" where
  "Holding_ReadRegisters P T s starting_address register_count response_data =
     (if \<not> Holding_ReadLocationValid T s (ucast starting_address) (ucast register_count)
      then rbind (c_assert P False) (\<lambda>_. Inr response_data)
      else op_GetRegisters T s (ucast starting_address) (ucast register_count) response_data)"

definition RunWriteSingleHoldingRegister ::
  "platform \<Rightarrow> ('st, 'x) writable_store_scheme \<Rightarrow> 'st \<Rightarrow> Frame \<Rightarrow> Response \<Rightarrow>
   (int \<times> Response \<times> 'st) result" where
  "RunWriteSingleHoldingRegister P T s frame response =
     rbind (DataCommand_ReadAddressStart P (data_array frame)) (\<lambda>addr.
     rbind (WriteSingle_ReadSetting P (data_array frame)) (\<lambda>register_setting.
     rbind (Holding_WriteRegister T s addr register_setting) (\<lambda>s.
     rbind (op_set_register_callback T s (ucast addr) register_setting) (\<lambda>s.
     rbind (WriteSingle_FillResponseHeader P (frame_address frame) addr register_setting response)
       (\<lambda>response. Inr (0, response, s))))))"

text \<open>
  The view of the reply's data is built from the raw pointer \<open>&data()[kHeaderSize]\<close>; what the
  store writes through it lands in the reply's array from there on.
\<close>

definition response_data_view :: "Response \<Rightarrow> u8 ArrayView" where
  "response_data_view r =
     \<lparr>view_size = res_length r - ReadMultiple_Response_kHeaderSize,
      view_data = drop ReadMultiple_Response_kHeaderSize (res_data r)\<rparr>"

definition response_put_data :: "Response \<Rightarrow> u8 ArrayView \<Rightarrow> Response" where
  "response_put_data r v =
     r\<lparr>res_data := take ReadMultiple_Response_kHeaderSize (res_data r) @ view_data v\<rparr>"

definition RunReadMultipleHoldingRegisters ::
  "platform \<Rightarrow> ('st, 'x) writable_store_scheme \<Rightarrow> 'st \<Rightarrow> Frame \<Rightarrow> Response \<Rightarrow>
   (int \<times> Response) result" where
  "RunReadMultipleHoldingRegisters P T s frame response =
     rbind (DataCommand_ReadAddressStart P (data_array frame)) (\<lambda>addr.
     rbind (ReadMultiple_ReadRegisterCount P (data_array frame)) (\<lambda>register_count.
     let kDataBytes = (word_of_nat (2 * unat register_count) :: u8);
         kPacketSize = unat kDataBytes + ReadMultiple_Response_kHeaderSize + kFooterLength;
         response = SetLength (min (Response_size response) kPacketSize) response in
     rbind (ReadMultipleHoldingRegisters_FillResponseHeader P (frame_address frame)
              (unat register_count) response) (\<lambda>response.
     rbind (Holding_ReadRegisters P T s addr register_count (response_data_view response))
       (\<lambda>response_data. Inr (0, response_put_data response response_data)))))"

definition RunWriteMultipleHoldingRegisters ::
  "platform \<Rightarrow> ('st, 'x) writable_store_scheme \<Rightarrow> 'st \<Rightarrow> Frame \<Rightarrow> Response \<Rightarrow>
   (int \<times> Response \<times> 'st) result" where
  "RunWriteMultipleHoldingRegisters P T s frame response =
     rbind (DataCommand_ReadAddressStart P (data_array frame)) (\<lambda>addr.
     rbind (WriteMultiple_ReadRegisterCount P (data_array frame)) (\<lambda>register_count.
     rbind (WriteMultiple_FillResponseHeader P (frame_address frame) addr
              (unat register_count) response) (\<lambda>response.
     rbind (view_from (data_array frame) WriteMultiple_kValueStart (unat register_count * 2))
       (\<lambda>data_view.
     rbind (op_SetRegisters T s (ucast addr) (ucast register_count) data_view) (\<lambda>s.
     rbind (op_set_registers_callback T s (ucast addr) (ucast register_count) data_view) (\<lambda>s.
     Inr (0, response, s)))))))"

definition Holding_ReadFrame ::
  "platform \<Rightarrow> ('st, 'x) writable_store_scheme \<Rightarrow> 'st \<Rightarrow> Frame \<Rightarrow> Response \<Rightarrow>
   (int \<times> Response \<times> 'st) result" where
  "Holding_ReadFrame P T s frame response =
     (if frame_function frame = kWriteSingleHoldingRegister
      then RunWriteSingleHoldingRegister P T s frame response
      else if frame_function frame = kReadMultipleHoldingRegisters
      then rbind (RunReadMultipleHoldingRegisters P T s frame response)
             (\<lambda>(code, response). Inr (code, response, s))
      else if frame_function frame = kWriteMultipleHoldingRegisters
      then RunWriteMultipleHoldingRegisters P T s frame response
      else rbind (c_assert P False) (\<lambda>_. Inr (-1, response, s)))"

definition Holding_ValidateFrame ::
  "platform \<Rightarrow> ('st, 'x) writable_store_scheme \<Rightarrow> 'st \<Rightarrow> Frame \<Rightarrow> Exception result" where
  "Holding_ValidateFrame P T s frame =
     (if frame_function frame = kReadMultipleHoldingRegisters
      then ValidateReadMultipleHoldingRegisters P T s (data_array frame)
      else if frame_function frame = kWriteSingleHoldingRegister
      then ValidateWriteSingleHoldingRegister P T s (data_array frame)
      else if frame_function frame = kWriteMultipleHoldingRegisters
      then ValidateWriteMultipleHoldingRegisters P T s (data_array frame)
      else rbind (c_assert P False) (\<lambda>_. Inr kAck))"

section \<open>InputRegisterController\<close>

definition Input_ReadLocationValid ::
  "('st, 'x) readable_store_scheme \<Rightarrow> 'st \<Rightarrow> size_t \<Rightarrow> size_t \<Rightarrow> bool" where
  "Input_ReadLocationValid T s addr count = op_ReadLocationValid T s addr count"

definition Input_ReadRegister ::
  "('st, 'x) readable_store_scheme \<Rightarrow> 'st \<Rightarrow> u16 \<Rightarrow> u16 result" where
  "Input_ReadRegister T s addr = op_GetRegister T s (ucast addr)"

definition Input_WriteRegister ::
  "('st, 'x) readable_store_scheme \<Rightarrow> 'st \<Rightarrow> u16 \<Rightarrow> u16 \<Rightarrow> 'st result" where
  "Input_WriteRegister T s addr val = op_SetRegister T s (ucast addr) val"

definition Input_ValidateReadRegisters ::
  "platform \<Rightarrow> ('st, 'x) readable_store_scheme \<Rightarrow> 'st \<Rightarrow> u8 ArrayView \<Rightarrow> Exception result" where
  "Input_ValidateReadRegisters P T s v =
     rbind (DataCommand_ReadAddressStart P v) (\<lambda>addr.
     rbind (ReadMultiple_ReadRegisterCount P v) (\<lambda>register_count.
     if \<not> Input_ReadLocationValid T s (ucast addr) (ucast register_count)
     then Inr kIllegalDataAddress else Inr kAck))"

definition Input_ReadRegisters ::
  "platform \<Rightarrow> ('st, 'x) readable_store_scheme \<Rightarrow> 'st \<Rightarrow> u16 \<Rightarrow> u16 \<Rightarrow> u8 ArrayView \<Rightarrow>
   u8 ArrayView result" where
  "Input_ReadRegisters P T s starting_address register_count response_data =
     (if \<not> Input_ReadLocationValid T s (ucast starting_address) (ucast register_count)
      then rbind (c_assert P False) (\<lambda>_. Inr response_data)
      else op_GetRegisters T s (ucast starting_address) (ucast register_count) response_data)"

text \<open>The view is built before the header is filled in, from the truncated packet size.\<close>

definition RunReadInputRegisters ::
  "platform \<Rightarrow> ('st, 'x) readable_store_scheme \<Rightarrow> 'st \<Rightarrow> Frame \<Rightarrow> Response \<Rightarrow>
   (int \<times> Response) result" where
  "RunReadInputRegisters P T s frame response =
     rbind (ReadMultiple_ReadRegisterCount P (data_array frame)) (\<lambda>register_count.
     let kDataBytes = (word_of_nat (2 * unat register_count) :: u8);
         kPacketSize = unat kDataBytes + ReadMultiple_Response_kHeaderSize + kFooterLength;
         response = SetLength (min (Response_size response) kPacketSize) response in
     rbind (DataCommand_ReadAddressStart P (data_array frame)) (\<lambda>addr.
     rbind (Input_ReadRegisters P T s addr register_count (response_data_view response))
       (\<lambda>response_data.
     rbind (ReadInputRegisters_FillResponseHeader P (frame_address frame) (unat register_count)
              (response_put_data response response_data)) (\<lambda>response.
     Inr (0, response)))))"

definition Input_ReadFrame ::
  "platform \<Rightarrow> ('st, 'x) readable_store_scheme \<Rightarrow> 'st \<Rightarrow> Frame \<Rightarrow> Response \<Rightarrow>
   (int \<times> Response) result" where
  "Input_ReadFrame P T s frame response =
     (if frame_function frame \<noteq> kReadInputRegisters then Inr (-1, response)
      else RunReadInputRegisters P T s frame response)"

definition Input_ValidateFrame ::
  "platform \<Rightarrow> ('st, 'x) readable_store_scheme \<Rightarrow> 'st \<Rightarrow> Frame \<Rightarrow> Exception result" where
  "Input_ValidateFrame P T s frame =
     (if frame_function frame = kReadInputRegisters
      then Input_ValidateReadRegisters P T s (data_array frame)
      else rbind (c_assert P False) (\<lambda>_. Inr kIllegalFunction))"

section \<open>The fields of a request\<close>

definition req_address :: "platform \<Rightarrow> Frame \<Rightarrow> u16" where
  "req_address P f = Make_MSB P (view_data (data_array f) ! 0) (view_data (data_array f) ! 1)"

definition req_word :: "platform \<Rightarrow> Frame \<Rightarrow> u16" where
  "req_word P f = Make_MSB P (view_data (data_array f) ! 2) (view_data (data_array f) ! 3)"

definition req_byte_count :: "Frame \<Rightarrow> nat" where
  "req_byte_count f = unat (view_data (data_array f) ! 4)"

definition req_values :: "platform \<Rightarrow> Frame \<Rightarrow> u8 list" where
  "req_values P f = take (2 * unat (req_word P f)) (drop 5 (view_data (data_array f)))"

definition has_bytes :: "nat \<Rightarrow> Frame \<Rightarrow> bool" where
  "has_bytes n f \<longleftrightarrow> n \<le> view_size (data_array f) \<and> n \<le> length (view_data (data_array f))"

lemma read_address [simp]:
  "has_bytes 4 f \<Longrightarrow> DataCommand_ReadAddressStart P (data_array f) = Inr (req_address P f)"
  by (simp add: has_bytes_def DataCommand_ReadAddressStart_def req_address_def)

lemma read_word [simp]:
  assumes "has_bytes 4 f"
  shows "ReadMultiple_ReadRegisterCount P (data_array f) = Inr (req_word P f)"
    and "WriteMultiple_ReadRegisterCount P (data_array f) = Inr (req_word P f)"
    and "WriteSingle_ReadSetting P (data_array f) = Inr (req_word P f)"
  using assms by (simp_all add: has_bytes_def read_field_defs req_word_def)

lemma read_byte_count [simp]:
  "has_bytes 5 f \<Longrightarrow> WriteMultiple_ReadDataByteCount (data_array f) = Inr (req_byte_count f)"
  by (simp add: has_bytes_def WriteMultiple_ReadDataByteCount_def req_byte_count_def)

lemma has_bytes_mono [simp]: "has_bytes 5 f \<Longrightarrow> has_bytes 4 f"
  by (simp add: has_bytes_def)

section \<open>Reply headers\<close>

lemma WriteSingle_FillResponseHeader_spec:
  assumes "Response_wf r"
  shows "WriteSingle_FillResponseHeader P dev a w r =
    Inr (r\<lparr>res_data := overwrite 0 ([dev, 6] @ reg_bytes P [a, w]) (res_data r), res_length := 6\<rparr>)"
  using assms
  by (simp add: WriteSingle_FillResponseHeader_def Response_wf_def kMaxFrameLength_def
      SetLength_def overwrite_Cons eval_nat_numeral)

lemma WriteMultiple_FillResponseHeader_spec:
  assumes "Response_wf r"
  shows "WriteMultiple_FillResponseHeader P dev a (unat n) r =
    Inr (r\<lparr>res_data := overwrite 0 ([dev, 16] @ reg_bytes P [a, n]) (res_data r), res_length := 6\<rparr>)"
  using assms
  by (simp add: WriteMultiple_FillResponseHeader_def Response_wf_def kMaxFrameLength_def
      SetLength_def overwrite_Cons eval_nat_numeral)

lemma ReadMultiple_FillResponseHeaderBase_spec:
  assumes "Response_wf r"
  shows "ReadMultiple_FillResponseHeaderBase P dev n fn r =
    Inr (r\<lparr>res_data := overwrite 0 [dev, Function_code fn, word_of_nat (2 * n)] (res_data r),
           res_length := 3 + 2 * n\<rparr>)"
  using assms
  by (simp add: ReadMultiple_FillResponseHeaderBase_def Response_wf_def kMaxFrameLength_def
      SetLength_def overwrite_Cons eval_nat_numeral mult.commute)

section \<open>The controllers on any store that meets the contract\<close>

lemma data_view_size:
  assumes "n \<le> 126"
  shows "min 256 (unat (word_of_nat (2 * n) :: u8) + 5) - 3 = min 253 (2 * n + 2)"
proof -
  have "2 * n < 256" using assms by simp
  then have "unat (word_of_nat (2 * n) :: u8) = 2 * n"
    by (simp only: unat_word_of_nat_u8 mod_less)
  then show ?thesis by simp
qed

lemma overwrite_header_data:
  "length hdr = 3 \<Longrightarrow> 3 + length bs \<le> length xs \<Longrightarrow>
   overwrite 0 hdr (take 3 xs @ overwrite 0 bs (drop 3 xs)) = overwrite 0 (hdr @ bs) xs"
  "length hdr = 3 \<Longrightarrow> 3 + length bs \<le> length xs \<Longrightarrow>
   take 3 (overwrite 0 hdr xs) @ overwrite 0 bs (drop 3 (overwrite 0 hdr xs)) = overwrite 0 (hdr @ bs) xs"
  by (simp_all add: overwrite_0 add.commute)

context readable_register_store
begin

lemma RunReadInputRegisters_spec:
  assumes "inv s" and r: "Response_wf r" and "has_bytes 4 f"
    and n: "req_word P f \<noteq> 0" "unat (req_word P f) \<le> 126"
    and valid: "op_ReadLocationValid (ops P) s (ucast (req_address P f)) (ucast (req_word P f))"
  shows "RunReadInputRegisters P (ops P) s f r =
    Inr (0, r\<lparr>res_data := overwrite 0
        ([frame_address f, 4, word_of_nat (2 * unat (req_word P f))] @
         fetch P s (unat (req_address P f)) (unat (req_word P f))) (res_data r),
      res_length := 3 + 2 * unat (req_word P f)\<rparr>)"
proof -
  let ?n = "unat (req_word P f)" and ?a = "unat (req_address P f)"
  let ?r = "SetLength (min (Response_size r) (unat (word_of_nat (2 * ?n) :: u8) + 3 + 2)) r"
  have len: "length (res_data r) = 256"
    using r by (simp add: Response_wf_def kMaxFrameLength_def)
  have fl: "length (fetch P s ?a ?n) \<le> 2 * ?n"
    using length_fetch assms(1) valid n(1) .
  have vs: "view_size (response_data_view ?r) = min 253 (2 * ?n + 2)"
    using data_view_size [OF n(2)] by (simp add: response_data_view_def SetLength_def Response_size_def len add.commute)
  have vd: "view_data (response_data_view ?r) = drop 3 (res_data r)"
    by (simp add: response_data_view_def SetLength_def)
  have "op_GetRegisters (ops P) s (ucast (req_address P f)) (ucast (req_word P f)) (response_data_view ?r) =
      Inr ((response_data_view ?r)\<lparr>view_data := overwrite 0 (fetch P s ?a ?n) (drop 3 (res_data r))\<rparr>)"
    using GetRegisters_law [OF assms(1) valid n(1), of "response_data_view ?r"] vs vd n(2) len
    by (simp add: view_wf_def)
  then show ?thesis
    using assms(3) valid fl n(2) len
    by (simp add: RunReadInputRegisters_def Input_ReadRegisters_def Input_ReadLocationValid_def
        Let_def ReadInputRegisters_FillResponseHeader_def response_put_data_def SetLength_def
        ReadMultiple_FillResponseHeaderBase_spec Response_wf_def kMaxFrameLength_def
        overwrite_header_data)
qed

end

context writable_register_store
begin

lemma RunReadMultipleHoldingRegisters_spec:
  assumes "inv s" and r: "Response_wf r" and "has_bytes 4 f"
    and n: "req_word P f \<noteq> 0" "unat (req_word P f) \<le> 126"
    and valid: "op_ReadLocationValid (ops P) s (ucast (req_address P f)) (ucast (req_word P f))"
  shows "RunReadMultipleHoldingRegisters P (ops P) s f r =
    Inr (0, r\<lparr>res_data := overwrite 0
        ([frame_address f, 3, word_of_nat (2 * unat (req_word P f))] @
         fetch P s (unat (req_address P f)) (unat (req_word P f))) (res_data r),
      res_length := 3 + 2 * unat (req_word P f)\<rparr>)"
proof -
  let ?n = "unat (req_word P f)" and ?a = "unat (req_address P f)"
  let ?hdr = "[frame_address f, 3, word_of_nat (2 * ?n) :: u8]"
  let ?r = "r\<lparr>res_data := overwrite 0 ?hdr (res_data r), res_length := 3 + 2 * ?n\<rparr>"
  have len: "length (res_data r) = 256"
    using r by (simp add: Response_wf_def kMaxFrameLength_def)
  have fl: "length (fetch P s ?a ?n) \<le> 2 * ?n"
    using length_fetch assms(1) valid n(1) .
  have vs: "view_size (response_data_view ?r) = 2 * ?n"
    by (simp add: response_data_view_def)
  have vd: "view_data (response_data_view ?r) = drop 3 (overwrite 0 ?hdr (res_data r))"
    by (simp add: response_data_view_def)
  have "op_GetRegisters (ops P) s (ucast (req_address P f)) (ucast (req_word P f)) (response_data_view ?r) =
      Inr ((response_data_view ?r)\<lparr>view_data := overwrite 0 (fetch P s ?a ?n) (drop 3 (overwrite 0 ?hdr (res_data r)))\<rparr>)"
    using GetRegisters_law [OF assms(1) valid n(1), of "response_data_view ?r"] vs vd n(2) len
    by (simp add: view_wf_def)
  then show ?thesis
    using assms(3) valid fl n(2) len r
    by (simp add: RunReadMultipleHoldingRegisters_def Holding_ReadRegisters_def
        Holding_ReadLocationValid_def Let_def ReadMultipleHoldingRegisters_FillResponseHeader_def
        response_put_data_def SetLength_def ReadMultiple_FillResponseHeaderBase_spec Response_wf_def
        kMaxFrameLength_def overwrite_header_data)
qed

lemma RunWriteSingleHoldingRegister_spec:
  assumes "platform_ok P" and "inv s" and "Response_wf r" and "has_bytes 4 f"
    and "op_WriteLocationValid (ops P) s (ucast (req_address P f)) 1"
  shows "RunWriteSingleHoldingRegister P (ops P) s f r =
    Inr (0, r\<lparr>res_data := overwrite 0 ([frame_address f, 6] @ reg_bytes P [req_address P f, req_word P f])
          (res_data r), res_length := 6\<rparr>,
      update P s (unat (req_address P f)) (reg_bytes P [req_word P f]))"
  using write_one_law [OF assms(1,2,5), of "req_word P f"] assms(3,4)
  by (auto simp add: RunWriteSingleHoldingRegister_def Holding_WriteRegister_def
      WriteSingle_FillResponseHeader_spec)

lemma RunWriteMultipleHoldingRegisters_spec:
  assumes "inv s" and "Response_wf r" and f: "has_bytes (5 + 2 * unat (req_word P f)) f"
    and n: "req_word P f \<noteq> 0"
    and valid: "op_WriteLocationValid (ops P) s (ucast (req_address P f)) (ucast (req_word P f))"
  shows "RunWriteMultipleHoldingRegisters P (ops P) s f r =
    Inr (0, r\<lparr>res_data := overwrite 0 ([frame_address f, 16] @ reg_bytes P [req_address P f, req_word P f])
          (res_data r), res_length := 6\<rparr>,
      update P s (unat (req_address P f)) (req_values P f))"
proof -
  let ?v = "\<lparr>view_size = unat (req_word P f) * 2, view_data = drop 5 (view_data (data_array f))\<rparr>"
  have "unat (req_word P f) \<noteq> 0"
    using n by (simp add: unat_eq_0)
  then have v: "view_from (data_array f) 5 (unat (req_word P f) * 2) = Inr ?v" "has_bytes 4 f"
    using f by (simp_all add: view_from_def has_bytes_def)
  have "view_wf ?v"
    using f unfolding view_wf_def has_bytes_def by (simp, linarith)
  from write_block_law [OF assms(1) valid n _ this] show ?thesis
    using v assms(2)
    by (auto simp add: RunWriteMultipleHoldingRegisters_def WriteMultiple_FillResponseHeader_spec
        req_values_def)
qed

end

section \<open>Validation\<close>

text \<open>The exception each request is answered with, in the order the code checks.\<close>

definition holding_verdict ::
  "platform \<Rightarrow> ('st, 'x) writable_store_scheme \<Rightarrow> 'st \<Rightarrow> Frame \<Rightarrow> Exception" where
  "holding_verdict P T s f =
     (if frame_function f = kReadMultipleHoldingRegisters then
        (if op_ReadLocationValid T s (ucast (req_address P f)) (ucast (req_word P f))
         then kAck else kIllegalDataAddress)
      else if frame_function f = kWriteSingleHoldingRegister then
        (if op_WriteLocationValid T s (ucast (req_address P f)) 1 then kAck else kIllegalDataAddress)
      else
        (if \<not> op_WriteLocationValid T s (ucast (req_address P f)) (ucast (req_word P f))
         then kIllegalDataAddress
         else if 2 * unat (req_word P f) \<noteq> req_byte_count f then kIllegalDataValue else kAck))"

lemma Holding_ValidateFrame_spec:
  assumes "has_bytes 5 f"
    and "frame_function f \<in> {kReadMultipleHoldingRegisters, kWriteSingleHoldingRegister,
           kWriteMultipleHoldingRegisters}"
  shows "Holding_ValidateFrame P T s f = Inr (holding_verdict P T s f)"
  using assms
  by (auto simp: Holding_ValidateFrame_def holding_verdict_def
      ValidateReadMultipleHoldingRegisters_def ValidateWriteSingleHoldingRegister_def
      ValidateWriteMultipleHoldingRegisters_def Holding_WriteLocationValid_def
      Holding_ReadLocationValid_def)

lemma Input_ValidateFrame_spec:
  assumes "has_bytes 4 f" and "frame_function f = kReadInputRegisters"
  shows "Input_ValidateFrame P T s f =
    Inr (if op_ReadLocationValid T s (ucast (req_address P f)) (ucast (req_word P f))
         then kAck else kIllegalDataAddress)"
  using assms
  by (simp add: Input_ValidateFrame_def Input_ValidateReadRegisters_def Input_ReadLocationValid_def)

section \<open>Reads that do not fit the reply buffer\<close>

lemma GetRegisters_loop_overrun:
  assumes "store_wf s" and "unat a + k \<le> length (registers s)"
    and "b \<le> min (view_size v) (length (view_data v))"
    and "min (view_size v) (length (view_data v)) < b + 2 * k"
  shows "RegisterDataStore_GetRegisters_loop P s a b (b + 2 * k) v = Inl OutOfBounds"
  using assms
proof (induction k arbitrary: a b v)
  case 0
  then show ?case by linarith
next
  case (Suc k)
  have a1: "unat (a + 1) = unat a + 1"
    using Suc.prems unat_add_small [of a 1] by (simp add: store_wf_def)
  have b: "b + 2 * Suc k = (b + 2) + 2 * k" by simp
  show ?case
  proof (cases "Suc b < min (view_size v) (length (view_data v))")
    case True
    let ?v = "v\<lparr>view_data := (view_data v)[b := GetByte P (unat (registers s ! unat a)) 1,
            Suc b := GetByte P (unat (registers s ! unat a)) 0]\<rparr>"
    have "RegisterDataStore_GetRegisters_loop P s a b (b + 2 * Suc k) v =
        RegisterDataStore_GetRegisters_loop P s (a + 1) (b + 2) ((b + 2) + 2 * k) ?v"
      using Suc.prems True by (subst RegisterDataStore_GetRegisters_loop.simps) simp
    also have "\<dots> = Inl OutOfBounds"
      using Suc.prems True a1 by (intro Suc.IH) auto
    finally show ?thesis .
  next
    case False
    then show ?thesis
      using Suc.prems
      by (subst RegisterDataStore_GetRegisters_loop.simps) (auto simp: view_set_def)
  qed
qed

lemma GetRegisters_overrun:
  assumes "store_wf s" and "RegisterDataStore_ReadLocationValid s (ucast a) (ucast n)"
    and "min (view_size v) (length (view_data v)) < 2 * unat n"
  shows "RegisterDataStore_GetRegisters P s (ucast (a :: u16)) (ucast (n :: u16)) v = Inl OutOfBounds"
  using GetRegisters_loop_overrun [of s "ucast a" "unat n" 0 v P]
    valid_read_range(2) [OF assms(1,2)] assms
  by (simp add: RegisterDataStore_GetRegisters_def unat_ucast_double)

end
