(* ===== verification/RtuProtocol.thy ===== *)
theory RtuProtocol
  imports RegisterControl
begin

text \<open>
  \<open>include/Modbus/ModbusRtu/ModbusRtuProtocol.h\<close>: how many bytes a request still needs,
  the byte-by-byte reader \<open>ReadContext\<close>, and \<open>ProtocolRtu\<close>, which frames packets, checks
  and appends the CRC and reads a framed packet back. The CRC routine is the function
  pointer \<open>crcf\<close>; \<open>crc_ok c g\<close> says that it computes \<open>g\<close> on the bytes it is given.
\<close>

section \<open>Sizes\<close>

type_synonym Crc16 = "u8 ArrayView \<Rightarrow> nat \<Rightarrow> u16 result"

definition GetRequiredPacketSize :: "Frame \<Rightarrow> nat" where
  "GetRequiredPacketSize packet = kHeaderLength + data_length packet + kFooterLength"

definition CalculateMetaDataBytesRemaining :: "Function \<Rightarrow> int" where
  "CalculateMetaDataBytesRemaining f =
     (if f = kReadMultipleHoldingRegisters then int ReadMultiple_kPacketSize
      else if f = kReadInputRegisters then int ReadMultiple_kPacketSize
      else if f = kWriteSingleHoldingRegister then int WriteSingle_kValueStart
      else if f = kWriteMultipleHoldingRegisters then int WriteMultiple_kValueStart
      else 0)"

definition CalculateBytesRemaining :: "Frame \<Rightarrow> int result" where
  "CalculateBytesRemaining f =
     (if frame_function f = kReadMultipleHoldingRegisters then Inr 0
      else if frame_function f = kReadInputRegisters then Inr 0
      else if frame_function f = kWriteSingleHoldingRegister then Inr 2
      else if frame_function f = kWriteMultipleHoldingRegisters
      then rbind (view_get (data_array f) WriteMultiple_kNumberOfDataBytes) (\<lambda>b. Inr (uint b))
      else Inr 0)"

section \<open>ReadContext\<close>

record ReadContext =
  ctx_state :: PacketState
  bytes_to_read :: int

definition ReadContext_init :: ReadContext where
  "ReadContext_init = \<lparr>ctx_state = kAddress, bytes_to_read = int kHeaderLength + 1\<rparr>"

definition ReadContext_Reset :: "ReadContext \<Rightarrow> ReadContext" where
  "ReadContext_Reset ctx = ctx\<lparr>bytes_to_read := int kHeaderLength + 1, ctx_state := kAddress\<rparr>"

definition PacketReceived :: "ReadContext \<Rightarrow> bool" where
  "PacketReceived ctx \<longleftrightarrow> ctx_state ctx = kDone"

text \<open>\<open>p_frame->data_array[p_frame->data_length++] = pt\<close>.\<close>

definition Frame_append :: "u8 \<Rightarrow> Frame \<Rightarrow> Frame result" where
  "Frame_append pt f =
     rbind (Frame_set (data_length f) pt f) (\<lambda>f. Inr (f\<lparr>data_length := Suc (data_length f)\<rparr>))"

definition ProcessCharacter ::
  "platform \<Rightarrow> ReadContext \<Rightarrow> Frame \<Rightarrow> u8 \<Rightarrow> (ReadContext \<times> Frame) result" where
  "ProcessCharacter P ctx f pt =
     (let ctx = ctx\<lparr>bytes_to_read := bytes_to_read ctx - 1\<rparr> in
      case ctx_state ctx of
        kAddress \<Rightarrow> Inr (ctx\<lparr>ctx_state := kFunction\<rparr>, f\<lparr>frame_address := pt\<rparr>)
      | kFunction \<Rightarrow>
          if FunctionCodeIsValid pt
          then Inr (ctx\<lparr>ctx_state := kMeta,
                       bytes_to_read := CalculateMetaDataBytesRemaining (GetFunction pt)\<rparr>,
                    f\<lparr>frame_function := GetFunction pt\<rparr>)
          else Inr (ReadContext_Reset ctx, f)
      | kMeta \<Rightarrow>
          rbind (Frame_append pt f) (\<lambda>f.
          if bytes_to_read ctx \<le> 0
          then rbind (CalculateBytesRemaining f) (\<lambda>remaining.
               let ctx = ctx\<lparr>bytes_to_read := remaining + int kFooterLength, ctx_state := kData\<rparr>
               in Inr (if bytes_to_read ctx = 0 then ctx\<lparr>ctx_state := kDone\<rparr> else ctx, f))
          else Inr (ctx, f))
      | kData \<Rightarrow>
          rbind (Frame_append pt f) (\<lambda>f.
          Inr (if bytes_to_read ctx \<le> 0 then ctx\<lparr>ctx_state := kDone\<rparr> else ctx, f))
      | kDone \<Rightarrow> rbind (c_assert P False) (\<lambda>_. Inr (ReadContext_Reset ctx, f)))"

text \<open>The reader over a run of bytes.\<close>

fun ProcessCharacters ::
  "platform \<Rightarrow> ReadContext \<Rightarrow> Frame \<Rightarrow> u8 list \<Rightarrow> (ReadContext \<times> Frame) result" where
  "ProcessCharacters P ctx f [] = Inr (ctx, f)"
| "ProcessCharacters P ctx f (pt # pts) =
     rbind (ProcessCharacter P ctx f pt) (\<lambda>(ctx, f). ProcessCharacters P ctx f pts)"

section \<open>ProtocolRtu\<close>

text \<open>An access to a \<open>std::array\<close>.\<close>

definition array_set :: "nat \<Rightarrow> 'a \<Rightarrow> 'a list \<Rightarrow> 'a list result" where
  "array_set i x xs = (if i < length xs then Inr (xs[i := x]) else Inl OutOfBounds)"

definition FrameCrcIsValid_view :: "platform \<Rightarrow> Crc16 \<Rightarrow> u8 ArrayView \<Rightarrow> bool result" where
  "FrameCrcIsValid_view P crcf frame_buffer =
     (if view_size frame_buffer < 2 then Inl OutOfBounds else
      rbind (read_u16 P frame_buffer (view_size frame_buffer - 2)) (\<lambda>frame_crc.
      rbind (crcf frame_buffer (view_size frame_buffer - kFooterLength)) (\<lambda>calculated_crc.
      if frame_crc \<noteq> calculated_crc then Inr False else Inr True)))"

function FrameCrc_copy_loop :: "Frame \<Rightarrow> nat \<Rightarrow> nat \<Rightarrow> u8 list \<Rightarrow> u8 list result" where
  "FrameCrc_copy_loop f bound i data =
     (if i < bound
      then rbind (view_get (data_array f) i) (\<lambda>x.
           rbind (array_set (i + kHeaderLength) x data) (\<lambda>data.
           FrameCrc_copy_loop f bound (Suc i) data))
      else Inr data)"
  by pat_completeness auto
termination
  by (relation "measure (\<lambda>(f, bound, i, data). bound - i)") auto

declare FrameCrc_copy_loop.simps [simp del]

definition FrameCrcIsValid :: "platform \<Rightarrow> Crc16 \<Rightarrow> Frame \<Rightarrow> bool result" where
  "FrameCrcIsValid P crcf frame =
     rbind (array_set Command_kSlaveAddress (frame_address frame) (replicate 256 0)) (\<lambda>data.
     rbind (array_set Command_kFunction (Function_code (frame_function frame)) data) (\<lambda>data.
     rbind (FrameCrc_copy_loop frame (min (data_length frame) (length data)) 0 data) (\<lambda>data.
     FrameCrcIsValid_view P crcf \<lparr>view_size = data_length frame + 2, view_data = data\<rparr>)))"

function Frame_copy_loop :: "Frame \<Rightarrow> nat \<Rightarrow> u8 ArrayView \<Rightarrow> u8 ArrayView result" where
  "Frame_copy_loop packet i frame_buffer =
     (if i < data_length packet
      then rbind (view_get (data_array packet) i) (\<lambda>x.
           rbind (view_set frame_buffer (i + kHeaderLength) x) (\<lambda>frame_buffer.
           Frame_copy_loop packet (Suc i) frame_buffer))
      else Inr frame_buffer)"
  by pat_completeness auto
termination
  by (relation "measure (\<lambda>(packet, i, frame_buffer). data_length packet - i)") auto

declare Frame_copy_loop.simps [simp del]

definition ProtocolRtu_Frame ::
  "platform \<Rightarrow> Crc16 \<Rightarrow> Frame \<Rightarrow> u8 ArrayView \<Rightarrow> (int \<times> u8 ArrayView) result" where
  "ProtocolRtu_Frame P crcf packet frame_buffer =
     rbind (c_assert P (view_size frame_buffer \<ge> GetRequiredPacketSize packet)) (\<lambda>_.
     rbind (view_set frame_buffer Command_kSlaveAddress (frame_address packet)) (\<lambda>frame_buffer.
     rbind (view_set frame_buffer Command_kFunction (Function_code (frame_function packet)))
       (\<lambda>frame_buffer.
     rbind (Frame_copy_loop packet 0 frame_buffer) (\<lambda>frame_buffer.
     rbind (crcf frame_buffer (data_length packet + kHeaderLength)) (\<lambda>crc.
     rbind (c_assert P (GetRequiredPacketSize packet = view_size frame_buffer)) (\<lambda>_.
     let crc_start = GetRequiredPacketSize packet - 2 in
     rbind (view_set frame_buffer crc_start (GetByte P (unat crc) 1)) (\<lambda>frame_buffer.
     rbind (view_set frame_buffer (crc_start + 1) (GetByte P (unat crc) 0)) (\<lambda>frame_buffer.
     Inr (0, frame_buffer)))))))))"

definition FrameResponse ::
  "platform \<Rightarrow> Crc16 \<Rightarrow> Frame \<Rightarrow> Response \<Rightarrow> (int \<times> Response) result" where
  "FrameResponse P crcf packet response =
     rbind (Response_set P Command_kSlaveAddress (frame_address packet) response) (\<lambda>response.
     rbind (Response_at P response Command_kSlaveAddress) (\<lambda>x.
     rbind (c_assert P (x = frame_address packet)) (\<lambda>_.
     rbind (Response_set P Command_kFunction (Function_code (frame_function packet)) response)
       (\<lambda>response.
     rbind (Response_at P response Command_kFunction) (\<lambda>x.
     rbind (c_assert P (x = Function_code (frame_function packet))) (\<lambda>_.
     rbind (crcf (Response_GetArrayView response) (res_length response)) (\<lambda>crc.
     let response = SetLength (res_length response + 2) response;
         crc_start = res_length response - 2 in
     rbind (Response_set P crc_start (GetByte P (unat crc) 1) response) (\<lambda>response.
     rbind (Response_set P (crc_start + 1) (GetByte P (unat crc) 0) response) (\<lambda>response.
     Inr (0, response))))))))))"

function ReadFrame_loop :: "u8 ArrayView \<Rightarrow> nat \<Rightarrow> nat \<Rightarrow> Frame \<Rightarrow> Frame result" where
  "ReadFrame_loop frame_buffer bound i packet =
     (if i < bound
      then rbind (view_get frame_buffer (i + kHeaderLength)) (\<lambda>x.
           rbind (Frame_set i x packet) (\<lambda>packet.
           ReadFrame_loop frame_buffer bound (Suc i) packet))
      else Inr packet)"
  by pat_completeness auto
termination
  by (relation "measure (\<lambda>(frame_buffer, bound, i, packet). bound - i)") auto

declare ReadFrame_loop.simps [simp del]

text \<open>The length subtraction is in \<open>size_t\<close>.\<close>

definition ProtocolRtu_ReadFrame ::
  "platform \<Rightarrow> u8 ArrayView \<Rightarrow> Frame \<Rightarrow> (int \<times> Frame) result" where
  "ProtocolRtu_ReadFrame P frame_buffer packet =
     (let n = unat (word_of_nat (view_size frame_buffer) - word_of_nat kHeaderLength
                    - word_of_nat kFooterLength :: size_t);
          packet = packet\<lparr>data_length := n\<rparr> in
      rbind (c_assert P (view_size (data_array packet) \<ge> n)) (\<lambda>_.
      rbind (view_get frame_buffer Command_kFunction) (\<lambda>frame_fn.
      rbind (view_get frame_buffer Command_kSlaveAddress) (\<lambda>frame_addr.
      rbind (ReadFrame_loop frame_buffer n 0
               (packet\<lparr>frame_address := frame_addr, frame_function := Function_of_code frame_fn\<rparr>))
        (\<lambda>packet. Inr (0, packet))))))"

section \<open>The CRC routine\<close>

definition crc_ok :: "Crc16 \<Rightarrow> (u8 list \<Rightarrow> u16) \<Rightarrow> bool" where
  "crc_ok c g \<longleftrightarrow>
     (\<forall>v n. n \<le> view_size v \<longrightarrow> n \<le> length (view_data v) \<longrightarrow> c v n = Inr (g (take n (view_data v))))"

lemma crc_okD:
  "crc_ok c g \<Longrightarrow> n \<le> view_size v \<Longrightarrow> n \<le> length (view_data v) \<Longrightarrow>
   c v n = Inr (g (take n (view_data v)))"
  by (simp add: crc_ok_def)

text \<open>
  \<open>crc16\<close> of the examples and the tests (\<open>LinuxModbusTools.h\<close>, \<open>tests/source/Crc.h\<close>):
  \<open>Utilities::crc16\<close>, the parameter \<open>g\<close>, on the first \<open>length\<close> bytes behind the pointer.
\<close>

definition crc16 :: "platform \<Rightarrow> (u8 list \<Rightarrow> u16) \<Rightarrow> Crc16" where
  "crc16 P g array n =
     rbind (c_assert P (n \<le> view_size array)) (\<lambda>_.
     if n \<le> length (view_data array) then Inr (g (take n (view_data array))) else Inl OutOfBounds)"

lemma crc16_ok [simp]: "crc_ok (crc16 P g) g"
  by (simp add: crc_ok_def crc16_def)

section \<open>What the reader does to a request\<close>

text \<open>
  A request on the wire is an address byte, a function code and a body (data and CRC). The
  reader takes \<open>meta_length\<close> bytes of the body before it knows how many follow.
\<close>

definition meta_length :: "Function \<Rightarrow> nat" where
  "meta_length fn = max 1 (nat (CalculateMetaDataBytesRemaining fn))"

definition body_length :: "Function \<Rightarrow> u8 list \<Rightarrow> nat" where
  "body_length fn body = meta_length fn + 2 +
     (if fn = kWriteSingleHoldingRegister then 2
      else if fn = kWriteMultipleHoldingRegisters then unat (body ! 4) else 0)"

definition ctx_after :: "Function \<Rightarrow> u8 list \<Rightarrow> nat \<Rightarrow> ReadContext" where
  "ctx_after fn body k =
     (if k < meta_length fn
      then \<lparr>ctx_state = kMeta, bytes_to_read = CalculateMetaDataBytesRemaining fn - int k\<rparr>
      else if k < body_length fn body
      then \<lparr>ctx_state = kData, bytes_to_read = int (body_length fn body) - int k\<rparr>
      else \<lparr>ctx_state = kDone, bytes_to_read = 0\<rparr>)"

definition frame_after :: "u8 \<Rightarrow> Function \<Rightarrow> u8 list \<Rightarrow> nat \<Rightarrow> Frame \<Rightarrow> Frame" where
  "frame_after addr fn body k f = f\<lparr>frame_address := addr, frame_function := fn, data_length := k,
     data_array := (data_array f)\<lparr>view_data :=
       overwrite 0 (take k body) (view_data (data_array f))\<rparr>\<rparr>"

lemma meta_length_cases:
  "meta_length fn = (if fn \<in> {kReadMultipleHoldingRegisters, kReadInputRegisters} then 4
     else if fn = kWriteSingleHoldingRegister then 2
     else if fn = kWriteMultipleHoldingRegisters then 5 else 1)"
  by (simp add: meta_length_def CalculateMetaDataBytesRemaining_def)

lemma ProcessCharacters_append:
  "ProcessCharacters P ctx f (xs @ ys) =
   rbind (ProcessCharacters P ctx f xs) (\<lambda>(ctx, f). ProcessCharacters P ctx f ys)"
proof (induction xs arbitrary: ctx f)
  case (Cons x xs)
  then show ?case
    by (cases "ProcessCharacter P ctx f x") (auto split: prod.split)
qed simp

lemma overwrite_take_Suc:
  assumes "k < length body" and "k < length xs"
  shows "(overwrite 0 (take k body) xs)[k := body ! k] = overwrite 0 (take (Suc k) body) xs"
  using assms
  by (simp add: overwrite_0 list_update_append take_Suc_conv_app_nth Cons_nth_drop_Suc [symmetric])

lemma Frame_append_after:
  assumes "k < length body" and "k < view_size (data_array f)" and "view_wf (data_array f)"
  shows "Frame_append (body ! k) (frame_after addr fn body k f) =
         Inr (frame_after addr fn body (Suc k) f)"
proof -
  have "k < length (view_data (data_array f))"
    using assms by (simp add: view_wf_def)
  with assms show ?thesis
    by (simp add: Frame_append_def frame_after_def overwrite_take_Suc min_absorb2)
qed

lemma CalculateBytesRemaining_after:
  assumes "meta_length fn \<le> length body" and "meta_length fn \<le> view_size (data_array f)"
    and "view_wf (data_array f)"
  shows "CalculateBytesRemaining (frame_after addr fn body (meta_length fn) f) =
         Inr (int (body_length fn body) - 2 - int (meta_length fn))"
proof -
  have "5 \<le> length body \<Longrightarrow> overwrite 0 (take 5 body) xs ! 4 = body ! 4" for xs
    by (simp add: overwrite_0 nth_append)
  then show ?thesis
    using assms
    by (auto simp: CalculateBytesRemaining_def frame_after_def body_length_def meta_length_cases
        view_wf_def split: if_splits)
qed

lemma ProcessCharacter_step:
  assumes k: "k < body_length fn body" "k < length body" "meta_length fn \<le> length body"
    and v: "k < view_size (data_array f)" "view_wf (data_array f)"
  shows "ProcessCharacter P (ctx_after fn body k) (frame_after addr fn body k f) (body ! k) =
         Inr (ctx_after fn body (Suc k), frame_after addr fn body (Suc k) f)"
proof (cases "k < meta_length fn")
  case True
  note app = Frame_append_after [OF k(2) v(1) v(2), of addr fn]
  show ?thesis
  proof (cases "Suc k = meta_length fn")
    case last: True
    have "CalculateMetaDataBytesRemaining fn - int k - 1 \<le> 0"
      using last by (auto simp: meta_length_def)
    moreover have "meta_length fn < body_length fn body"
      by (simp add: body_length_def)
    ultimately show ?thesis
      using True last app CalculateBytesRemaining_after [OF k(3) _ v(2), of addr] v(1)
      by (simp add: ProcessCharacter_def ctx_after_def)
  next
    case False
    then have "\<not> CalculateMetaDataBytesRemaining fn - int k - 1 \<le> 0" "Suc k < meta_length fn"
      using True by (auto simp: meta_length_def)
    then show ?thesis
      using True app by (simp add: ProcessCharacter_def ctx_after_def)
  qed
next
  case False
  then show ?thesis
    using k Frame_append_after [OF k(2) v(1) v(2), of addr fn]
    by (auto simp: ProcessCharacter_def ctx_after_def)
qed

text \<open>
  After the address, the function code and the first \<open>k\<close> bytes of the body, for every \<open>k\<close> up
  to the end of the request.
\<close>

lemma ProcessCharacters_prefix:
  assumes fn: "fn \<in> set GetValidFunctions" and f: "data_length f = 0" "view_wf (data_array f)"
    and k: "k \<le> body_length fn body" "k \<le> length body" "k \<le> view_size (data_array f)"
    and m: "meta_length fn \<le> length body"
  shows "ProcessCharacters P ReadContext_init f (addr # Function_code fn # take k body) =
         Inr (ctx_after fn body k, frame_after addr fn body k f)"
  using k
proof (induction k)
  case 0
  have "0 < meta_length fn" by (simp add: meta_length_def)
  then show ?case
    using fn f
    by (simp add: ProcessCharacter_def ReadContext_init_def FunctionCodeIsValid_code
        GetFunction_code ctx_after_def frame_after_def)
next
  case (Suc k)
  then have lt: "k < body_length fn body" "k < length body" "k < view_size (data_array f)" by auto
  have "addr # Function_code fn # take (Suc k) body =
        (addr # Function_code fn # take k body) @ [body ! k]"
    using lt by (simp add: take_Suc_conv_app_nth)
  then show ?case
    using Suc ProcessCharacter_step [OF lt(1,2) m lt(3) f(2)]
    by (simp only: ProcessCharacters_append) simp
qed

lemma ProcessCharacters_request:
  assumes "fn \<in> set GetValidFunctions" and "data_length f = 0" and "view_wf (data_array f)"
    and "length body = body_length fn body" and "length body \<le> view_size (data_array f)"
  shows "ProcessCharacters P ReadContext_init f (addr # Function_code fn # body) =
         Inr (\<lparr>ctx_state = kDone, bytes_to_read = 0\<rparr>, frame_after addr fn body (length body) f)"
proof -
  have "meta_length fn \<le> length body"
    using assms(4) by (simp add: body_length_def)
  then show ?thesis
    using ProcessCharacters_prefix [OF assms(1-3), of "length body" body P addr] assms(4,5)
    by (simp add: ctx_after_def body_length_def)
qed

text \<open>A request that is longer than the frame buffer leaves it with the first byte too many.\<close>

lemma ProcessCharacters_overflow:
  assumes fn: "fn \<in> set GetValidFunctions" and f: "data_length f = 0"
    and buffer: "view_size (data_array f) = 256" "length (view_data (data_array f)) = 256"
    and body: "length body = 257" and long: "256 < body_length fn body"
  shows "ProcessCharacters P ReadContext_init f (addr # Function_code fn # body) = Inl OutOfBounds"
proof -
  have m: "meta_length fn \<le> 5" by (simp add: meta_length_cases)
  have "ProcessCharacters P ReadContext_init f (addr # Function_code fn # take 256 body) =
      Inr (ctx_after fn body 256, frame_after addr fn body 256 f)"
    by (rule ProcessCharacters_prefix) (use fn f buffer body long m in \<open>simp_all add: view_wf_def\<close>)
  moreover have "ProcessCharacter P (ctx_after fn body 256) (frame_after addr fn body 256 f) (body ! 256) =
      Inl OutOfBounds"
    using long buffer m
    by (simp add: ctx_after_def ProcessCharacter_def Frame_append_def Frame_set_def
        frame_after_def Let_def view_set_def)
  moreover have "addr # Function_code fn # body = (addr # Function_code fn # take 256 body) @ [body ! 256]"
    using body by (simp add: take_Suc_conv_app_nth [symmetric])
  ultimately show ?thesis
    by (simp only: ProcessCharacters_append rbind_simps prod.case ProcessCharacters.simps)
qed

section \<open>CRC check, framing and unframing\<close>

definition wire_bytes :: "Frame \<Rightarrow> u8 list" where
  "wire_bytes f = frame_address f # Function_code (frame_function f) #
     take (data_length f) (view_data (data_array f))"

lemma length_wire_bytes [simp]:
  "has_bytes (data_length f) f \<Longrightarrow> length (wire_bytes f) = data_length f + 2"
  by (simp add: wire_bytes_def has_bytes_def)

lemma drop_take_Cons:
  "i < n \<Longrightarrow> n \<le> length xs \<Longrightarrow> drop i (take n xs) = xs ! i # drop (Suc i) (take n xs)"
  by (simp add: Cons_nth_drop_Suc [symmetric])

lemma overwrite_Cons2:
  assumes "Suc 0 < length xs"
  shows "overwrite 0 (x # y # ys) xs = overwrite (Suc (Suc 0)) ys (xs[0 := x, Suc 0 := y])"
proof -
  have "0 < length xs" using assms by linarith
  with assms show ?thesis by (simp add: overwrite_Cons del: length_greater_0_conv)
qed

lemma FrameCrc_copy_loop_spec:
  "i \<le> bound \<Longrightarrow> has_bytes bound f \<Longrightarrow> bound + 2 \<le> length data \<Longrightarrow>
   FrameCrc_copy_loop f bound i data =
   Inr (overwrite (i + 2) (drop i (take bound (view_data (data_array f)))) data)"
proof (induction "bound - i" arbitrary: i data)
  case 0
  then show ?case by (simp add: FrameCrc_copy_loop.simps)
next
  case (Suc n)
  then have i: "i < bound" by simp
  then show ?case
    using Suc
    by (subst FrameCrc_copy_loop.simps)
      (simp add: has_bytes_def array_set_def drop_take_Cons overwrite_Cons)
qed

lemma FrameCrc_copy_loop_overrun:
  "i \<le> 254 \<Longrightarrow> has_bytes 255 f \<Longrightarrow> length data = 256 \<Longrightarrow> 255 \<le> bound \<Longrightarrow>
   FrameCrc_copy_loop f bound i data = Inl OutOfBounds"
proof (induction "254 - i" arbitrary: i data)
  case 0
  then show ?case
    by (subst FrameCrc_copy_loop.simps) (simp add: has_bytes_def array_set_def)
next
  case (Suc n)
  then show ?case
    by (subst FrameCrc_copy_loop.simps) (simp add: has_bytes_def array_set_def)
qed

lemma FrameCrcIsValid_view_spec:
  assumes "crc_ok crcf g" and "view_wf v" and "view_size v = Suc (Suc n)"
  shows "FrameCrcIsValid_view P crcf v =
    Inr (Make_MSB P (view_data v ! n) (view_data v ! Suc n) = g (take n (view_data v)))"
  using assms by (auto simp: FrameCrcIsValid_view_def view_wf_def crc_okD)

lemma FrameCrcIsValid_spec:
  assumes crc: "crc_ok crcf g" and f: "has_bytes (data_length f) f" and n: "data_length f \<le> 254"
  shows "FrameCrcIsValid P crcf f =
    Inr (Make_MSB P (wire_bytes f ! data_length f) (wire_bytes f ! Suc (data_length f)) =
         g (take (data_length f) (wire_bytes f)))"
proof -
  let ?data = "wire_bytes f @ drop (data_length f + 2) (replicate 256 0)"
  have len: "length (wire_bytes f) = data_length f + 2" using f by simp
  have "overwrite (Suc (Suc 0)) (take (data_length f) (view_data (data_array f)))
      (frame_address f # Function_code (frame_function f) # replicate 254 0) = ?data"
    using f n by (simp add: overwrite_def wire_bytes_def has_bytes_def)
  moreover have "(replicate 256 0)[0 := frame_address f, Suc 0 := Function_code (frame_function f)] =
      frame_address f # Function_code (frame_function f) # replicate 254 (0 :: u8)"
    by (simp add: eval_nat_numeral)
  ultimately have "FrameCrcIsValid P crcf f =
      FrameCrcIsValid_view P crcf \<lparr>view_size = data_length f + 2, view_data = ?data\<rparr>"
    using f n FrameCrc_copy_loop_spec [of 0 "data_length f" f
        "frame_address f # Function_code (frame_function f) # replicate 254 0"]
    by (simp add: FrameCrcIsValid_def array_set_def min_def)
  also have "\<dots> = Inr (Make_MSB P (?data ! data_length f) (?data ! Suc (data_length f)) =
         g (take (data_length f) ?data))"
    using FrameCrcIsValid_view_spec [OF crc, of "\<lparr>view_size = data_length f + 2, view_data = ?data\<rparr>"
        "data_length f" P] n len
    by (simp add: view_wf_def)
  finally show ?thesis
    using len by (simp add: nth_append)
qed

lemma FrameCrcIsValid_overrun:
  assumes "has_bytes 255 f" and "255 \<le> data_length f"
  shows "FrameCrcIsValid P crcf f = Inl OutOfBounds"
  using assms
  by (simp add: FrameCrcIsValid_def array_set_def FrameCrc_copy_loop_overrun)

lemma Frame_copy_loop_spec:
  "i \<le> data_length f \<Longrightarrow> has_bytes (data_length f) f \<Longrightarrow> view_wf v \<Longrightarrow>
   data_length f + 2 \<le> view_size v \<Longrightarrow>
   Frame_copy_loop f i v = Inr (v\<lparr>view_data :=
     overwrite (i + 2) (drop i (take (data_length f) (view_data (data_array f)))) (view_data v)\<rparr>)"
proof (induction "data_length f - i" arbitrary: i v)
  case 0
  then show ?case by (simp add: Frame_copy_loop.simps)
next
  case (Suc n)
  then have i: "i < data_length f" "i + 2 < length (view_data v)"
    by (auto simp: view_wf_def)
  then show ?case
    using Suc
    by (subst Frame_copy_loop.simps)
      (simp add: has_bytes_def view_wf_def drop_take_Cons overwrite_Cons)
qed

lemma ReadFrame_loop_spec:
  "i \<le> n \<Longrightarrow> has_bytes n f \<Longrightarrow> view_wf v \<Longrightarrow> n + 2 \<le> view_size v \<Longrightarrow>
   ReadFrame_loop v n i f = Inr (f\<lparr>data_array := (data_array f)\<lparr>view_data :=
     overwrite i (drop i (take n (drop 2 (view_data v)))) (view_data (data_array f))\<rparr>\<rparr>)"
proof (induction "n - i" arbitrary: i f)
  case 0
  then show ?case by (simp add: ReadFrame_loop.simps)
next
  case (Suc m)
  then have i: "i < n" "i + 2 < length (view_data v)" "n \<le> length (drop 2 (view_data v))"
    by (auto simp: view_wf_def)
  then show ?case
    using Suc drop_take_Cons [OF i(1,3)]
    by (subst ReadFrame_loop.simps)
      (simp add: has_bytes_def overwrite_Cons)
qed

lemma ProtocolRtu_Frame_spec:
  assumes crc: "crc_ok crcf g" and f: "has_bytes (data_length f) f" and v: "view_wf v"
    and size: "view_size v = data_length f + 4"
  shows "ProtocolRtu_Frame P crcf f v = Inr (0, v\<lparr>view_data :=
    overwrite 0 (wire_bytes f @ reg_bytes P [g (wire_bytes f)]) (view_data v)\<rparr>)"
proof -
  let ?n = "data_length f" and ?d = "view_data v"
  have len: "?n + 4 \<le> length ?d" using v size by (simp add: view_wf_def)
  have ne: "?d \<noteq> []" using len by auto
  have wl: "length (wire_bytes f) = ?n + 2" using f by simp
  let ?w = "overwrite 0 (wire_bytes f) ?d"
  have "overwrite (Suc (Suc 0)) (take ?n (view_data (data_array f)))
      (?d[0 := frame_address f, Suc 0 := Function_code (frame_function f)]) = ?w"
    using len by (simp add: wire_bytes_def overwrite_Cons2)
  then have copy: "Frame_copy_loop f 0 (v\<lparr>view_data :=
      ?d[0 := frame_address f, Suc 0 := Function_code (frame_function f)]\<rparr>) = Inr (v\<lparr>view_data := ?w\<rparr>)"
    using f v size by (subst Frame_copy_loop_spec) (auto simp: view_wf_def)
  have "take (?n + 2) ?w = wire_bytes f"
    using wl by (simp add: overwrite_0)
  then have crcv: "crcf (v\<lparr>view_data := ?w\<rparr>) (?n + 2) = Inr (g (wire_bytes f))"
    using crc_okD [OF crc, of "?n + 2" "v\<lparr>view_data := ?w\<rparr>"] size len wl by simp
  have "overwrite 0 (wire_bytes f @ [x, y]) ?d = ?w[?n + 2 := x, Suc (?n + 2) := y]" for x y
    using len wl by (simp add: overwrite_append overwrite_Cons)
  then show ?thesis
    using copy crcv size len wl ne
    by (simp add: ProtocolRtu_Frame_def GetRequiredPacketSize_def)
qed

lemma ProtocolRtu_ReadFrame_spec:
  assumes v: "view_wf v" "view_size v = n + 4" "n < 2 ^ 32" and f: "has_bytes n f"
  shows "ProtocolRtu_ReadFrame P v f = Inr (0, f\<lparr>data_length := n,
    frame_address := view_data v ! 0, frame_function := Function_of_code (view_data v ! 1),
    data_array := (data_array f)\<lparr>view_data :=
      overwrite 0 (take n (drop 2 (view_data v))) (view_data (data_array f))\<rparr>\<rparr>)"
proof -
  have "word_of_nat (n + 4) - word_of_nat 2 - word_of_nat 2 = (word_of_nat n :: size_t)"
    by simp
  then have n: "unat (word_of_nat (n + 4) - word_of_nat 2 - word_of_nat 2 :: size_t) = n"
    using v(3) by (simp add: unat_of_nat)
  have "n + 4 \<le> length (view_data v)"
    using v by (simp add: view_wf_def)
  then have "view_get v 0 = Inr (view_data v ! 0)" "view_get v 1 = Inr (view_data v ! 1)"
    using v(2) by (auto simp: view_get_def)
  then show ?thesis
    using n v f ReadFrame_loop_spec [of 0 n "f\<lparr>data_length := n, frame_address := view_data v ! 0,
        frame_function := Function_of_code (view_data v ! 1)\<rparr>" v]
    by (simp add: ProtocolRtu_ReadFrame_def has_bytes_def Let_def)
qed

section \<open>Framing a reply\<close>

lemma overwrite_same_prefix:
  "length ys \<le> length xs \<Longrightarrow> overwrite 0 ys (overwrite 0 (ys @ zs) xs) = overwrite 0 (ys @ zs) xs"
  by (simp add: overwrite_0)

lemma FrameResponse_prefix:
  assumes "res_data r = overwrite 0 (frame_address f # Function_code (frame_function f) # body) d"
    and "2 + length body \<le> length d"
  shows "Response_set P 0 (frame_address f) r = Inr r"
    and "Response_set P 1 (Function_code (frame_function f)) r = Inr r"
    and "Response_at P r 0 = Inr (frame_address f)"
    and "Response_at P r 1 = Inr (Function_code (frame_function f))"
  using assms
  by (simp_all add: overwrite_0 Response_at_def Response_index_def Response_size_def)

lemma FrameResponse_spec:
  assumes crc: "crc_ok crcf g" and wf: "Response_wf r"
    and d: "res_data r = overwrite 0 bs d" "bs = frame_address f # Function_code (frame_function f) # body"
    and len: "res_length r = length bs" "length bs \<le> 254" "length d = 256"
  shows "FrameResponse P crcf f r = Inr (0, r\<lparr>res_data := overwrite 0 (bs @ reg_bytes P [g bs]) d,
           res_length := length bs + 2\<rparr>)"
proof -
  have pre: "2 + length body \<le> length d"
    using d(2) len by simp
  note same = FrameResponse_prefix [OF d(1) [unfolded d(2)] pre]
  have l256: "length (res_data r) = 256"
    using wf by (simp add: Response_wf_def kMaxFrameLength_def)
  have "crcf (Response_GetArrayView r) (length bs) = Inr (g bs)"
    using crc_okD [OF crc, of "length bs" "Response_GetArrayView r"] len l256
    by (simp add: Response_GetArrayView_def d(1) overwrite_0)
  moreover have "overwrite 0 (bs @ [x, y]) d = (res_data r)[length bs := x, Suc (length bs) := y]" for x y
    using len by (simp add: d(1) overwrite_append overwrite_Cons)
  ultimately show ?thesis
    using same len l256
    by (simp add: FrameResponse_def SetLength_def Let_def)
qed

section \<open>What the reader and the CRC check guarantee\<close>

text \<open>
  What follows the function code in a request, CRC included, as the protocol lays it out and not as
  the reader counts: an address and a count or a value; for a block write also a byte count and as
  many bytes.
\<close>

definition request_body :: "Function \<Rightarrow> u8 list \<Rightarrow> bool" where
  "request_body fn body \<longleftrightarrow>
     fn \<in> {kReadMultipleHoldingRegisters, kReadInputRegisters, kWriteSingleHoldingRegister} \<and> length body = 6 \<or>
     fn = kWriteMultipleHoldingRegisters \<and> 7 \<le> length body \<and> length body = 7 + unat (body ! 4)"

lemma request_body_length:
  assumes "request_body fn body"
  shows "fn \<in> set GetValidFunctions" and "length body = body_length fn body"
  using assms by (auto simp: request_body_def GetValidFunctions_def body_length_def meta_length_cases)

text \<open>
  C6: a request of one of the four register functions, laid out as the protocol says (six bytes after
  the function code, or seven and as many as the byte count for a block write), is complete exactly
  after its last byte: no shorter prefix is reported as a packet, and then the frame holds the
  address, the function and the body that were sent.
\<close>

theorem reader_completes_at_last_byte:
  assumes request: "request_body fn body" and f: "data_length f = 0" "view_wf (data_array f)"
    and fits: "length body \<le> view_size (data_array f)"
  shows "(\<forall>k < length body. \<exists>ctx f'.
      ProcessCharacters P ReadContext_init f (addr # Function_code fn # take k body) = Inr (ctx, f') \<and>
      \<not> PacketReceived ctx) \<and>
    (\<exists>ctx f'. ProcessCharacters P ReadContext_init f (addr # Function_code fn # body) = Inr (ctx, f') \<and>
      PacketReceived ctx \<and> wire_bytes f' = addr # Function_code fn # body)"
proof (intro conjI allI impI)
  note fn = request_body_length(1) [OF request] and body = request_body_length(2) [OF request] fits
  have m: "meta_length fn \<le> length body"
    using body(1) by (simp add: body_length_def)
  fix k assume k: "k < length body"
  have "ProcessCharacters P ReadContext_init f (addr # Function_code fn # take k body) =
      Inr (ctx_after fn body k, frame_after addr fn body k f)"
    using ProcessCharacters_prefix [OF fn f _ _ _ m, of k P addr] k body by simp
  moreover have "\<not> PacketReceived (ctx_after fn body k)"
    using k body(1) by (auto simp: PacketReceived_def ctx_after_def)
  ultimately show "\<exists>ctx f'. ProcessCharacters P ReadContext_init f (addr # Function_code fn # take k body) =
      Inr (ctx, f') \<and> \<not> PacketReceived ctx" by blast
next
  have "wire_bytes (frame_after addr fn body (length body) f) = addr # Function_code fn # body"
    by (simp add: wire_bytes_def frame_after_def overwrite_0)
  then show "\<exists>ctx f'. ProcessCharacters P ReadContext_init f (addr # Function_code fn # body) = Inr (ctx, f') \<and>
      PacketReceived ctx \<and> wire_bytes f' = addr # Function_code fn # body"
    using ProcessCharacters_request [OF request_body_length(1) [OF request] f request_body_length(2) [OF request] fits,
        of P addr]
    by (auto simp: PacketReceived_def)
qed

theorem reader_completes_at_last_byte_witness:
  "(\<exists>ctx f'. ProcessCharacters (msb_platform True) ReadContext_init (Frame_of_view (view_of (replicate 256 0)))
      (7 # 16 # [0, 1, 0, 1, 2, 0, 9, 5, 6]) = Inr (ctx, f') \<and>
      PacketReceived ctx \<and> wire_bytes f' = 7 # 16 # [0, 1, 0, 1, 2, 0, 9, 5, 6])"
  using reader_completes_at_last_byte [of kWriteMultipleHoldingRegisters "[0, 1, 0, 1, 2, 0, 9, 5, 6]"
      "Frame_of_view (view_of (replicate 256 0))" "msb_platform True" 7]
  by (simp add: request_body_def Frame_of_view_def del: rbind_eq_Inr ProcessCharacters.simps)

text \<open>
  The CRC check of a received frame of up to 254 data bytes compares the CRC of everything
  before the last two bytes with those two bytes, high byte first; with more data bytes it
  writes past its buffer.
\<close>

lemma crc_check_of_frame:
  assumes crc: "crc_ok crcf g" and f: "has_bytes (data_length f) f"
  shows "FrameCrcIsValid P crcf f =
    (if data_length f \<le> 254
     then Inr (Make_MSB P (wire_bytes f ! data_length f) (wire_bytes f ! Suc (data_length f)) =
               g (take (data_length f) (wire_bytes f)))
     else Inl OutOfBounds)"
proof (cases "data_length f \<le> 254")
  case True
  then show ?thesis using FrameCrcIsValid_spec [OF crc f True] by simp
next
  case False
  then have "has_bytes 255 f" using f by (simp add: has_bytes_def)
  then show ?thesis using FrameCrcIsValid_overrun False by simp
qed

end
