(* ===== verification/RtuSlave.thy ===== *)
theory RtuSlave
  imports RtuProtocol
begin

text \<open>
  \<open>include/Modbus/ModbusRtu/ModbusRtuSlave.h\<close>: \<open>SlaveProtocolBase\<close>, which owns the request
  being read and the reply, and \<open>ProtocolRtuSlave\<close>, which validates a request, runs it on the
  register controllers and answers it. The two controllers are template arguments: \<open>TH\<close> and
  \<open>TI\<close> are the operations of the stores behind them.
\<close>

section \<open>SlaveProtocolBase\<close>

text \<open>
  \<open>frame_data_\<close> is the 256 bytes that \<open>slave_framein\<close> is a view of; no other member reads it.
\<close>

record SlaveProtocolBase =
  slave_crc :: Crc16
  slave_response :: Response
  slave_response_valid :: bool
  slave_framein :: Frame
  slave_ctx :: ReadContext

definition SlaveProtocolBase_init :: "Crc16 \<Rightarrow> SlaveProtocolBase" where
  "SlaveProtocolBase_init crcf =
     \<lparr>slave_crc = crcf, slave_response = Response_init, slave_response_valid = False,
      slave_framein = Frame_of_view (view_of (replicate 256 0)), slave_ctx = ReadContext_init\<rparr>"

definition Base_ProcessCharacter ::
  "platform \<Rightarrow> SlaveProtocolBase \<Rightarrow> u8 \<Rightarrow> SlaveProtocolBase result" where
  "Base_ProcessCharacter P b pt =
     rbind (ProcessCharacter P (slave_ctx b) (slave_framein b) pt)
       (\<lambda>(ctx, f). Inr (b\<lparr>slave_ctx := ctx, slave_framein := f\<rparr>))"

definition SetResponse :: "Response \<Rightarrow> SlaveProtocolBase \<Rightarrow> SlaveProtocolBase" where
  "SetResponse response b =
     (let b = b\<lparr>slave_response := Response_Reset (slave_response b)\<rparr>
      in b\<lparr>slave_response := response\<rparr>)"

definition SetResponseValid :: "bool \<Rightarrow> SlaveProtocolBase \<Rightarrow> SlaveProtocolBase" where
  "SetResponseValid on b = b\<lparr>slave_response_valid := on\<rparr>"

definition SendErrorResponse ::
  "platform \<Rightarrow> SlaveProtocolBase \<Rightarrow> Frame \<Rightarrow> Exception \<Rightarrow> SlaveProtocolBase result" where
  "SendErrorResponse P b frame exception =
     (let error_frame = Frame_default\<lparr>frame_address := frame_address frame,
            frame_function := GetErrorFunction (frame_function frame)\<rparr> in
      rbind (Response_set P (Command_kHeaderEnd + 1) (Exception_code exception)
               (Response_Reset (slave_response b))) (\<lambda>response.
      let response = SetLength (Command_kHeaderEnd + 2) response in
      rbind (FrameResponse P (slave_crc b) error_frame response) (\<lambda>(_, response).
      Inr (SetResponseValid True (b\<lparr>slave_response := response\<rparr>)))))"

definition ResetResponse :: "SlaveProtocolBase \<Rightarrow> SlaveProtocolBase" where
  "ResetResponse b =
     (let b = SetResponseValid False b
      in b\<lparr>slave_response := Response_Reset (slave_response b)\<rparr>)"

definition ResetRead :: "SlaveProtocolBase \<Rightarrow> SlaveProtocolBase" where
  "ResetRead b =
     (let b = b\<lparr>slave_ctx := ReadContext_Reset (slave_ctx b)\<rparr>;
          b = ResetResponse b;
          b = b\<lparr>slave_response := Response_Reset (slave_response b)\<rparr>
      in b\<lparr>slave_framein := Frame_Reset (slave_framein b)\<rparr>)"

section \<open>ProtocolRtuSlave\<close>

record ('h, 'i) ProtocolRtuSlave =
  base :: SlaveProtocolBase
  slave_address :: u8
  holding_store :: 'h
  input_store :: 'i

definition ProtocolRtuSlave_init ::
  "Crc16 \<Rightarrow> u8 \<Rightarrow> 'h \<Rightarrow> 'i \<Rightarrow> ('h, 'i) ProtocolRtuSlave" where
  "ProtocolRtuSlave_init crcf addr h i =
     \<lparr>base = SlaveProtocolBase_init crcf, slave_address = addr, holding_store = h, input_store = i\<rparr>"

definition implimented_functions :: "Function list" where
  "implimented_functions =
     [kReadMultipleHoldingRegisters, kReadInputRegisters,
      kWriteSingleHoldingRegister, kWriteMultipleHoldingRegisters]"

definition RunCommand ::
  "platform \<Rightarrow> ('h, 'x) writable_store_scheme \<Rightarrow> ('i, 'y) readable_store_scheme \<Rightarrow>
   ('h, 'i) ProtocolRtuSlave \<Rightarrow> Frame \<Rightarrow> (int \<times> ('h, 'i) ProtocolRtuSlave) result" where
  "RunCommand P TH TI sl frame =
     (let response = Response_init in
      rbind (GetAddressSpaceFromFunction P (frame_function frame)) (\<lambda>space.
      rbind (case space of
               kCoil \<Rightarrow> Inr (-1, response, holding_store sl)
             | kDiscreteInput \<Rightarrow> Inr (-1, response, holding_store sl)
             | kInputRegister \<Rightarrow>
                 rbind (Input_ReadFrame P TI (input_store sl) frame response)
                   (\<lambda>(response_code, response). Inr (response_code, response, holding_store sl))
             | kHoldingRegister \<Rightarrow> Holding_ReadFrame P TH (holding_store sl) frame response
             | kDeviceIdentifier \<Rightarrow> Inr (-1, response, holding_store sl)
             | kUnmapped \<Rightarrow> Inr (-1, response, holding_store sl)
             | kSystemStatus \<Rightarrow> Inr (-1, response, holding_store sl))
        (\<lambda>(response_code, response, store).
      let sl = sl\<lparr>holding_store := store\<rparr> in
      rbind (if response_code = 0
             then rbind (FrameResponse P (slave_crc (base sl)) frame response) (\<lambda>(_, response).
                  Inr (response, SetResponseValid True (base sl)))
             else Inr (response, base sl)) (\<lambda>(response, b).
      Inr (response_code, sl\<lparr>base := SetResponse response b\<rparr>)))))"

definition Slave_Reset :: "('h, 'i) ProtocolRtuSlave \<Rightarrow> ('h, 'i) ProtocolRtuSlave" where
  "Slave_Reset sl = sl\<lparr>base := ResetRead (ResetResponse (base sl))\<rparr>"

definition ValidateMessage ::
  "platform \<Rightarrow> ('h, 'x) writable_store_scheme \<Rightarrow> ('i, 'y) readable_store_scheme \<Rightarrow>
   ('h, 'i) ProtocolRtuSlave \<Rightarrow> Frame \<Rightarrow> Exception result" where
  "ValidateMessage P TH TI sl frame =
     (if \<not> InList (frame_function frame) implimented_functions then Inr kIllegalFunction else
      rbind (GetAddressSpaceFromFunction P (frame_function frame)) (\<lambda>space.
      case space of
        kCoil \<Rightarrow> Inr kIllegalFunction
      | kDiscreteInput \<Rightarrow> Inr kIllegalFunction
      | kInputRegister \<Rightarrow> Input_ValidateFrame P TI (input_store sl) frame
      | kHoldingRegister \<Rightarrow> Holding_ValidateFrame P TH (holding_store sl) frame
      | kDeviceIdentifier \<Rightarrow> Inr kIllegalFunction
      | kSystemStatus \<Rightarrow> Inr kIllegalFunction
      | kUnmapped \<Rightarrow> Inr kIllegalFunction))"

definition SetAddress :: "u8 \<Rightarrow> ('h, 'i) ProtocolRtuSlave \<Rightarrow> ('h, 'i) ProtocolRtuSlave" where
  "SetAddress addr sl = sl\<lparr>slave_address := addr\<rparr>"

definition GetFrameIn :: "('h, 'i) ProtocolRtuSlave \<Rightarrow> Frame" where
  "GetFrameIn sl = slave_framein (base sl)"

definition ProcessMessage ::
  "platform \<Rightarrow> ('h, 'x) writable_store_scheme \<Rightarrow> ('i, 'y) readable_store_scheme \<Rightarrow> bool \<Rightarrow>
   ('h, 'i) ProtocolRtuSlave \<Rightarrow> ('h, 'i) ProtocolRtuSlave result" where
  "ProcessMessage P TH TI filter_address sl =
     (let frame = GetFrameIn sl in
      rbind (ValidateMessage P TH TI sl frame) (\<lambda>exception.
      if slave_address sl = frame_address frame \<or> \<not> filter_address
      then rbind (FrameCrcIsValid P (slave_crc (base sl)) frame) (\<lambda>valid.
           if valid
           then if exception = kAck
                then rbind (RunCommand P TH TI sl frame) (\<lambda>(_, sl). Inr sl)
                else rbind (SendErrorResponse P (base sl) frame exception)
                       (\<lambda>b. Inr (sl\<lparr>base := b\<rparr>))
           else Inr sl)
      else Inr sl))"

definition ProcessMessageNoAddress ::
  "platform \<Rightarrow> ('h, 'x) writable_store_scheme \<Rightarrow> ('i, 'y) readable_store_scheme \<Rightarrow>
   ('h, 'i) ProtocolRtuSlave \<Rightarrow> ('h, 'i) ProtocolRtuSlave result" where
  "ProcessMessageNoAddress P TH TI sl = ProcessMessage P TH TI False sl"

text \<open>The driver's calls: bytes go to the reader one at a time.\<close>

definition Slave_ProcessCharacter ::
  "platform \<Rightarrow> ('h, 'i) ProtocolRtuSlave \<Rightarrow> u8 \<Rightarrow> ('h, 'i) ProtocolRtuSlave result" where
  "Slave_ProcessCharacter P sl pt =
     rbind (Base_ProcessCharacter P (base sl) pt) (\<lambda>b. Inr (sl\<lparr>base := b\<rparr>))"

fun Slave_ProcessCharacters ::
  "platform \<Rightarrow> ('h, 'i) ProtocolRtuSlave \<Rightarrow> u8 list \<Rightarrow> ('h, 'i) ProtocolRtuSlave result" where
  "Slave_ProcessCharacters P sl [] = Inr sl"
| "Slave_ProcessCharacters P sl (pt # pts) =
     rbind (Slave_ProcessCharacter P sl pt) (\<lambda>sl. Slave_ProcessCharacters P sl pts)"

section \<open>Replies\<close>

text \<open>A reply buffer that holds the bytes \<open>bs\<close>, and bytes with their CRC appended.\<close>

definition reply :: "u8 list \<Rightarrow> Response" where
  "reply bs = \<lparr>res_length = length bs, res_data = overwrite 0 bs (replicate 256 0), res_ready = False\<rparr>"

definition with_crc :: "platform \<Rightarrow> (u8 list \<Rightarrow> u16) \<Rightarrow> u8 list \<Rightarrow> u8 list" where
  "with_crc P g bs = bs @ reg_bytes P [g bs]"

definition padded :: "nat \<Rightarrow> u8 list \<Rightarrow> u8 list" where
  "padded n bs = bs @ replicate (n - length bs) 0"

definition answered :: "('h, 'i) ProtocolRtuSlave \<Rightarrow> u8 list \<Rightarrow> ('h, 'i) ProtocolRtuSlave" where
  "answered sl bs = sl\<lparr>base := (base sl)\<lparr>slave_response := reply bs, slave_response_valid := True\<rparr>\<rparr>"

lemma length_padded [simp]: "length bs \<le> n \<Longrightarrow> length (padded n bs) = n"
  by (simp add: padded_def)

lemma length_with_crc [simp]: "length (with_crc P g bs) = length bs + 2"
  by (simp add: with_crc_def)

lemma reply_bytes [simp]: "length bs \<le> 256 \<Longrightarrow> Response_bytes (reply bs) = Inr bs"
  by (simp add: Response_bytes_def reply_def overwrite_0)

lemma answered_simps [simp]:
  "holding_store (answered sl bs) = holding_store sl" "input_store (answered sl bs) = input_store sl"
  "slave_address (answered sl bs) = slave_address sl"
  "slave_response (base (answered sl bs)) = reply bs"
  "slave_response_valid (base (answered sl bs))"
  "slave_crc (base (answered sl bs)) = slave_crc (base sl)"
  "slave_framein (base (answered sl bs)) = slave_framein (base sl)"
  "slave_ctx (base (answered sl bs)) = slave_ctx (base sl)"
  by (simp_all add: answered_def)

lemma overwrite_padded:
  "length bs \<le> n \<Longrightarrow> n \<le> m \<Longrightarrow>
   overwrite 0 (padded n bs) (replicate m 0) = overwrite 0 bs (replicate m 0)"
  by (simp add: overwrite_0 padded_def flip: replicate_add)

text \<open>The reply that \<open>FrameResponse\<close> makes of a buffer with everything but the CRC in it.\<close>

lemma FrameResponse_reply:
  assumes "crc_ok crcf g" and "length body \<le> 252"
  shows "FrameResponse P crcf f (reply (frame_address f # Function_code (frame_function f) # body)) =
    Inr (0, reply (with_crc P g (frame_address f # Function_code (frame_function f) # body)))"
proof -
  let ?bs = "frame_address f # Function_code (frame_function f) # body"
  have "FrameResponse P crcf f (reply ?bs) = Inr (0, (reply ?bs)\<lparr>
      res_data := overwrite 0 (?bs @ reg_bytes P [g ?bs]) (replicate 256 0), res_length := length ?bs + 2\<rparr>)"
    using assms by (intro FrameResponse_spec) (auto simp: reply_def Response_wf_def kMaxFrameLength_def)
  then show ?thesis by (simp add: reply_def with_crc_def)
qed

lemma SendErrorResponse_spec:
  assumes "crc_ok (slave_crc b) g" and "Response_wf (slave_response b)"
  shows "SendErrorResponse P b f e = Inr (b\<lparr>slave_response_valid := True, slave_response :=
    reply (with_crc P g [frame_address f, Function_code (GetErrorFunction (frame_function f)),
                         Exception_code e])\<rparr>)"
proof -
  let ?ef = "Frame_default\<lparr>frame_address := frame_address f,
    frame_function := GetErrorFunction (frame_function f)\<rparr>"
  let ?r = "\<lparr>res_length = Suc (Suc (Suc 0)),
    res_data = (replicate 256 0)[Suc (Suc 0) := Exception_code e], res_ready = False\<rparr>"
  have "FrameResponse P (slave_crc b) ?ef ?r =
      FrameResponse P (slave_crc b) ?ef (reply [frame_address f,
        Function_code (GetErrorFunction (frame_function f)), Exception_code e])"
    by (simp add: FrameResponse_def reply_def Response_at_def Response_index_def Response_size_def
        overwrite_0 eval_nat_numeral)
  then show ?thesis
    using assms FrameResponse_reply [OF assms(1), of "[Exception_code e]" P ?ef]
    by (simp add: SendErrorResponse_def Response_Reset_init Response_init_def kMaxFrameLength_def
        SetLength_def SetResponseValid_def)
qed

end
