(* ===== verification/SlaveSpec.thy ===== *)
theory SlaveSpec
  imports RtuSlave
begin

text \<open>
  What \<open>ProtocolRtuSlave\<close> promises: the abstract request handler \<open>serve\<close>, which knows only
  the contents of the two register banks, and the proof that \<open>ProcessMessage\<close> implements it for
  every pair of stores that meets the contracts of \<open>DataStores\<close>.
\<close>

section \<open>Requests as the reader delivers them\<close>

definition request_wf :: "Frame \<Rightarrow> bool" where
  "request_wf f \<longleftrightarrow> view_size (data_array f) = 256 \<and> length (view_data (data_array f)) = 256 \<and>
     data_length f \<le> 254 \<and> frame_function f \<in> set GetValidFunctions \<and>
     (frame_function f = kWriteMultipleHoldingRegisters \<longrightarrow> data_length f = 7 + req_byte_count f)"

text \<open>
  The reply to a read carries the data bytes in a count byte and in the 256 bytes of the reply
  buffer: that is what limits a request to 125 registers, and the code does not check it.
\<close>

definition read_fits :: "platform \<Rightarrow> Frame \<Rightarrow> bool" where
  "read_fits P f \<longleftrightarrow>
     (frame_function f \<in> {kReadMultipleHoldingRegisters, kReadInputRegisters} \<longrightarrow>
        unat (req_word P f) \<le> 125)"

definition nonempty_request :: "platform \<Rightarrow> Frame \<Rightarrow> bool" where
  "nonempty_request P f \<longleftrightarrow>
     (frame_function f \<in> {kReadMultipleHoldingRegisters, kReadInputRegisters,
        kWriteMultipleHoldingRegisters} \<longrightarrow> req_word P f \<noteq> 0)"

definition crc_matches :: "platform \<Rightarrow> (u8 list \<Rightarrow> u16) \<Rightarrow> Frame \<Rightarrow> bool" where
  "crc_matches P g f \<longleftrightarrow>
     Make_MSB P (wire_bytes f ! data_length f) (wire_bytes f ! Suc (data_length f)) =
     g (take (data_length f) (wire_bytes f))"

lemma request_wf_has_bytes [simp]: "request_wf f \<Longrightarrow> n \<le> 256 \<Longrightarrow> has_bytes n f"
  by (simp add: request_wf_def has_bytes_def)

lemma request_wf_crc:
  assumes "crc_ok crcf g" and "request_wf f"
  shows "FrameCrcIsValid P crcf f = Inr (crc_matches P g f)"
proof -
  have "data_length f \<le> 254" using assms(2) by (simp add: request_wf_def)
  then show ?thesis
    using assms by (simp add: FrameCrcIsValid_spec crc_matches_def)
qed

section \<open>The abstract request handler\<close>

definition verdict ::
  "platform \<Rightarrow> ('h, 'x) writable_store_scheme \<Rightarrow> ('i, 'y) readable_store_scheme \<Rightarrow>
   'h \<Rightarrow> 'i \<Rightarrow> Frame \<Rightarrow> Exception" where
  "verdict P TH TI h i f =
     (if frame_function f \<notin> set implimented_functions then kIllegalFunction
      else if frame_function f = kReadInputRegisters then
        (if op_ReadLocationValid TI i (ucast (req_address P f)) (ucast (req_word P f))
         then kAck else kIllegalDataAddress)
      else holding_verdict P TH h f)"

definition reply_body ::
  "platform \<Rightarrow> (platform \<Rightarrow> 'h \<Rightarrow> nat \<Rightarrow> nat \<Rightarrow> u8 list) \<Rightarrow> (platform \<Rightarrow> 'i \<Rightarrow> nat \<Rightarrow> nat \<Rightarrow> u8 list) \<Rightarrow>
   'h \<Rightarrow> 'i \<Rightarrow> Frame \<Rightarrow> u8 list" where
  "reply_body P hfetch ifetch h i f =
     (let a = unat (req_address P f); n = unat (req_word P f) in
      if frame_function f = kReadMultipleHoldingRegisters
      then word_of_nat (2 * n) # padded (2 * n) (hfetch P h a n)
      else if frame_function f = kReadInputRegisters
      then word_of_nat (2 * n) # padded (2 * n) (ifetch P i a n)
      else reg_bytes P [req_address P f, req_word P f])"

definition store_after ::
  "platform \<Rightarrow> (platform \<Rightarrow> 'h \<Rightarrow> nat \<Rightarrow> u8 list \<Rightarrow> 'h) \<Rightarrow> 'h \<Rightarrow> Frame \<Rightarrow> 'h" where
  "store_after P hupdate h f =
     (if frame_function f = kWriteSingleHoldingRegister
      then hupdate P h (unat (req_address P f)) (reg_bytes P [req_word P f])
      else if frame_function f = kWriteMultipleHoldingRegisters
      then hupdate P h (unat (req_address P f)) (req_values P f)
      else h)"

definition ack_reply :: "platform \<Rightarrow> (u8 list \<Rightarrow> u16) \<Rightarrow> Frame \<Rightarrow> u8 list \<Rightarrow> u8 list" where
  "ack_reply P g f body =
     with_crc P g (frame_address f # Function_code (frame_function f) # body)"

definition error_reply :: "platform \<Rightarrow> (u8 list \<Rightarrow> u16) \<Rightarrow> Frame \<Rightarrow> Exception \<Rightarrow> u8 list" where
  "error_reply P g f e =
     with_crc P g [frame_address f, Function_code (frame_function f) + 0x80, Exception_code e]"

definition serve ::
  "platform \<Rightarrow> (u8 list \<Rightarrow> u16) \<Rightarrow> ('h, 'x) writable_store_scheme \<Rightarrow> ('i, 'y) readable_store_scheme \<Rightarrow>
   (platform \<Rightarrow> 'h \<Rightarrow> nat \<Rightarrow> nat \<Rightarrow> u8 list) \<Rightarrow> (platform \<Rightarrow> 'i \<Rightarrow> nat \<Rightarrow> nat \<Rightarrow> u8 list) \<Rightarrow>
   (platform \<Rightarrow> 'h \<Rightarrow> nat \<Rightarrow> u8 list \<Rightarrow> 'h) \<Rightarrow> bool \<Rightarrow>
   ('h, 'i) ProtocolRtuSlave \<Rightarrow> ('h, 'i) ProtocolRtuSlave" where
  "serve P g TH TI hfetch ifetch hupdate filter_address sl =
     (let f = GetFrameIn sl; h = holding_store sl; i = input_store sl;
          e = verdict P TH TI h i f in
      if (filter_address \<longrightarrow> frame_address f = slave_address sl) \<and> crc_matches P g f
      then if e = kAck
           then answered (sl\<lparr>holding_store := store_after P hupdate h f\<rparr>)
                  (ack_reply P g f (reply_body P hfetch ifetch h i f))
           else answered sl (error_reply P g f e)
      else sl)"

definition slave_wf :: "('h \<Rightarrow> bool) \<Rightarrow> ('i \<Rightarrow> bool) \<Rightarrow> ('h, 'i) ProtocolRtuSlave \<Rightarrow> bool" where
  "slave_wf hinv iinv sl \<longleftrightarrow>
     Response_wf (slave_response (base sl)) \<and> hinv (holding_store sl) \<and> iinv (input_store sl)"

lemma reply_of_read:
  assumes "length fb \<le> 2 * n" and "n \<le> 125"
  shows "Response_init\<lparr>res_data := overwrite 0 ([a, c, k] @ fb) (res_data Response_init),
      res_length := 3 + 2 * n\<rparr> = reply (a # c # k # padded (2 * n) fb)"
proof -
  have "a # c # k # padded (2 * n) fb = padded (3 + 2 * n) ([a, c, k] @ fb)"
    by (simp add: padded_def)
  then have "reply (a # c # k # padded (2 * n) fb) = reply (padded (3 + 2 * n) ([a, c, k] @ fb))"
    by (rule arg_cong)
  moreover have "overwrite 0 (padded (3 + 2 * n) ([a, c, k] @ fb)) (replicate 256 0) =
      overwrite 0 ([a, c, k] @ fb) (replicate 256 0)"
    by (rule overwrite_padded) (use assms in auto)
  moreover have "length (padded (3 + 2 * n) ([a, c, k] @ fb)) = 3 + 2 * n"
    using assms by simp
  ultimately show ?thesis
    by (simp add: reply_def Response_init_def kMaxFrameLength_def)
qed

lemma reply_of_write:
  "Response_init\<lparr>res_data := overwrite 0 ([a, c] @ reg_bytes P [x, y]) (res_data Response_init),
     res_length := 6\<rparr> = reply (a # c # reg_bytes P [x, y])"
  by (simp add: reply_def Response_init_def kMaxFrameLength_def)

locale slave_stores =
  holding: writable_register_store TH hinv hfetch hupdate +
  input: readable_register_store TI iinv ifetch
  for TH :: "platform \<Rightarrow> ('h, 'x) writable_store_scheme" and hinv hfetch hupdate
    and TI :: "platform \<Rightarrow> ('i, 'y) readable_store_scheme" and iinv ifetch
begin

lemma ValidateMessage_spec:
  assumes "request_wf (f :: Frame)"
  shows "ValidateMessage P (TH P) (TI P) sl f =
    Inr (verdict P (TH P) (TI P) (holding_store sl) (input_store sl) f)"
  using assms
  by (auto simp: ValidateMessage_def verdict_def InList_iff implimented_functions_def
      GetAddressSpaceFromFunction_def Holding_ValidateFrame_spec Input_ValidateFrame_spec)

lemma length_reply_body:
  assumes "hinv h" and "iinv i" and "read_fits P f" and "nonempty_request P f"
    and "verdict P (TH P) (TI P) h i f = kAck"
  shows "length (reply_body P hfetch ifetch h i f) \<le> 251"
  using assms holding.length_fetch [of h P "req_address P f" "req_word P f"]
    input.length_fetch [of i P "req_address P f" "req_word P f"]
  by (auto simp: reply_body_def Let_def read_fits_def nonempty_request_def verdict_def
      holding_verdict_def split: if_splits)

lemma Holding_ReadFrame_reply:
  assumes P: "platform_ok P" and wf: "hinv h" and f: "request_wf f"
    and fits: "read_fits P f" "nonempty_request P f"
    and fn: "frame_function f \<in> {kReadMultipleHoldingRegisters, kWriteSingleHoldingRegister,
           kWriteMultipleHoldingRegisters}"
    and ack: "holding_verdict P (TH P) h f = kAck"
  shows "Holding_ReadFrame P (TH P) h f Response_init =
    Inr (0, reply (frame_address f # Function_code (frame_function f) #
        reply_body P hfetch ifetch h i f), store_after P hupdate h f)"
proof -
  note defs = Holding_ReadFrame_def reply_body_def store_after_def Let_def
  consider "frame_function f = kReadMultipleHoldingRegisters"
    | "frame_function f = kWriteSingleHoldingRegister"
    | "frame_function f = kWriteMultipleHoldingRegisters"
    using fn by auto
  then show ?thesis
  proof cases
    case 1
    have v: "op_ReadLocationValid (TH P) h (ucast (req_address P f)) (ucast (req_word P f))"
      using ack 1 by (simp add: holding_verdict_def split: if_splits)
    have n: "req_word P f \<noteq> 0" "unat (req_word P f) \<le> 125"
      using fits 1 by (simp_all add: read_fits_def nonempty_request_def)
    show ?thesis
      using holding.RunReadMultipleHoldingRegisters_spec [OF wf Response_init_wf _ n(1) _ v] n(2) f 1
        reply_of_read [OF holding.length_fetch [OF wf v n(1)] n(2)]
      by (simp add: defs)
  next
    case 2
    have v: "op_WriteLocationValid (TH P) h (ucast (req_address P f)) 1"
      using ack 2 by (simp add: holding_verdict_def split: if_splits)
    show ?thesis
      using holding.RunWriteSingleHoldingRegister_spec [OF P wf Response_init_wf _ v] f 2
        reply_of_write [of "frame_address f" 6 P "req_address P f" "req_word P f"]
      by (simp add: defs)
  next
    case 3
    have v: "op_WriteLocationValid (TH P) h (ucast (req_address P f)) (ucast (req_word P f))"
      and c: "2 * unat (req_word P f) = req_byte_count f"
      using ack 3 by (simp_all add: holding_verdict_def split: if_splits)
    have n: "req_word P f \<noteq> 0"
      using fits 3 by (simp add: nonempty_request_def)
    have hb: "has_bytes (5 + 2 * unat (req_word P f)) f"
      using f 3 c by (intro request_wf_has_bytes) (auto simp: request_wf_def)
    show ?thesis
      using holding.RunWriteMultipleHoldingRegisters_spec [OF wf Response_init_wf hb n v] 3
        reply_of_write [of "frame_address f" 16 P "req_address P f" "req_word P f"]
      by (simp add: defs)
  qed
qed

lemma Input_ReadFrame_reply:
  assumes wf: "iinv i" and f: "request_wf f"
    and fits: "read_fits P f" "nonempty_request P f"
    and fn: "frame_function f = kReadInputRegisters"
    and v: "op_ReadLocationValid (TI P) i (ucast (req_address P f)) (ucast (req_word P f))"
  shows "Input_ReadFrame P (TI P) i f Response_init =
    Inr (0, reply (frame_address f # Function_code (frame_function f) #
        reply_body P hfetch ifetch h i f))"
proof -
  have n: "req_word P f \<noteq> 0" "unat (req_word P f) \<le> 125"
    using fits fn by (simp_all add: read_fits_def nonempty_request_def)
  show ?thesis
    using input.RunReadInputRegisters_spec [OF wf Response_init_wf _ n(1) _ v] n(2) f fn
      reply_of_read [OF input.length_fetch [OF wf v n(1)] n(2)]
    by (simp add: Input_ReadFrame_def reply_body_def Let_def)
qed

lemma RunCommand_spec:
  assumes P: "platform_ok P" and crc: "crc_ok (slave_crc (base sl)) g"
    and wf: "hinv (holding_store sl)" "iinv (input_store sl)" and f: "request_wf f"
    and fits: "read_fits P f" "nonempty_request P f"
    and ack: "verdict P (TH P) (TI P) (holding_store sl) (input_store sl) f = kAck"
  shows "RunCommand P (TH P) (TI P) sl f =
    Inr (0, answered (sl\<lparr>holding_store := store_after P hupdate (holding_store sl) f\<rparr>)
      (ack_reply P g f (reply_body P hfetch ifetch (holding_store sl) (input_store sl) f)))"
proof -
  let ?body = "reply_body P hfetch ifetch (holding_store sl) (input_store sl) f"
  have fr: "FrameResponse P (slave_crc (base sl)) f
      (reply (frame_address f # Function_code (frame_function f) # ?body)) =
    Inr (0, reply (ack_reply P g f ?body))"
    using FrameResponse_reply [OF crc] length_reply_body [OF wf fits ack]
    by (simp add: ack_reply_def)
  have fn: "frame_function f \<in> set implimented_functions"
    using ack by (simp add: verdict_def split: if_splits)
  show ?thesis
  proof (cases "frame_function f = kReadInputRegisters")
    case True
    then have v: "op_ReadLocationValid (TI P) (input_store sl)
        (ucast (req_address P f)) (ucast (req_word P f))"
      using ack by (simp add: verdict_def implimented_functions_def split: if_splits)
    show ?thesis
      using fr True Input_ReadFrame_reply [OF wf(2) f fits True v, of "holding_store sl"]
      by (simp add: RunCommand_def GetAddressSpaceFromFunction_def store_after_def answered_def
          SetResponse_def SetResponseValid_def)
  next
    case False
    then have h: "frame_function f \<in> {kReadMultipleHoldingRegisters, kWriteSingleHoldingRegister,
           kWriteMultipleHoldingRegisters}"
      using fn by (auto simp: implimented_functions_def)
    then have "GetAddressSpaceFromFunction P (frame_function f) = Inr kHoldingRegister"
      by (auto simp: GetAddressSpaceFromFunction_def)
    moreover have "holding_verdict P (TH P) (holding_store sl) f = kAck"
      using ack False fn by (simp add: verdict_def)
    ultimately show ?thesis
      using fr Holding_ReadFrame_reply [OF P wf(1) f fits h, of "input_store sl"]
      by (simp add: RunCommand_def answered_def SetResponse_def SetResponseValid_def)
  qed
qed

lemma store_after_inv:
  assumes wf: "hinv h" and f: "request_wf f" and ne: "nonempty_request P f"
    and ack: "verdict P (TH P) (TI P) h i f = kAck"
  shows "hinv (store_after P hupdate h f)"
proof -
  have "hinv (hupdate P h (unat (req_address P f)) (reg_bytes P [req_word P f]))"
    if "frame_function f = kWriteSingleHoldingRegister"
    using that ack holding.inv_update [of h P "req_address P f" 1 "reg_bytes P [req_word P f]"] wf
    by (simp add: verdict_def holding_verdict_def implimented_functions_def split: if_splits)
  moreover have "hinv (hupdate P h (unat (req_address P f)) (req_values P f))"
    if fn: "frame_function f = kWriteMultipleHoldingRegisters"
  proof (rule holding.inv_update [OF wf])
    show "op_WriteLocationValid (TH P) h (ucast (req_address P f)) (ucast (req_word P f))"
      and "req_word P f \<noteq> 0"
      using fn ack ne by (simp_all add: verdict_def holding_verdict_def nonempty_request_def
          implimented_functions_def split: if_splits)
    have "2 * unat (req_word P f) = req_byte_count f"
      using fn ack by (simp add: verdict_def holding_verdict_def implimented_functions_def
          split: if_splits)
    then show "length (req_values P f) = 2 * unat (req_word P f)"
      using f fn by (simp add: request_wf_def req_values_def)
  qed
  ultimately show ?thesis
    using wf by (simp add: store_after_def)
qed

text \<open>
  One message: what \<open>ProcessMessage\<close> answers and what it leaves behind, on every branch.
\<close>

lemma ProcessMessage_spec:
  assumes P: "platform_ok P" and crc: "crc_ok (slave_crc (base sl)) g"
    and wf: "slave_wf hinv iinv sl" and f: "request_wf (GetFrameIn sl)"
    and fits: "read_fits P (GetFrameIn sl)" "nonempty_request P (GetFrameIn sl)"
  shows "ProcessMessage P (TH P) (TI P) filter_address sl =
    Inr (serve P g (TH P) (TI P) hfetch ifetch hupdate filter_address sl)"
proof -
  let ?f = "GetFrameIn sl"
  have "frame_function ?f \<in> set GetValidFunctions"
    using f by (simp add: request_wf_def)
  then have "Function_code (GetErrorFunction (frame_function ?f)) = Function_code (frame_function ?f) + 0x80"
    by (simp add: GetErrorFunction_code kStatusResponseAddValue_def)
  then have err: "SendErrorResponse P (base sl) ?f e = Inr ((base sl)\<lparr>slave_response_valid := True,
      slave_response := reply (error_reply P g ?f e)\<rparr>)" for e
    using SendErrorResponse_spec [OF crc] wf by (simp add: slave_wf_def error_reply_def)
  show ?thesis
    using RunCommand_spec [OF P crc _ _ f fits] ValidateMessage_spec [OF f] request_wf_crc [OF crc f]
      err wf
    by (simp add: ProcessMessage_def serve_def Let_def slave_wf_def answered_def)
qed

end

end
