(* ===== verification/Exchange.thy ===== *)
theory Exchange
  imports SlaveSpec
begin

text \<open>
  From bytes to bytes: a request fed to \<open>SlaveProtocolBase::ProcessCharacter\<close> one byte at a time
  and then handed to \<open>ProtocolRtuSlave::ProcessMessage\<close>, on the slave that the tests and the
  examples build (an \<open>UpdatingRegisterDataStore\<close> behind the holding registers, a
  \<open>RegisterDataStore\<close> behind the input registers).
\<close>

section \<open>A request on the wire\<close>

definition request_adu :: "platform \<Rightarrow> (u8 list \<Rightarrow> u16) \<Rightarrow> u8 \<Rightarrow> Function \<Rightarrow> u8 list \<Rightarrow> u8 list" where
  "request_adu P g addr fn data = with_crc P g (addr # Function_code fn # data)"

definition listening :: "('h, 'i) ProtocolRtuSlave \<Rightarrow> bool" where
  "listening sl \<longleftrightarrow> slave_ctx (base sl) = ReadContext_init \<and> data_length (GetFrameIn sl) = 0 \<and>
     view_size (data_array (GetFrameIn sl)) = 256 \<and>
     length (view_data (data_array (GetFrameIn sl))) = 256"

definition delivered ::
  "u8 \<Rightarrow> Function \<Rightarrow> u8 list \<Rightarrow> ('h, 'i) ProtocolRtuSlave \<Rightarrow> ('h, 'i) ProtocolRtuSlave" where
  "delivered addr fn body sl = sl\<lparr>base := (base sl)
     \<lparr>slave_ctx := \<lparr>ctx_state = kDone, bytes_to_read = 0\<rparr>,
      slave_framein := frame_after addr fn body (length body) (slave_framein (base sl))\<rparr>\<rparr>"

lemma Slave_ProcessCharacters_eq:
  "Slave_ProcessCharacters P sl bs =
   rbind (ProcessCharacters P (slave_ctx (base sl)) (slave_framein (base sl)) bs)
     (\<lambda>(ctx, f). Inr (sl\<lparr>base := (base sl)\<lparr>slave_ctx := ctx, slave_framein := f\<rparr>\<rparr>))"
proof (induction bs arbitrary: sl)
  case (Cons b bs)
  then show ?case
    by (cases "ProcessCharacter P (slave_ctx (base sl)) (slave_framein (base sl)) b")
      (auto simp: Slave_ProcessCharacter_def Base_ProcessCharacter_def split: prod.splits)
qed simp

lemma Slave_Reset_listening:
  assumes "view_size (data_array (GetFrameIn sl)) = 256"
    and "length (view_data (data_array (GetFrameIn sl))) = 256"
  shows "listening (Slave_Reset sl)"
  using assms
  by (simp add: listening_def Slave_Reset_def ResetRead_def ResetResponse_def SetResponseValid_def
      GetFrameIn_def Frame_Reset_def ReadContext_Reset_def ReadContext_init_def Let_def)

lemma ProtocolRtuSlave_init_listening: "listening (ProtocolRtuSlave_init crcf addr h i)"
  by (simp add: listening_def ProtocolRtuSlave_init_def SlaveProtocolBase_init_def GetFrameIn_def
      Frame_of_view_def view_of_def)

lemma ProcessCharacters_adu:
  assumes "listening sl" and "fn \<in> set GetValidFunctions"
    and "length body = body_length fn body" and "length body \<le> 256"
  shows "Slave_ProcessCharacters P sl (addr # Function_code fn # body) = Inr (delivered addr fn body sl)"
proof -
  have "ProcessCharacters P (slave_ctx (base sl)) (slave_framein (base sl)) (addr # Function_code fn # body) =
      Inr (\<lparr>ctx_state = kDone, bytes_to_read = 0\<rparr>,
        frame_after addr fn body (length body) (slave_framein (base sl)))"
    using assms ProcessCharacters_request [of fn "slave_framein (base sl)" body P addr]
    by (simp only: listening_def GetFrameIn_def view_wf_def)
  then show ?thesis
    by (simp only: Slave_ProcessCharacters_eq delivered_def rbind_simps prod.case)
qed

lemma delivered_simps [simp]:
  "frame_address (GetFrameIn (delivered addr fn body sl)) = addr"
  "frame_function (GetFrameIn (delivered addr fn body sl)) = fn"
  "data_length (GetFrameIn (delivered addr fn body sl)) = length body"
  "holding_store (delivered addr fn body sl) = holding_store sl"
  "input_store (delivered addr fn body sl) = input_store sl"
  "slave_address (delivered addr fn body sl) = slave_address sl"
  "slave_response (base (delivered addr fn body sl)) = slave_response (base sl)"
  "slave_crc (base (delivered addr fn body sl)) = slave_crc (base sl)"
  by (simp_all add: delivered_def GetFrameIn_def frame_after_def)

lemma delivered_bytes:
  assumes "listening sl" and "length body \<le> 256"
  shows "view_size (data_array (GetFrameIn (delivered addr fn body sl))) = 256"
    and "length (view_data (data_array (GetFrameIn (delivered addr fn body sl)))) = 256"
    and "take (length body) (view_data (data_array (GetFrameIn (delivered addr fn body sl)))) = body"
    and "k < length body \<Longrightarrow> view_data (data_array (GetFrameIn (delivered addr fn body sl))) ! k = body ! k"
  using assms
  by (auto simp add: listening_def delivered_def GetFrameIn_def frame_after_def overwrite_0 nth_append)

lemma delivered_fields:
  assumes "listening sl" and "length body \<le> 256" and "4 \<le> length body"
  shows "req_address P (GetFrameIn (delivered addr fn body sl)) = Make_MSB P (body ! 0) (body ! 1)"
    and "req_word P (GetFrameIn (delivered addr fn body sl)) = Make_MSB P (body ! 2) (body ! 3)"
    and "5 \<le> length body \<Longrightarrow>
         req_byte_count (GetFrameIn (delivered addr fn body sl)) = unat (body ! 4)"
proof -
  have "k < length body \<Longrightarrow>
      view_data (data_array (GetFrameIn (delivered addr fn body sl))) ! k = body ! k" for k
    using delivered_bytes(4) assms(1,2) .
  moreover have "body \<noteq> []" using assms(3) by auto
  ultimately show
    "req_address P (GetFrameIn (delivered addr fn body sl)) = Make_MSB P (body ! 0) (body ! 1)"
    "req_word P (GetFrameIn (delivered addr fn body sl)) = Make_MSB P (body ! 2) (body ! 3)"
    "5 \<le> length body \<Longrightarrow>
     req_byte_count (GetFrameIn (delivered addr fn body sl)) = unat (body ! 4)"
    using assms(3) by (simp_all add: req_address_def req_word_def req_byte_count_def)
qed

lemma delivered_values:
  assumes "listening sl" and "length body \<le> 256" and "5 + 2 * unat (req_word P (GetFrameIn (delivered addr fn body sl))) \<le> length body"
  shows "req_values P (GetFrameIn (delivered addr fn body sl)) =
    take (2 * unat (req_word P (GetFrameIn (delivered addr fn body sl)))) (drop 5 body)"
proof -
  let ?d = "view_data (data_array (GetFrameIn (delivered addr fn body sl)))"
  let ?n = "2 * unat (req_word P (GetFrameIn (delivered addr fn body sl)))"
  have "take ?n (drop 5 ?d) = take ?n (drop 5 (take (length body) ?d))"
    using assms(3) by (simp add: take_drop)
  then show ?thesis
    using delivered_bytes(3) [OF assms(1,2)] by (simp add: req_values_def)
qed

lemma delivered_crc:
  assumes "platform_ok P" and "listening sl" and "length data \<le> 254"
    and "body = data @ reg_bytes P [g (addr # Function_code fn # data)]"
  shows "crc_matches P g (GetFrameIn (delivered addr fn body sl))"
proof -
  have "wire_bytes (GetFrameIn (delivered addr fn body sl)) = addr # Function_code fn # body"
    using delivered_bytes(3) [of sl body addr fn] assms by (simp add: wire_bytes_def)
  then show ?thesis
    using assms by (simp add: crc_matches_def nth_append)
qed

lemma delivered_wf:
  assumes "listening sl" and "fn \<in> set GetValidFunctions"
    and "length body = body_length fn body" and "length body \<le> 254"
  shows "request_wf (GetFrameIn (delivered addr fn body sl))"
proof -
  have "length body \<le> 256" using assms(4) by simp
  note bytes = delivered_bytes(1,2,4) [OF assms(1) this]
  show ?thesis
    using assms bytes
    by (auto simp: request_wf_def body_length_def meta_length_cases req_byte_count_def)
qed

section \<open>A request and its answer\<close>

definition exchange ::
  "platform \<Rightarrow> ('h, 'x) writable_store_scheme \<Rightarrow> ('i, 'y) readable_store_scheme \<Rightarrow>
   ('h, 'i) ProtocolRtuSlave \<Rightarrow> u8 list \<Rightarrow> ('h, 'i) ProtocolRtuSlave result" where
  "exchange P TH TI sl bs =
     rbind (Slave_ProcessCharacters P sl bs) (ProcessMessage P TH TI True)"

text \<open>What the transmitter would send, if anything, and the two banks of registers.\<close>

definition outcome ::
  "('h, 'i) ProtocolRtuSlave result \<Rightarrow> (u8 list option \<times> 'h \<times> 'i) result" where
  "outcome r = rbind r (\<lambda>sl.
     if slave_response_valid (base sl)
     then rbind (Response_bytes (slave_response (base sl))) (\<lambda>bs.
          Inr (Some bs, holding_store sl, input_store sl))
     else Inr (None, holding_store sl, input_store sl))"

abbreviation reply_bytes :: "u8 list option \<Rightarrow> u8 list" where
  "reply_bytes r \<equiv> case r of None \<Rightarrow> [] | Some bs \<Rightarrow> bs"

lemma outcome_answered:
  "length bs \<le> 256 \<Longrightarrow>
   outcome (Inr (answered sl bs)) = Inr (Some bs, holding_store sl, input_store sl)"
  by (simp add: outcome_def)

text \<open>A slave between two messages, over stores that keep \<open>hinv\<close> and \<open>iinv\<close>.\<close>

definition ready ::
  "('h \<Rightarrow> bool) \<Rightarrow> ('i \<Rightarrow> bool) \<Rightarrow> (u8 list \<Rightarrow> u16) \<Rightarrow> ('h, 'i) ProtocolRtuSlave \<Rightarrow> bool" where
  "ready hinv iinv g sl \<longleftrightarrow> crc_ok (slave_crc (base sl)) g \<and> slave_wf hinv iinv sl \<and>
     listening sl \<and> \<not> slave_response_valid (base sl)"

lemma readyD:
  assumes "ready hinv iinv g sl"
  shows "crc_ok (slave_crc (base sl)) g" and "slave_wf hinv iinv sl" and "listening sl"
    and "\<not> slave_response_valid (base sl)"
  using assms by (simp_all add: ready_def)

lemma Slave_Reset_ready:
  assumes "slave_wf hinv iinv sl" and "crc_ok (slave_crc (base sl)) g"
    and "view_size (data_array (GetFrameIn sl)) = 256"
    and "length (view_data (data_array (GetFrameIn sl))) = 256"
  shows "ready hinv iinv g (Slave_Reset sl)"
  using Slave_Reset_listening [OF assms(3,4)] assms(1,2)
  by (simp add: ready_def slave_wf_def Slave_Reset_def ResetRead_def ResetResponse_def
      SetResponseValid_def Let_def)

lemma ProtocolRtuSlave_init_ready:
  "hinv h \<Longrightarrow> iinv i \<Longrightarrow> crc_ok crcf g \<Longrightarrow> ready hinv iinv g (ProtocolRtuSlave_init crcf addr h i)"
  using ProtocolRtuSlave_init_listening [of crcf addr h i]
  by (simp add: ready_def slave_wf_def ProtocolRtuSlave_init_def SlaveProtocolBase_init_def)

definition good_request :: "Function \<Rightarrow> u8 list \<Rightarrow> bool" where
  "good_request fn data \<longleftrightarrow> fn \<in> set GetValidFunctions \<and> length data \<le> 252 \<and>
     length data = (if fn \<in> {kReadMultipleHoldingRegisters, kReadInputRegisters,
                             kWriteSingleHoldingRegister} then 4
                    else if fn = kWriteMultipleHoldingRegisters then 5 + unat (data ! 4) else 1)"

lemma good_request_body:
  "good_request fn data \<Longrightarrow> length (data @ reg_bytes P [w]) = body_length fn (data @ reg_bytes P [w])"
  "good_request fn data \<Longrightarrow> length (data @ reg_bytes P [w]) \<le> 254"
  by (auto simp: good_request_def body_length_def meta_length_cases nth_append split: if_splits)

lemma request_adu_body:
  "request_adu P g addr fn data =
   addr # Function_code fn # (data @ reg_bytes P [g (addr # Function_code fn # data)])"
  by (simp add: request_adu_def with_crc_def)

lemma feed_request_adu:
  assumes l: "listening sl" and good: "good_request fn data"
  shows "Slave_ProcessCharacters P sl (request_adu P g addr fn data) =
    Inr (delivered addr fn (data @ reg_bytes P [g (addr # Function_code fn # data)]) sl)"
proof -
  note body = good_request_body [OF good, where P = P and w = "g (addr # Function_code fn # data)"]
  have "fn \<in> set GetValidFunctions"
    using good by (simp add: good_request_def)
  from ProcessCharacters_adu [OF l this body(1), of P addr] body(2) show ?thesis
    by (simp only: request_adu_body)
qed

context slave_stores
begin

lemma exchange_spec:
  assumes P: "platform_ok P" and crc: "crc_ok (slave_crc (base sl)) g"
    and wf: "slave_wf hinv iinv sl" and l: "listening sl" and good: "good_request fn data"
    and d: "d = delivered addr fn (data @ reg_bytes P [g (addr # Function_code fn # data)]) sl"
    and fits: "read_fits P (GetFrameIn d)" "nonempty_request P (GetFrameIn d)"
  shows "exchange P (TH P) (TI P) sl (request_adu P g addr fn data) =
    Inr (let e = verdict P (TH P) (TI P) (holding_store sl) (input_store sl) (GetFrameIn d) in
         if addr = slave_address sl
         then if e = kAck
              then answered (d\<lparr>holding_store := store_after P hupdate (holding_store sl) (GetFrameIn d)\<rparr>)
                (ack_reply P g (GetFrameIn d)
                  (reply_body P hfetch ifetch (holding_store sl) (input_store sl) (GetFrameIn d)))
              else answered d (error_reply P g (GetFrameIn d) e)
         else d)"
proof -
  let ?body = "data @ reg_bytes P [g (addr # Function_code fn # data)]"
  note body = good_request_body [OF good, where P = P and w = "g (addr # Function_code fn # data)"]
  have fn: "fn \<in> set GetValidFunctions" and len: "length data \<le> 254"
    using good by (simp_all add: good_request_def)
  have f: "request_wf (GetFrameIn d)"
    using delivered_wf [OF l fn body] by (simp only: d)
  have c: "crc_matches P g (GetFrameIn d)"
    unfolding d by (rule delivered_crc [OF P l len refl])
  have feed: "Slave_ProcessCharacters P sl (request_adu P g addr fn data) = Inr d"
    unfolding d by (rule feed_request_adu [OF l good])
  have "slave_wf hinv iinv d" "crc_ok (slave_crc (base d)) g"
    using wf crc by (simp_all add: d slave_wf_def)
  from ProcessMessage_spec [OF P this(2,1) f fits, of True] show ?thesis
    using c feed by (simp add: exchange_def serve_def Let_def d)
qed

text \<open>The same in terms of what is sent and of the contents of the two stores.\<close>

lemma exchange_outcome:
  assumes P: "platform_ok P" and crc: "crc_ok (slave_crc (base sl)) g"
    and wf: "slave_wf hinv iinv sl" and l: "listening sl" and idle: "\<not> slave_response_valid (base sl)"
    and good: "good_request fn data"
    and d: "d = delivered addr fn (data @ reg_bytes P [g (addr # Function_code fn # data)]) sl"
    and f: "f = GetFrameIn d"
    and fits: "read_fits P f" "nonempty_request P f"
    and e: "e = verdict P (TH P) (TI P) (holding_store sl) (input_store sl) f"
  shows "outcome (exchange P (TH P) (TI P) sl (request_adu P g addr fn data)) =
    Inr (if addr \<noteq> slave_address sl then (None, holding_store sl, input_store sl)
         else if e = kAck
         then (Some (ack_reply P g f (reply_body P hfetch ifetch (holding_store sl) (input_store sl) f)),
               store_after P hupdate (holding_store sl) f, input_store sl)
         else (Some (error_reply P g f e), holding_store sl, input_store sl))"
proof -
  have inv: "hinv (holding_store sl)" "iinv (input_store sl)"
    using wf by (simp_all add: slave_wf_def)
  have len: "e = kAck \<Longrightarrow> length (reply_body P hfetch ifetch (holding_store sl) (input_store sl) f) \<le> 251"
    using length_reply_body [OF inv fits] e by simp
  have "exchange P (TH P) (TI P) sl (request_adu P g addr fn data) =
    Inr (if addr = slave_address sl
         then if e = kAck
              then answered (d\<lparr>holding_store := store_after P hupdate (holding_store sl) f\<rparr>)
                (ack_reply P g f (reply_body P hfetch ifetch (holding_store sl) (input_store sl) f))
              else answered d (error_reply P g f e)
         else d)"
    using exchange_spec [OF P crc wf l good d] fits by (simp only: f e Let_def simp_thms)
  moreover have "outcome (Inr d) = Inr (None, holding_store sl, input_store sl)"
    using idle by (simp add: outcome_def d) (simp add: delivered_def)
  moreover have "holding_store d = holding_store sl" "input_store d = input_store sl"
    by (simp_all add: d)
  ultimately show ?thesis
    using len by (auto simp: outcome_answered ack_reply_def error_reply_def)
qed

text \<open>A well-formed request leaves the slave, once it is reset, ready for the next one.\<close>

lemma exchange_step:
  assumes P: "platform_ok P" and wf: "ready hinv iinv g sl" and good: "good_request fn data"
    and d: "d = delivered addr fn (data @ reg_bytes P [g (addr # Function_code fn # data)]) sl"
    and fits: "read_fits P (GetFrameIn d)" "nonempty_request P (GetFrameIn d)"
  shows "\<exists>sl'. exchange P (TH P) (TI P) sl (request_adu P g addr fn data) = Inr sl' \<and>
    (ready hinv iinv g (Slave_Reset sl') \<and> slave_address sl' = slave_address sl) \<and>
    (\<exists>r. outcome (Inr sl') = Inr (r, holding_store sl', input_store sl') \<and> length (reply_bytes r) \<le> 256)"
proof -
  note w = readyD [OF wf]
  have stores: "hinv (holding_store sl)" "iinv (input_store sl)" "Response_wf (slave_response (base sl))"
    using w(2) by (simp_all add: slave_wf_def)
  let ?e = "verdict P (TH P) (TI P) (holding_store sl) (input_store sl) (GetFrameIn d)"
  let ?h = "store_after P hupdate (holding_store sl) (GetFrameIn d)"
  let ?body = "reply_body P hfetch ifetch (holding_store sl) (input_store sl) (GetFrameIn d)"
  have fn: "fn \<in> set GetValidFunctions" using good by (simp add: good_request_def)
  note body = good_request_body [OF good, where P = P and w = "g (addr # Function_code fn # data)"]
  have f: "request_wf (GetFrameIn d)" unfolding d by (rule delivered_wf [OF w(3) fn body])
  have ack: "hinv ?h" "length (ack_reply P g (GetFrameIn d) ?body) \<le> 256" if "?e = kAck"
    using store_after_inv [OF stores(1) f fits(2) that] length_reply_body [OF stores(1,2) fits that]
    by (simp_all add: ack_reply_def)
  have error: "length (error_reply P g (GetFrameIn d) e) \<le> 256" for e by (simp add: error_reply_def)
  have same: "d\<lparr>holding_store := holding_store sl\<rparr> = d" by (simp add: d delivered_def)
  obtain bs h where "exchange P (TH P) (TI P) sl (request_adu P g addr fn data) \<in>
      {Inr d, Inr (answered (d\<lparr>holding_store := h\<rparr>) bs)}" and h: "hinv h" and bs: "length bs \<le> 256"
  proof (cases "addr = slave_address sl \<and> ?e = kAck")
    case True
    then show ?thesis
      using that [of ?h "ack_reply P g (GetFrameIn d) ?body"] ack exchange_spec [OF P w(1-3) good d fits] by simp
  next
    case False
    then show ?thesis
      using that [of "holding_store sl" "error_reply P g (GetFrameIn d) ?e"] stores(1) error
        exchange_spec [OF P w(1-3) good d fits] by (auto simp: same Let_def)
  qed
  then obtain sl' where sl': "exchange P (TH P) (TI P) sl (request_adu P g addr fn data) = Inr sl'"
    "sl' \<in> {d, answered (d\<lparr>holding_store := h\<rparr>) bs}" by auto
  have "view_size (data_array (GetFrameIn d)) = 256" "length (view_data (data_array (GetFrameIn d))) = 256"
    unfolding d using delivered_bytes(1,2) [OF w(3)] body(2) by auto
  moreover have "Response_wf (slave_response (base d))" "Response_wf (reply bs)"
    using stores(3) bs by (simp_all add: d Response_wf_def reply_def kMaxFrameLength_def)
  moreover have d': "crc_ok (slave_crc (base d)) g" "slave_address d = slave_address sl"
    "holding_store d = holding_store sl" "input_store d = input_store sl" "\<not> slave_response_valid (base d)"
    using w by (simp_all add: d delivered_def)
  ultimately have "ready hinv iinv g (Slave_Reset sl') \<and> slave_address sl' = slave_address sl"
    using stores sl'(2) h by (auto intro!: Slave_Reset_ready simp: GetFrameIn_def slave_wf_def)
  moreover have "outcome (Inr d) = Inr (None, holding_store d, input_store d)"
    using d'(5) by (simp add: outcome_def)
  then have "\<exists>r. outcome (Inr sl') = Inr (r, holding_store sl', input_store sl') \<and> length (reply_bytes r) \<le> 256"
    using sl'(2) bs outcome_answered [of bs "d\<lparr>holding_store := h\<rparr>"] by auto
  ultimately show ?thesis using sl'(1) by blast
qed

lemma exchange_bad_crc:
  assumes P: "platform_ok P" and crc: "crc_ok (slave_crc (base sl)) g"
    and l: "listening sl" and good: "good_request fn data"
    and w: "w \<noteq> g (addr # Function_code fn # data)"
  shows "exchange P (TH P) (TI P) sl (addr # Function_code fn # data @ reg_bytes P [w]) =
    Inr (delivered addr fn (data @ reg_bytes P [w]) sl)"
proof -
  let ?body = "data @ reg_bytes P [w]"
  note body = good_request_body [OF good, where P = P and w = w]
  have fn: "fn \<in> set GetValidFunctions"
    using good by (simp add: good_request_def)
  have f: "request_wf (GetFrameIn (delivered addr fn ?body sl))"
    by (rule delivered_wf [OF l fn body])
  have feed: "Slave_ProcessCharacters P sl (addr # Function_code fn # ?body) = Inr (delivered addr fn ?body sl)"
    using ProcessCharacters_adu [OF l fn body(1), of P addr] body(2) by simp
  have "wire_bytes (GetFrameIn (delivered addr fn ?body sl)) = addr # Function_code fn # ?body"
    using delivered_bytes(3) [OF l, of ?body addr fn] body(2) by (simp add: wire_bytes_def)
  then have "\<not> crc_matches P g (GetFrameIn (delivered addr fn ?body sl))"
    using P w by (simp add: crc_matches_def nth_append)
  then have "ProcessMessage P (TH P) (TI P) True (delivered addr fn ?body sl) = Inr (delivered addr fn ?body sl)"
    using ValidateMessage_spec [OF f] request_wf_crc [OF crc f]
    by (simp add: ProcessMessage_def Let_def)
  then show ?thesis
    by (simp only: exchange_def append_Cons append_assoc feed rbind_simps)
qed

end

end
