(* ===== verification/StoreRequests.thy ===== *)
theory StoreRequests
  imports Exchange
begin

text \<open>
  Requests to a slave over any two stores that keep their contracts: what the slave sends and what
  the stores then hold, for each of the four register functions, inside the locale \<open>slave_stores\<close>.
\<close>

section \<open>The fields of a request\<close>

lemma request_fields:
  assumes P: "platform_ok P" and l: "listening sl" and "length rest \<le> 248"
    and d: "d = delivered addr fn ((reg_bytes P [a, n] @ rest) @ reg_bytes P [c]) sl"
  shows "req_address P (GetFrameIn d) = a" and "req_word P (GetFrameIn d) = n"
    and "frame_address (GetFrameIn d) = addr" and "frame_function (GetFrameIn d) = fn"
    and "rest \<noteq> [] \<Longrightarrow> req_byte_count (GetFrameIn d) = unat (rest ! 0)"
    and "1 + 2 * unat n \<le> length rest \<Longrightarrow> req_values P (GetFrameIn d) = take (2 * unat n) (drop 1 rest)"
proof -
  let ?body = "(reg_bytes P [a, n] @ rest) @ reg_bytes P [c]"
  have len: "length ?body \<le> 256" "4 \<le> length ?body"
    using assms(3) by simp_all
  note fields = delivered_fields [OF l len, where addr = addr and fn = fn, folded d]
  show 1: "req_address P (GetFrameIn d) = a" and 2: "req_word P (GetFrameIn d) = n"
    using fields(1,2) P by simp_all
  show "frame_address (GetFrameIn d) = addr" "frame_function (GetFrameIn d) = fn"
    by (simp_all add: d)
  show "rest \<noteq> [] \<Longrightarrow> req_byte_count (GetFrameIn d) = unat (rest ! 0)"
    using fields(3) by (simp add: nth_append)
  show "1 + 2 * unat n \<le> length rest \<Longrightarrow> req_values P (GetFrameIn d) = take (2 * unat n) (drop 1 rest)"
    using delivered_values [OF l len(1), where addr = addr and fn = fn, folded d] 2
    by (simp add: eval_nat_numeral)
qed

lemma good_requests [simp]:
  "good_request kReadMultipleHoldingRegisters [x, y, z, w]"
  "good_request kReadInputRegisters [x, y, z, w]"
  "good_request kWriteSingleHoldingRegister [x, y, z, w]"
  by (simp_all add: good_request_def GetValidFunctions_def)

lemma good_write_request:
  "length vals = unat bc \<Longrightarrow> unat bc \<le> 247 \<Longrightarrow>
   good_request kWriteMultipleHoldingRegisters (reg_bytes P [a, n] @ bc # vals)"
  by (simp add: good_request_def GetValidFunctions_def nth_append)

text \<open>
  A request inside what the code checks and what it relies on: a read of at most 125 registers, a
  write of at least one, and room for all of it in the frame.
\<close>

definition request_within :: "platform \<Rightarrow> Function \<Rightarrow> u16 \<Rightarrow> u16 \<Rightarrow> u8 list \<Rightarrow> bool" where
  "request_within P fn a n rest \<longleftrightarrow>
     good_request fn (reg_bytes P [a, n] @ rest) \<and> length rest \<le> 248 \<and>
     (fn \<in> {kReadMultipleHoldingRegisters, kReadInputRegisters} \<longrightarrow> unat n \<le> 125) \<and>
     (fn \<noteq> kWriteSingleHoldingRegister \<longrightarrow> n \<noteq> 0)"

section \<open>Requests over two stores\<close>

context slave_stores
begin

lemma exchange_within:
  assumes P: "platform_ok P" and wf: "ready hinv iinv g sl" and req: "request_within P fn a n rest"
  obtains sl' r where
    "exchange P (TH P) (TI P) sl (request_adu P g addr fn (reg_bytes P [a, n] @ rest)) = Inr sl'"
    "ready hinv iinv g (Slave_Reset sl')" "slave_address sl' = slave_address sl"
    "outcome (Inr sl') = Inr (r, holding_store sl', input_store sl')" "length (reply_bytes r) \<le> 256"
proof -
  let ?d = "delivered addr fn ((reg_bytes P [a, n] @ rest) @
      reg_bytes P [g (addr # Function_code fn # reg_bytes P [a, n] @ rest)]) sl"
  have good: "good_request fn (reg_bytes P [a, n] @ rest)" and rest: "length rest \<le> 248"
    and limits: "fn \<in> {kReadMultipleHoldingRegisters, kReadInputRegisters} \<Longrightarrow> unat n \<le> 125"
      "fn \<noteq> kWriteSingleHoldingRegister \<Longrightarrow> n \<noteq> 0"
    using req unfolding request_within_def by blast+
  note fields = request_fields(1-4) [OF P readyD(3) [OF wf] rest refl]
  have "read_fits P (GetFrameIn ?d)" "nonempty_request P (GetFrameIn ?d)"
    unfolding read_fits_def nonempty_request_def fields using limits by blast+
  from exchange_step [OF P wf good refl this] show thesis using that by blast
qed

text \<open>What a request inside the limits gets, in terms of its verdict.\<close>

lemma request_outcome:
  assumes P: "platform_ok P" and wf: "ready hinv iinv g sl" and req: "request_within P fn a n rest"
    and d: "d = delivered (slave_address sl) fn ((reg_bytes P [a, n] @ rest) @
      reg_bytes P [g (slave_address sl # Function_code fn # reg_bytes P [a, n] @ rest)]) sl"
    and e: "e = verdict P (TH P) (TI P) (holding_store sl) (input_store sl) (GetFrameIn d)"
  shows "outcome (exchange P (TH P) (TI P) sl (request_adu P g (slave_address sl) fn (reg_bytes P [a, n] @ rest))) =
    Inr (if e = kAck
         then (Some (with_crc P g (slave_address sl # Function_code fn #
                 reply_body P hfetch ifetch (holding_store sl) (input_store sl) (GetFrameIn d))),
               store_after P hupdate (holding_store sl) (GetFrameIn d), input_store sl)
         else (Some (with_crc P g [slave_address sl, Function_code fn + 0x80, Exception_code e]),
               holding_store sl, input_store sl))"
proof -
  have good: "good_request fn (reg_bytes P [a, n] @ rest)" and rest: "length rest \<le> 248"
    and limits: "fn \<in> {kReadMultipleHoldingRegisters, kReadInputRegisters} \<Longrightarrow> unat n \<le> 125"
      "fn \<noteq> kWriteSingleHoldingRegister \<Longrightarrow> n \<noteq> 0"
    using req unfolding request_within_def by blast+
  note fields = request_fields(1-4) [OF P readyD(3) [OF wf] rest d]
  have "read_fits P (GetFrameIn d)" "nonempty_request P (GetFrameIn d)"
    unfolding read_fits_def nonempty_request_def fields using limits by blast+
  from exchange_outcome [OF P readyD [OF wf] good d refl this e] show ?thesis
    using fields by (simp add: ack_reply_def error_reply_def)
qed

lemma within_read:
  "1 \<le> unat n \<Longrightarrow> unat n \<le> 125 \<Longrightarrow> fn \<in> {kReadMultipleHoldingRegisters, kReadInputRegisters} \<Longrightarrow>
   request_within P fn a n []"
  by (auto simp: request_within_def)

lemma answer_read_input:
  assumes P: "platform_ok P" and wf: "ready hinv iinv g sl" and n: "1 \<le> unat n" "unat n \<le> 125"
  shows "outcome (exchange P (TH P) (TI P) sl
      (request_adu P g (slave_address sl) kReadInputRegisters (reg_bytes P [a, n]))) =
    Inr (if op_ReadLocationValid (TI P) (input_store sl) (ucast a) (ucast n)
         then (Some (with_crc P g ([slave_address sl, 4, word_of_nat (2 * unat n)] @
                 padded (2 * unat n) (ifetch P (input_store sl) (unat a) (unat n)))),
               holding_store sl, input_store sl)
         else (Some (with_crc P g [slave_address sl, 0x84, 2]), holding_store sl, input_store sl))"
  using request_outcome [OF P wf within_read [OF n] refl refl, of kReadInputRegisters a]
    request_fields(1-4) [OF P readyD(3) [OF wf] _ refl, of "[]"]
  by (simp add: verdict_def implimented_functions_def reply_body_def store_after_def Let_def)

lemma answer_read_holding:
  assumes P: "platform_ok P" and wf: "ready hinv iinv g sl" and n: "1 \<le> unat n" "unat n \<le> 125"
  shows "outcome (exchange P (TH P) (TI P) sl
      (request_adu P g (slave_address sl) kReadMultipleHoldingRegisters (reg_bytes P [a, n]))) =
    Inr (if op_ReadLocationValid (TH P) (holding_store sl) (ucast a) (ucast n)
         then (Some (with_crc P g ([slave_address sl, 3, word_of_nat (2 * unat n)] @
                 padded (2 * unat n) (hfetch P (holding_store sl) (unat a) (unat n)))),
               holding_store sl, input_store sl)
         else (Some (with_crc P g [slave_address sl, 0x83, 2]), holding_store sl, input_store sl))"
  using request_outcome [OF P wf within_read [OF n] refl refl, of kReadMultipleHoldingRegisters a]
    request_fields(1-4) [OF P readyD(3) [OF wf] _ refl, of "[]"]
  by (simp add: verdict_def holding_verdict_def implimented_functions_def reply_body_def store_after_def Let_def)

lemma answer_write_single:
  assumes P: "platform_ok P" and wf: "ready hinv iinv g sl"
  shows "outcome (exchange P (TH P) (TI P) sl
      (request_adu P g (slave_address sl) kWriteSingleHoldingRegister (reg_bytes P [a, w]))) =
    Inr (if op_WriteLocationValid (TH P) (holding_store sl) (ucast a) 1
         then (Some (request_adu P g (slave_address sl) kWriteSingleHoldingRegister (reg_bytes P [a, w])),
               hupdate P (holding_store sl) (unat a) (reg_bytes P [w]), input_store sl)
         else (Some (with_crc P g [slave_address sl, 0x86, 2]), holding_store sl, input_store sl))"
proof -
  have "request_within P kWriteSingleHoldingRegister a w []" by (simp add: request_within_def)
  from request_outcome [OF P wf this refl refl] request_fields(1-4) [OF P readyD(3) [OF wf] _ refl, of "[]"]
  show ?thesis
    by (simp add: verdict_def holding_verdict_def implimented_functions_def reply_body_def store_after_def
        request_adu_def)
qed

lemma answer_write_multiple:
  assumes P: "platform_ok P" and wf: "ready hinv iinv g sl" and n: "1 \<le> unat n"
    and vals: "length vals = unat bc" "unat bc \<le> 247"
  shows "outcome (exchange P (TH P) (TI P) sl
      (request_adu P g (slave_address sl) kWriteMultipleHoldingRegisters (reg_bytes P [a, n] @ bc # vals))) =
    Inr (if \<not> op_WriteLocationValid (TH P) (holding_store sl) (ucast a) (ucast n)
         then (Some (with_crc P g [slave_address sl, 0x90, 2]), holding_store sl, input_store sl)
         else if unat bc \<noteq> 2 * unat n
         then (Some (with_crc P g [slave_address sl, 0x90, 3]), holding_store sl, input_store sl)
         else (Some (with_crc P g ([slave_address sl, 16] @ reg_bytes P [a, n])),
               hupdate P (holding_store sl) (unat a) vals, input_store sl))"
proof -
  have n0: "n \<noteq> 0" using n by auto
  have good: "good_request kWriteMultipleHoldingRegisters (reg_bytes P [a, n] @ bc # vals)"
    by (rule good_write_request) (use vals in simp_all)
  have len: "length (bc # vals) \<le> 248" using vals by simp
  have within: "request_within P kWriteMultipleHoldingRegisters a n (bc # vals)"
    unfolding request_within_def using good len n0 by simp
  define d where "d = delivered (slave_address sl) kWriteMultipleHoldingRegisters ((reg_bytes P [a, n] @ bc # vals) @
    reg_bytes P [g (slave_address sl # Function_code kWriteMultipleHoldingRegisters # reg_bytes P [a, n] @ bc # vals)]) sl"
  note fields = request_fields [OF P readyD(3) [OF wf] len d_def]
  have v: "unat bc = 2 * unat n \<Longrightarrow> req_values P (GetFrameIn d) = vals"
    using fields(6) vals by simp
  show ?thesis
    using request_outcome [OF P wf within d_def refl] fields(1-4) fields(5) v
    by (auto simp: verdict_def holding_verdict_def implimented_functions_def reply_body_def store_after_def)
qed

end

end
