(* ===== verification/Device.thy ===== *)
theory Device
  imports StoreRequests
begin

text \<open>
  The slave over the stores of \<open>RegisterDataStore.h\<close>: the contracts are discharged by the
  interpretations below, and what a master sees is stated as bytes in, bytes and registers out.
\<close>

type_synonym device = "(UpdatingRegisterDataStore, RegisterDataStore) ProtocolRtuSlave"

interpretation device_stores:
  slave_stores UpdatingRegisterDataStore_ops updating_wf array_fetch array_update
    RegisterDataStore_ops store_wf array_fetch
  by unfold_locales

definition device_exchange :: "platform \<Rightarrow> device \<Rightarrow> u8 list \<Rightarrow> device result" where
  "device_exchange P sl bs =
     exchange P (UpdatingRegisterDataStore_ops P) (RegisterDataStore_ops P) sl bs"

definition device_wf :: "(u8 list \<Rightarrow> u16) \<Rightarrow> device \<Rightarrow> bool" where
  "device_wf g sl \<longleftrightarrow> crc_ok (slave_crc (base sl)) g \<and> slave_wf updating_wf store_wf sl \<and>
     listening sl \<and> \<not> slave_response_valid (base sl)"

lemma device_wf_ready: "device_wf g sl \<longleftrightarrow> ready updating_wf store_wf g sl"
  by (simp add: device_wf_def ready_def)

definition in_range :: "'a list \<Rightarrow> u16 \<Rightarrow> u16 \<Rightarrow> bool" where
  "in_range regs a n \<longleftrightarrow> unat a < length regs \<and> unat a + unat n \<le> length regs"

lemma device_ranges [simp]:
  "updating_wf h \<Longrightarrow> op_ReadLocationValid (UpdatingRegisterDataStore_ops P) h (ucast a) (ucast n) =
     in_range (registers h) a n"
  "updating_wf h \<Longrightarrow> op_WriteLocationValid (UpdatingRegisterDataStore_ops P) h (ucast a) (ucast n) =
     in_range (registers h) a n"
  "store_wf i \<Longrightarrow> op_ReadLocationValid (RegisterDataStore_ops P) i (ucast a) (ucast n) =
     in_range (registers i) a n"
  by (simp_all add: UpdatingRegisterDataStore_ops_def RegisterDataStore_ops_def updating_wf_def
      RegisterDataStore_WriteLocationValid_def RegisterDataStore_ReadLocationValid_iff in_range_def)

lemma device_range_one [simp]:
  "updating_wf h \<Longrightarrow> op_WriteLocationValid (UpdatingRegisterDataStore_ops P) h (ucast a) 1 =
     (unat (a :: u16) < length (registers h))"
  using device_ranges(2) [of h P a 1] by (simp add: in_range_def) linarith

lemma length_array_fetch:
  assumes "in_range (registers s) a n"
  shows "length (array_fetch P s (unat a) (unat n)) = 2 * unat n"
proof -
  have "unat n \<le> length (registers s) - unat a"
    using assms unfolding in_range_def by linarith
  then show ?thesis by (simp add: array_fetch_def)
qed

text \<open>The state of a device that has just been built.\<close>

lemma ProtocolRtuSlave_init_wf:
  "updating_wf h \<Longrightarrow> store_wf i \<Longrightarrow> crc_ok crcf g \<Longrightarrow>
   device_wf g (ProtocolRtuSlave_init crcf addr h i)"
  unfolding device_wf_ready by (rule ProtocolRtuSlave_init_ready)

text \<open>The outcome of a well-formed request in terms of the registers.\<close>

lemma device_outcome:
  assumes P: "platform_ok P" and wf: "device_wf g sl" and good: "good_request fn data"
    and d: "d = delivered addr fn (data @ reg_bytes P [g (addr # Function_code fn # data)]) sl"
    and f: "f = GetFrameIn d"
    and fits: "read_fits P f" "nonempty_request P f"
    and e: "e = verdict P (UpdatingRegisterDataStore_ops P) (RegisterDataStore_ops P)
              (holding_store sl) (input_store sl) f"
  shows "outcome (device_exchange P sl (request_adu P g addr fn data)) =
    Inr (if addr \<noteq> slave_address sl then (None, holding_store sl, input_store sl)
         else if e = kAck
         then (Some (ack_reply P g f (reply_body P array_fetch array_fetch (holding_store sl) (input_store sl) f)),
               store_after P array_update (holding_store sl) f, input_store sl)
         else (Some (error_reply P g f e), holding_store sl, input_store sl))"
proof -
  have w: "crc_ok (slave_crc (base sl)) g" "slave_wf updating_wf store_wf sl" "listening sl"
    "\<not> slave_response_valid (base sl)"
    using wf by (simp_all add: device_wf_def)
  show ?thesis
    unfolding device_exchange_def
    by (rule device_stores.exchange_outcome [OF P w good d f fits e])
qed

text \<open>A device to evaluate the theorems on: four holding registers, two input registers.\<close>

definition demo_crc :: "u8 list \<Rightarrow> u16" where
  "demo_crc bs = word_of_nat (sum_list (map unat bs))"

definition demo_holding :: UpdatingRegisterDataStore where
  "demo_holding = \<lparr>registers = [1, 2, 3, 4], flags = [False, False, False, False]\<rparr>"

definition demo_input :: RegisterDataStore where
  "demo_input = \<lparr>registers = [100, 200]\<rparr>"

definition demo_device :: device where
  "demo_device = ProtocolRtuSlave_init (crc16 (msb_platform True) demo_crc) 7 demo_holding demo_input"

lemma demo_device_wf: "device_wf demo_crc demo_device"
  unfolding demo_device_def
  by (rule ProtocolRtuSlave_init_wf)
    (simp_all add: demo_holding_def demo_input_def updating_wf_def store_wf_def)

lemma demo_device_simps [simp]:
  "holding_store demo_device = demo_holding" "input_store demo_device = demo_input"
  "slave_address demo_device = 7"
  "registers demo_holding = [1, 2, 3, 4]" "flags demo_holding = [False, False, False, False]"
  "registers demo_input = [100, 200]"
  by (simp_all add: demo_device_def ProtocolRtuSlave_init_def demo_holding_def demo_input_def)

section \<open>What the master sees\<close>

lemma device_inv:
  "device_wf g sl \<Longrightarrow> updating_wf (holding_store sl) \<and> store_wf (input_store sl) \<and> listening sl"
  by (simp add: device_wf_def slave_wf_def)

lemma read_holding_outcome:
  assumes P: "platform_ok P" and wf: "device_wf g sl" and n: "1 \<le> unat n" "unat n \<le> 125"
  shows "outcome (device_exchange P sl
      (request_adu P g (slave_address sl) kReadMultipleHoldingRegisters (reg_bytes P [a, n]))) =
    Inr (if in_range (registers (holding_store sl)) a n
         then (Some (with_crc P g ([slave_address sl, 3, word_of_nat (2 * unat n)] @
                 reg_bytes P (take (unat n) (drop (unat a) (registers (holding_store sl)))))),
               holding_store sl, input_store sl)
         else (Some (with_crc P g [slave_address sl, 0x83, 2]), holding_store sl, input_store sl))"
  using device_stores.answer_read_holding [OF P wf [unfolded device_wf_ready] n, of a] device_inv [OF wf]
    length_array_fetch [of "holding_store sl" a n P]
  by (simp add: device_exchange_def padded_def array_fetch_def)

text \<open>
  C8: Read Multiple Holding Registers. A request for 1 to 125 registers inside the bank is
  answered with the address, the function code, the byte count, the registers with the high
  byte first, and the CRC; one that leaves the bank is answered with exception 2. Neither
  changes a register.
\<close>

theorem read_holding_registers_answer:
  assumes P: "platform_ok P" and wf: "device_wf g sl" and n: "1 \<le> unat n" "unat n \<le> 125"
  shows "outcome (device_exchange P sl
      (request_adu P g (slave_address sl) kReadMultipleHoldingRegisters (reg_bytes P [a, n]))) =
    Inr (if in_range (registers (holding_store sl)) a n
         then (Some (with_crc P g ([slave_address sl, 3, word_of_nat (2 * unat n)] @
                 reg_bytes P (take (unat n) (drop (unat a) (registers (holding_store sl)))))),
               holding_store sl, input_store sl)
         else (Some (with_crc P g [slave_address sl, 0x83, 2]), holding_store sl, input_store sl))"
  using assms by (rule read_holding_outcome)

theorem read_holding_registers_answer_witness:
  "outcome (device_exchange (msb_platform True) demo_device
      (request_adu (msb_platform True) demo_crc 7 kReadMultipleHoldingRegisters
        (reg_bytes (msb_platform True) [1, 2]))) =
   Inr (Some (with_crc (msb_platform True) demo_crc ([7, 3, 4] @ reg_bytes (msb_platform True) [2, 3])),
        demo_holding, demo_input)"
  using read_holding_registers_answer [OF msb_platform_ok demo_device_wf, of 2 True 1]
  by (simp add: in_range_def)

text \<open>C10: Read Input Registers, the same on the input bank.\<close>

theorem read_input_registers_answer:
  assumes P: "platform_ok P" and wf: "device_wf g sl" and n: "1 \<le> unat n" "unat n \<le> 125"
  shows "outcome (device_exchange P sl
      (request_adu P g (slave_address sl) kReadInputRegisters (reg_bytes P [a, n]))) =
    Inr (if in_range (registers (input_store sl)) a n
         then (Some (with_crc P g ([slave_address sl, 4, word_of_nat (2 * unat n)] @
                 reg_bytes P (take (unat n) (drop (unat a) (registers (input_store sl)))))),
               holding_store sl, input_store sl)
         else (Some (with_crc P g [slave_address sl, 0x84, 2]), holding_store sl, input_store sl))"
  using device_stores.answer_read_input [OF P wf [unfolded device_wf_ready] n, of a] device_inv [OF wf]
    length_array_fetch [of "input_store sl" a n P]
  by (simp add: device_exchange_def padded_def array_fetch_def)

theorem read_input_registers_answer_witness:
  "outcome (device_exchange (msb_platform True) demo_device
      (request_adu (msb_platform True) demo_crc 7 kReadInputRegisters
        (reg_bytes (msb_platform True) [1, 2]))) =
   Inr (Some (with_crc (msb_platform True) demo_crc [7, 0x84, 2]), demo_holding, demo_input)"
  using read_input_registers_answer [OF msb_platform_ok demo_device_wf, of 2 True 1]
  by (simp add: in_range_def)

lemma write_single_outcome:
  assumes P: "platform_ok P" and wf: "device_wf g sl"
  shows "outcome (device_exchange P sl
      (request_adu P g (slave_address sl) kWriteSingleHoldingRegister (reg_bytes P [a, w]))) =
    Inr (if unat a < length (registers (holding_store sl))
         then (Some (request_adu P g (slave_address sl) kWriteSingleHoldingRegister (reg_bytes P [a, w])),
               (holding_store sl)\<lparr>registers := (registers (holding_store sl))[unat a := w],
                 flags := (flags (holding_store sl))[unat a := True]\<rparr>, input_store sl)
         else (Some (with_crc P g [slave_address sl, 0x86, 2]), holding_store sl, input_store sl))"
proof -
  have "length (flags (holding_store sl)) = length (registers (holding_store sl))"
    using device_inv [OF wf] by (simp add: updating_wf_def)
  then show ?thesis
    using device_stores.answer_write_single [OF P wf [unfolded device_wf_ready], of a w] device_inv [OF wf] P
    by (auto simp: device_exchange_def array_update_def overwrite_Cons)
qed

text \<open>
  C9: Write Single Holding Register. Inside the bank, the register takes the word, its update
  flag is set, nothing else changes and the request is echoed; outside, exception 2 and no
  change.
\<close>

theorem write_single_register_answer:
  assumes P: "platform_ok P" and wf: "device_wf g sl"
  shows "outcome (device_exchange P sl
      (request_adu P g (slave_address sl) kWriteSingleHoldingRegister (reg_bytes P [a, w]))) =
    Inr (if unat a < length (registers (holding_store sl))
         then (Some (request_adu P g (slave_address sl) kWriteSingleHoldingRegister (reg_bytes P [a, w])),
               (holding_store sl)\<lparr>registers := (registers (holding_store sl))[unat a := w],
                 flags := (flags (holding_store sl))[unat a := True]\<rparr>, input_store sl)
         else (Some (with_crc P g [slave_address sl, 0x86, 2]), holding_store sl, input_store sl))"
  using assms by (rule write_single_outcome)

theorem write_single_register_answer_witness:
  "outcome (device_exchange (msb_platform True) demo_device
      (request_adu (msb_platform True) demo_crc 7 kWriteSingleHoldingRegister
        (reg_bytes (msb_platform True) [2, 500]))) =
   Inr (Some (request_adu (msb_platform True) demo_crc 7 kWriteSingleHoldingRegister
          (reg_bytes (msb_platform True) [2, 500])),
        \<lparr>registers = [1, 2, 500, 4], flags = [False, False, True, False]\<rparr>, demo_input)"
  using write_single_register_answer [OF msb_platform_ok demo_device_wf, of True 2 500]
  by (simp add: demo_holding_def)

lemma write_multiple_outcome:
  assumes P: "platform_ok P" and wf: "device_wf g sl" and n: "1 \<le> unat n"
    and vals: "length vals = 2 * unat n" and fits: "unat n \<le> 123"
  shows "outcome (device_exchange P sl
      (request_adu P g (slave_address sl) kWriteMultipleHoldingRegisters
        (reg_bytes P [a, n] @ word_of_nat (2 * unat n) # vals))) =
    Inr (if in_range (registers (holding_store sl)) a n
         then (Some (with_crc P g ([slave_address sl, 16] @ reg_bytes P [a, n])),
               (holding_store sl)
                 \<lparr>registers := overwrite (unat a) (bytes_regs P vals) (registers (holding_store sl)),
                  flags := overwrite (unat a) (replicate (unat n) True) (flags (holding_store sl))\<rparr>,
               input_store sl)
         else (Some (with_crc P g [slave_address sl, 0x90, 2]), holding_store sl, input_store sl))"
proof -
  have "unat (word_of_nat (2 * unat n) :: u8) = 2 * unat n"
    using fits by (simp only: unat_word_of_nat_u8) simp
  then show ?thesis
    using device_stores.answer_write_multiple [OF P wf [unfolded device_wf_ready] n,
        of vals "word_of_nat (2 * unat n)" a] device_inv [OF wf] vals fits
    by (simp add: device_exchange_def array_update_def)
qed

text \<open>
  C7: Write Multiple Holding Registers with its byte count right and its values in the frame.
  Inside the bank, exactly the addressed registers take the values and their update flags are
  set; outside, exception 2 and no change.
\<close>

theorem write_multiple_registers_answer:
  assumes P: "platform_ok P" and wf: "device_wf g sl" and n: "1 \<le> unat n"
    and vals: "length vals = 2 * unat n" and fits: "unat n \<le> 123"
  shows "outcome (device_exchange P sl
      (request_adu P g (slave_address sl) kWriteMultipleHoldingRegisters
        (reg_bytes P [a, n] @ word_of_nat (2 * unat n) # vals))) =
    Inr (if in_range (registers (holding_store sl)) a n
         then (Some (with_crc P g ([slave_address sl, 16] @ reg_bytes P [a, n])),
               (holding_store sl)
                 \<lparr>registers := overwrite (unat a) (bytes_regs P vals) (registers (holding_store sl)),
                  flags := overwrite (unat a) (replicate (unat n) True) (flags (holding_store sl))\<rparr>,
               input_store sl)
         else (Some (with_crc P g [slave_address sl, 0x90, 2]), holding_store sl, input_store sl))"
  using assms by (rule write_multiple_outcome)

theorem write_multiple_registers_answer_witness:
  "outcome (device_exchange (msb_platform True) demo_device
      (request_adu (msb_platform True) demo_crc 7 kWriteMultipleHoldingRegisters
        (reg_bytes (msb_platform True) [1, 2] @ [4, 0, 9, 1, 0]))) =
   Inr (Some (with_crc (msb_platform True) demo_crc ([7, 16] @ reg_bytes (msb_platform True) [1, 2])),
        \<lparr>registers = [1, 9, 256, 4], flags = [False, True, True, False]\<rparr>, demo_input)"
  using write_multiple_registers_answer [OF msb_platform_ok demo_device_wf, of 2 "[0, 9, 1, 0]" True 1]
  by (simp add: in_range_def demo_holding_def) (simp add: overwrite_def numeral_2_eq_2)

text \<open>
  C19: a Write Multiple Holding Registers request for one register or more whose byte count is not
  twice its register count changes nothing. It is answered with exception 3 when the registers are
  in the bank, and with exception 2, which is looked for first, when they are not.
\<close>

theorem write_byte_count_mismatch_answer:
  assumes P: "platform_ok P" and wf: "device_wf g sl" and n: "1 \<le> unat n"
    and vals: "length vals = unat bc" "unat bc \<le> 247" and mismatch: "unat bc \<noteq> 2 * unat n"
  shows "outcome (device_exchange P sl
      (request_adu P g (slave_address sl) kWriteMultipleHoldingRegisters
        (reg_bytes P [a, n] @ bc # vals))) =
    Inr (Some (with_crc P g [slave_address sl, 0x90,
        if in_range (registers (holding_store sl)) a n then 3 else 2]), holding_store sl, input_store sl)"
  using device_stores.answer_write_multiple [OF P wf [unfolded device_wf_ready] n vals, of a] device_inv [OF wf] mismatch
  by (simp add: device_exchange_def)

theorem write_byte_count_mismatch_answer_witness:
  "outcome (device_exchange (msb_platform True) demo_device
      (request_adu (msb_platform True) demo_crc 7 kWriteMultipleHoldingRegisters
        (reg_bytes (msb_platform True) [1, 2] @ [2, 0, 9]))) =
   Inr (Some (with_crc (msb_platform True) demo_crc [7, 0x90, 3]), demo_holding, demo_input) \<and>
   outcome (device_exchange (msb_platform True) demo_device
      (request_adu (msb_platform True) demo_crc 7 kWriteMultipleHoldingRegisters
        (reg_bytes (msb_platform True) [9, 2] @ [2, 0, 9]))) =
   Inr (Some (with_crc (msb_platform True) demo_crc [7, 0x90, 2]), demo_holding, demo_input)"
  using write_byte_count_mismatch_answer [OF msb_platform_ok demo_device_wf, of 2 "[0, 9]" 2 True 1]
    write_byte_count_mismatch_answer [OF msb_platform_ok demo_device_wf, of 2 "[0, 9]" 2 True 9]
  by (simp add: in_range_def demo_holding_def)

text \<open>
  C18: a request to another address is not answered and changes no register, whatever it asks.
\<close>

theorem other_address_ignored:
  assumes P: "platform_ok P" and wf: "device_wf g sl" and good: "good_request fn data"
    and other: "addr \<noteq> slave_address sl"
  shows "outcome (device_exchange P sl (request_adu P g addr fn data)) =
    Inr (None, holding_store sl, input_store sl)"
proof -
  have l: "listening sl" and fn: "fn \<in> set GetValidFunctions"
    using wf good by (simp_all add: device_wf_def good_request_def)
  let ?body = "data @ reg_bytes P [g (addr # Function_code fn # data)]"
  let ?d = "delivered addr fn ?body sl"
  note body = good_request_body [OF good, where P = P and w = "g (addr # Function_code fn # data)"]
  have "Slave_ProcessCharacters P sl (request_adu P g addr fn data) = Inr ?d"
    by (rule feed_request_adu [OF l good])
  moreover have "request_wf (GetFrameIn ?d)"
    by (rule delivered_wf [OF l fn body])
  then have "ProcessMessage P (UpdatingRegisterDataStore_ops P) (RegisterDataStore_ops P) True ?d = Inr ?d"
    using device_stores.ValidateMessage_spec other by (simp add: ProcessMessage_def Let_def)
  ultimately have "device_exchange P sl (request_adu P g addr fn data) = Inr ?d"
    by (simp only: device_exchange_def exchange_def rbind_simps)
  then show ?thesis
    using wf by (simp add: device_wf_def outcome_def) (simp add: delivered_def)
qed

theorem other_address_ignored_witness:
  "outcome (device_exchange (msb_platform True) demo_device
      (request_adu (msb_platform True) demo_crc 8 kWriteSingleHoldingRegister [0, 0, 0, 5])) =
   Inr (None, demo_holding, demo_input)"
  using other_address_ignored [OF msb_platform_ok demo_device_wf,
      of kWriteSingleHoldingRegister "[0, 0, 0, 5]" 8 True]
  by simp

lemma corrupt_request_outcome:
  assumes P: "platform_ok P" and wf: "device_wf g sl" and good: "good_request fn data"
    and w: "w \<noteq> g (addr # Function_code fn # data)"
  shows "outcome (device_exchange P sl (addr # Function_code fn # data @ reg_bytes P [w])) =
    Inr (None, holding_store sl, input_store sl)"
proof -
  have "device_exchange P sl (addr # Function_code fn # data @ reg_bytes P [w]) =
      Inr (delivered addr fn (data @ reg_bytes P [w]) sl)"
    unfolding device_exchange_def
    by (rule device_stores.exchange_bad_crc [where g = g, OF P _ _ good w])
      (use wf in \<open>simp_all add: device_wf_def\<close>)
  then show ?thesis
    using wf by (simp only: device_wf_def) (simp add: outcome_def, simp add: delivered_def)
qed

text \<open>
  C17: a request whose CRC is not the CRC of its bytes is not answered and changes no register,
  whatever it asks.
\<close>

theorem corrupt_request_ignored:
  assumes P: "platform_ok P" and wf: "device_wf g sl" and good: "good_request fn data"
    and w: "w \<noteq> g (addr # Function_code fn # data)"
  shows "outcome (device_exchange P sl (addr # Function_code fn # data @ reg_bytes P [w])) =
    Inr (None, holding_store sl, input_store sl)"
  using assms by (rule corrupt_request_outcome)

theorem corrupt_request_ignored_witness:
  "outcome (device_exchange (msb_platform True) demo_device
      (7 # 6 # [0, 0, 0, 5] @ reg_bytes (msb_platform True) [19])) =
   Inr (None, demo_holding, demo_input)"
  using corrupt_request_ignored [OF msb_platform_ok demo_device_wf,
      of kWriteSingleHoldingRegister "[0, 0, 0, 5]" 19 7 True]
  by (simp add: demo_crc_def)

text \<open>
  C20: a request with a function code that the protocol defines and this slave does not implement.
  However long the request is, the reader reports a packet after the third byte behind the function
  code, and the slave takes the second and the third to be the CRC. It answers with exception 1
  exactly when they are the CRC of the three bytes before them, and otherwise not at all; a longer
  request, correct from its first to its last byte, is answered only by that chance. No register
  changes.
\<close>

theorem unimplemented_function_answer:
  assumes P: "platform_ok P" and wf: "device_wf g sl" and fn: "fn \<in> set GetValidFunctions"
    and unimplemented: "fn \<notin> set implimented_functions"
  shows "(\<exists>sl'. Slave_ProcessCharacters P sl [slave_address sl, Function_code fn, x, hi, lo] = Inr sl' \<and>
      PacketReceived (slave_ctx (base sl'))) \<and>
    outcome (device_exchange P sl [slave_address sl, Function_code fn, x, hi, lo]) =
      Inr (if Make_MSB P hi lo = g [slave_address sl, Function_code fn, x]
           then Some (with_crc P g [slave_address sl, Function_code fn + 0x80, 1]) else None,
         holding_store sl, input_store sl)"
proof (intro conjI)
  let ?w = "Make_MSB P hi lo" and ?crc = "g [slave_address sl, Function_code fn, x]"
  have l: "listening sl" using wf by (simp add: device_wf_def)
  have good: "good_request fn [x]"
    using fn unimplemented by (simp add: good_request_def implimented_functions_def)
  have bytes: "[slave_address sl, Function_code fn, x, hi, lo] =
      slave_address sl # Function_code fn # [x] @ reg_bytes P [?w]"
    using P by simp
  have "Slave_ProcessCharacters P sl [slave_address sl, Function_code fn, x, hi, lo] =
      Inr (delivered (slave_address sl) fn ([x] @ reg_bytes P [?w]) sl)"
    unfolding bytes by (rule ProcessCharacters_adu [OF l fn good_request_body(1) [OF good]]) simp
  then show "\<exists>sl'. Slave_ProcessCharacters P sl [slave_address sl, Function_code fn, x, hi, lo] = Inr sl' \<and>
      PacketReceived (slave_ctx (base sl'))"
    by (intro exI conjI) (assumption, simp add: delivered_def PacketReceived_def)
  show "outcome (device_exchange P sl [slave_address sl, Function_code fn, x, hi, lo]) =
      Inr (if ?w = ?crc then Some (with_crc P g [slave_address sl, Function_code fn + 0x80, 1]) else None,
         holding_store sl, input_store sl)"
  proof (cases "?w = ?crc")
    case True
    define d where "d = delivered (slave_address sl) fn
      ([x] @ reg_bytes P [g (slave_address sl # Function_code fn # [x])]) sl"
    have f: "frame_function (GetFrameIn d) = fn" "frame_address (GetFrameIn d) = slave_address sl"
      by (simp_all add: d_def)
    have "read_fits P (GetFrameIn d)" "nonempty_request P (GetFrameIn d)"
      using f unimplemented by (simp_all add: read_fits_def nonempty_request_def implimented_functions_def)
    from device_outcome [OF P wf good d_def refl this refl]
    have "outcome (device_exchange P sl (request_adu P g (slave_address sl) fn [x])) =
        Inr (Some (with_crc P g [slave_address sl, Function_code fn + 0x80, 1]), holding_store sl, input_store sl)"
      using f unimplemented by (simp add: verdict_def error_reply_def)
    moreover have "request_adu P g (slave_address sl) fn [x] = [slave_address sl, Function_code fn, x, hi, lo]"
      unfolding bytes request_adu_body by (simp only: True append_Cons append_Nil)
    ultimately show ?thesis using True by simp
  next
    case False
    then show ?thesis
      unfolding bytes using corrupt_request_outcome [OF P wf good, of ?w "slave_address sl"] by simp
  qed
qed

theorem unimplemented_function_answer_witness:
  "outcome (device_exchange (msb_platform True) demo_device [7, 1, 0, 0, 0]) = Inr (None, demo_holding, demo_input) \<and>
   outcome (device_exchange (msb_platform True) demo_device [7, 1, 0, 0, 8]) =
     Inr (Some (with_crc (msb_platform True) demo_crc [7, 0x81, 1]), demo_holding, demo_input)"
proof -
  have fn: "kReadCoils \<in> set GetValidFunctions" "kReadCoils \<notin> set implimented_functions"
    by (simp_all add: GetValidFunctions_def implimented_functions_def)
  have crc: "Make_MSB (msb_platform True) 0 0 \<noteq> demo_crc [7, 1, 0]" "Make_MSB (msb_platform True) 0 8 = demo_crc [7, 1, 0]"
    by (simp_all add: demo_crc_def)
  show ?thesis
    using unimplemented_function_answer [OF msb_platform_ok demo_device_wf fn, of True 0 0 0]
      unimplemented_function_answer [OF msb_platform_ok demo_device_wf fn, of True 0 0 8] crc
    by simp
qed

text \<open>
  C1: refinement: for every message that the reader can deliver within the limits, whatever its
  address, CRC, function and fields, \<open>ProcessMessage\<close> (validation, address filter, CRC check,
  register access, reply header, CRC of the reply) is the abstract handler \<open>serve\<close>, which only
  knows the contents of the two banks.
\<close>

theorem process_message_implements_serve:
  assumes "platform_ok P" and "crc_ok (slave_crc (base sl)) g" and "slave_wf updating_wf store_wf sl"
    and "request_wf (GetFrameIn sl)" and "read_fits P (GetFrameIn sl)" and "nonempty_request P (GetFrameIn sl)"
  shows "ProcessMessage P (UpdatingRegisterDataStore_ops P) (RegisterDataStore_ops P) filter_address sl =
    Inr (serve P g (UpdatingRegisterDataStore_ops P) (RegisterDataStore_ops P)
           array_fetch array_fetch array_update filter_address sl)"
  using assms by (rule device_stores.ProcessMessage_spec)

theorem process_message_implements_serve_witness:
  "ProcessMessage (msb_platform True) (UpdatingRegisterDataStore_ops (msb_platform True))
      (RegisterDataStore_ops (msb_platform True)) False
      (delivered 9 kReadMultipleHoldingRegisters [0, 1, 0, 2, 0, 15] demo_device) =
   Inr (answered (delivered 9 kReadMultipleHoldingRegisters [0, 1, 0, 2, 0, 15] demo_device)
     (with_crc (msb_platform True) demo_crc [9, 3, 4, 0, 2, 0, 3]))"
proof -
  let ?P = "msb_platform True" and ?fn = kReadMultipleHoldingRegisters
  define d where "d = delivered 9 ?fn [0, 1, 0, 2, 0, 15] demo_device"
  have wf: "device_wf demo_crc demo_device" by (rule demo_device_wf)
  then have l: "listening demo_device" by (simp add: device_wf_def)
  have good: "good_request ?fn (reg_bytes ?P [1, 2])" by simp
  have d': "d = delivered 9 ?fn ((reg_bytes ?P [1, 2] @ []) @ reg_bytes ?P [15]) demo_device"
    by (simp add: d_def)
  note fields = request_fields(1-4) [OF msb_platform_ok l _ d']
  have f: "request_wf (GetFrameIn d)"
    unfolding d_def by (rule delivered_wf [OF l]) (simp_all add: GetValidFunctions_def body_length_def meta_length_cases)
  have wire: "wire_bytes (GetFrameIn d) = [9, 3, 0, 1, 0, 2, 0, 15]"
    using delivered_bytes(3) [OF l, of "[0, 1, 0, 2, 0, 15]" 9 ?fn] by (simp add: wire_bytes_def d_def)
  have "data_length (GetFrameIn d) = 6" by (simp add: d_def)
  then have "crc_matches ?P demo_crc (GetFrameIn d)"
    by (simp add: crc_matches_def wire demo_crc_def)
  moreover have "ProcessMessage ?P (UpdatingRegisterDataStore_ops ?P) (RegisterDataStore_ops ?P) False d =
    Inr (serve ?P demo_crc (UpdatingRegisterDataStore_ops ?P) (RegisterDataStore_ops ?P)
           array_fetch array_fetch array_update False d)"
    by (rule process_message_implements_serve [OF msb_platform_ok _ _ f])
      (use wf fields in \<open>simp_all add: d_def device_wf_def slave_wf_def read_fits_def nonempty_request_def\<close>)
  moreover have "holding_store d = demo_holding" "d\<lparr>holding_store := demo_holding\<rparr> = d"
    using demo_device_simps(1) by (simp_all add: d_def delivered_def del: demo_device_simps(1))
  moreover have "updating_wf demo_holding" using wf by (simp add: device_wf_def slave_wf_def)
  then have "op_ReadLocationValid (UpdatingRegisterDataStore_ops ?P) demo_holding 1 2"
    using device_ranges(1) [of demo_holding ?P 1 2] by (simp add: in_range_def)
  ultimately show ?thesis
    using fields
    by (simp add: serve_def Let_def verdict_def implimented_functions_def holding_verdict_def in_range_def
        store_after_def ack_reply_def reply_body_def array_fetch_def padded_def flip: d_def)
qed

end
