(* ===== verification/Master.thy ===== *)
theory Master
  imports Device
begin

text \<open>
  The master's side of the protocol code: the \<open>FillFrame\<close> functions of \<open>RegisterControl.h\<close> and
  \<open>ProtocolRtu::Frame\<close> / \<open>ReadFrame\<close>. What they put on the wire is exactly what the slave's
  reader and CRC check expect.
\<close>

section \<open>Framing\<close>

lemma view_elems_wf: "view_wf v \<Longrightarrow> view_elems v = Inr (take (view_size v) (view_data v))"
  by (simp add: view_elems_def view_wf_def)

lemma Frame_wire:
  assumes "crc_ok crcf g" and "has_bytes (data_length f) f" and "view_wf v"
    and "view_size v = data_length f + 4"
  obtains v' where "ProtocolRtu_Frame P crcf f v = Inr (0, v')" and "view_wf v'"
    and "view_size v' = data_length f + 4" and "view_elems v' = Inr (with_crc P g (wire_bytes f))"
    and "take (data_length f + 4) (view_data v') = with_crc P g (wire_bytes f)"
proof -
  let ?v = "v\<lparr>view_data := overwrite 0 (with_crc P g (wire_bytes f)) (view_data v)\<rparr>"
  have len: "length (with_crc P g (wire_bytes f)) = data_length f + 4"
    using assms(2) by simp
  have "data_length f + 4 \<le> length (view_data v)" using assms(3,4) by (simp add: view_wf_def)
  then have wf: "view_wf ?v" "view_size ?v = data_length f + 4"
    using len assms(4) by (simp_all add: view_wf_def)
  have t: "take (data_length f + 4) (view_data ?v) = with_crc P g (wire_bytes f)"
    using len by (simp add: overwrite_0)
  show thesis
  proof (rule that)
    show "ProtocolRtu_Frame P crcf f v = Inr (0, ?v)"
      using ProtocolRtu_Frame_spec [OF assms] by (simp add: with_crc_def)
    show "view_elems ?v = Inr (with_crc P g (wire_bytes f))"
      using view_elems_wf [OF wf(1)] wf(2) t by simp
  qed (use wf t in auto)
qed

text \<open>
  A packet that \<open>ProtocolRtu::Frame\<close> framed passes \<open>FrameCrcIsValid\<close>.
\<close>

lemma framed_packet_passes_crc_check:
  assumes P: "platform_ok P" and crc: "crc_ok crcf g" and f: "has_bytes (data_length f) f"
    and v: "view_wf v" "view_size v = data_length f + 4"
  shows "rbind (ProtocolRtu_Frame P crcf f v) (\<lambda>(_, v'). FrameCrcIsValid_view P crcf v') = Inr True"
proof -
  obtain v' where v': "ProtocolRtu_Frame P crcf f v = Inr (0, v')" "view_wf v'"
    "view_size v' = data_length f + 4" "take (data_length f + 4) (view_data v') = with_crc P g (wire_bytes f)"
    using Frame_wire [OF crc f v] by metis
  let ?n = "data_length f + 2"
  have size: "view_size v' = Suc (Suc ?n)" using v'(3) by simp
  have wl: "length (wire_bytes f) = ?n" using f by simp
  have nth: "view_data v' ! k = with_crc P g (wire_bytes f) ! k" if "k < data_length f + 4" for k
    using v'(4) that by (metis nth_take)
  have "take ?n (view_data v') = take ?n (take (data_length f + 4) (view_data v'))"
    by simp
  then have "take ?n (view_data v') = wire_bytes f"
    using wl by (simp only: v'(4)) (simp add: with_crc_def)
  then have "FrameCrcIsValid_view P crcf v' = Inr True"
    using FrameCrcIsValid_view_spec [OF crc v'(2) size, of P] nth [of ?n] nth [of "Suc ?n"] wl P
    by (simp add: with_crc_def nth_append)
  then show ?thesis using v'(1) by simp
qed

text \<open>
  C25: \<open>ProtocolRtu::ReadFrame\<close> recovers from a framed packet the address, the function and the
  data that went into it.
\<close>

theorem frame_then_read_frame:
  assumes crc: "crc_ok crcf g" and f: "has_bytes (data_length f) f"
    and v: "view_wf v" "view_size v = data_length f + 4" and n: "data_length f < 2 ^ 32"
    and fn: "frame_function f \<in> set GetValidFunctions" and h: "has_bytes (data_length f) h"
  shows "rbind (ProtocolRtu_Frame P crcf f v) (\<lambda>(_, v'). rbind (ProtocolRtu_ReadFrame P v' h)
      (\<lambda>(code, f'). Inr (code, frame_address f', frame_function f', data_length f',
         take (data_length f') (view_data (data_array f'))))) =
    Inr (0, frame_address f, frame_function f, data_length f,
         take (data_length f) (view_data (data_array f)))"
proof -
  obtain v' where v': "ProtocolRtu_Frame P crcf f v = Inr (0, v')" "view_wf v'"
    "view_size v' = data_length f + 4" "take (data_length f + 4) (view_data v') = with_crc P g (wire_bytes f)"
    using Frame_wire [OF crc f v] by metis
  let ?data = "take (data_length f) (view_data (data_array f))"
  have wire: "take (data_length f + 4) (view_data v') =
      frame_address f # Function_code (frame_function f) # ?data @ reg_bytes P [g (wire_bytes f)]"
    using v'(4) by (simp add: with_crc_def wire_bytes_def)
  have "view_data v' ! 0 = take (data_length f + 4) (view_data v') ! 0"
    "view_data v' ! 1 = take (data_length f + 4) (view_data v') ! 1" by simp_all
  then have hd: "view_data v' ! 0 = frame_address f" "view_data v' ! 1 = Function_code (frame_function f)"
    by (simp_all only: wire) simp_all
  have "take (data_length f) (drop 2 (view_data v')) = take (data_length f) (drop 2 (take (data_length f + 4) (view_data v')))"
    by (simp add: take_drop min_def)
  then have data: "take (data_length f) (drop 2 (view_data v')) = ?data"
    using f by (simp only: wire) (simp add: has_bytes_def)
  have len: "length ?data = data_length f" using f by (simp add: has_bytes_def)
  have "Function_of_code (Function_code (frame_function f)) = frame_function f"
    using fn by (intro Function_of_code_named) (auto simp: GetValidFunctions_def named_functions_def)
  then show ?thesis
    using ProtocolRtu_ReadFrame_spec [OF v'(2,3) n h, of P] v'(1) hd data len
    by (simp add: overwrite_0)
qed

section \<open>Requests\<close>

lemma has_bytes_below:
  "has_bytes 4 f \<Longrightarrow> k < 4 \<Longrightarrow> k < view_size (data_array f) \<and> k < length (view_data (data_array f))"
  by (simp add: has_bytes_def)

lemma has_bytes_4:
  assumes "has_bytes 4 f"
  shows "0 < view_size (data_array f)" "view_data (data_array f) \<noteq> []"
    "Suc 0 < view_size (data_array f)" "Suc 0 < length (view_data (data_array f))"
    "Suc (Suc 0) < view_size (data_array f)" "Suc (Suc 0) < length (view_data (data_array f))"
    "Suc (Suc (Suc 0)) < view_size (data_array f)" "Suc (Suc (Suc 0)) < length (view_data (data_array f))"
  using assms by (auto simp: has_bytes_def)

lemma FillFrame_read:
  assumes "has_bytes 4 f"
  shows "ReadMultiple_FillFrameBase P a n fn f = Inr (0, f\<lparr>frame_function := fn, data_length := 4,
    data_array := (data_array f)\<lparr>view_data :=
      overwrite 0 (reg_bytes P [a, n]) (view_data (data_array f))\<rparr>\<rparr>)"
  using has_bytes_4 [OF assms] assms
  by (simp add: ReadMultiple_FillFrameBase_def has_bytes_def overwrite_Cons eval_nat_numeral)

lemma FillFrame_write_single:
  assumes "has_bytes 4 f"
  shows "WriteSingle_FillFrame P a w f = Inr (0, f\<lparr>frame_function := kWriteSingleHoldingRegister,
    data_length := 4, data_array := (data_array f)\<lparr>view_data :=
      overwrite 0 (reg_bytes P [a, w]) (view_data (data_array f))\<rparr>\<rparr>)"
  using has_bytes_4 [OF assms] assms
  by (simp add: WriteSingle_FillFrame_def has_bytes_def overwrite_Cons eval_nat_numeral)

lemma FillFrame_write_multiple:
  assumes f: "has_bytes (5 + 2 * length ws) f" "view_wf (data_array f)" and ws: "length ws \<le> 127"
  shows "WriteMultiple_FillFrame P a n (view_of ws) f = Inr (0, f\<lparr>frame_function := kWriteMultipleHoldingRegisters,
    data_length := 5 + 2 * length ws, data_array := (data_array f)\<lparr>view_data :=
      overwrite 0 (reg_bytes P [a, n] @ word_of_nat (2 * length ws) # reg_bytes P ws)
        (view_data (data_array f))\<rparr>\<rparr>)"
proof -
  have bc: "unat (word_of_nat (2 * length ws) :: u8) = 2 * length ws"
    using ws by (simp only: unat_word_of_nat_u8) simp
  have hb: "has_bytes 4 f" "Suc (Suc (Suc (Suc 0))) < view_size (data_array f)"
    "Suc (Suc (Suc (Suc 0))) < length (view_data (data_array f))"
    using f(1) by (simp_all add: has_bytes_def)
  have five: "WriteMultiple_kValueStart = Suc (Suc (Suc (Suc (Suc 0))))" by simp
  have elems: "view_elems \<lparr>view_size = length ws, view_data = ws\<rparr> = Inr ws"
    by (simp add: view_elems_wf view_wf_def)
  note loop = WriteMultiple_FillFrame_loop_spec [of "Suc (Suc (Suc (Suc (Suc 0))))" ws _ P]
  show ?thesis
    using has_bytes_4 [OF hb(1)] hb(2,3) f bc
    by (simp add: WriteMultiple_FillFrame_def elems view_of_def Let_def has_bytes_def overwrite_Cons
        loop view_wf_def eval_nat_numeral mult.commute)
qed

text \<open>\<open>send\<close> is what a master does with a filled frame: frame it into a packet of its size.\<close>

definition send :: "platform \<Rightarrow> Crc16 \<Rightarrow> Frame \<Rightarrow> u8 list result" where
  "send P crcf f =
     rbind (ProtocolRtu_Frame P crcf f (view_of (replicate (GetRequiredPacketSize f) 0)))
       (\<lambda>(_, v). view_elems v)"

lemma send_spec:
  assumes "crc_ok crcf g" and "has_bytes (data_length f) f"
  shows "send P crcf f = Inr (with_crc P g (wire_bytes f))"
proof -
  have v: "view_wf (view_of (replicate (GetRequiredPacketSize f) (0 :: u8)))"
    "view_size (view_of (replicate (GetRequiredPacketSize f) (0 :: u8))) = data_length f + 4"
    by (simp_all add: view_of_def view_wf_def GetRequiredPacketSize_def)
  obtain v' where "ProtocolRtu_Frame P crcf f (view_of (replicate (GetRequiredPacketSize f) 0)) = Inr (0, v')"
    "view_elems v' = Inr (with_crc P g (wire_bytes f))"
    using Frame_wire [OF assms v] by metis
  then show ?thesis by (simp add: send_def)
qed

lemma send_request:
  assumes "crc_ok crcf g" and "length data \<le> view_size (data_array f)" and "view_wf (data_array f)"
  shows "send P crcf (f\<lparr>frame_function := fn, data_length := length data,
      data_array := (data_array f)\<lparr>view_data := overwrite 0 data (view_data (data_array f))\<rparr>\<rparr>) =
    Inr (request_adu P g (frame_address f) fn data)"
proof -
  let ?f = "f\<lparr>frame_function := fn, data_length := length data,
      data_array := (data_array f)\<lparr>view_data := overwrite 0 data (view_data (data_array f))\<rparr>\<rparr>"
  have "has_bytes (data_length ?f) ?f"
    using assms by (simp add: has_bytes_def view_wf_def)
  then show ?thesis
    using send_spec [OF assms(1), of ?f P] by (simp add: wire_bytes_def request_adu_def overwrite_0)
qed

text \<open>
  C26: the master's commands, filled in and framed, are on the wire exactly the requests the
  slave's reader and CRC check take: address, function code, the two words, and for a write of
  up to 123 registers the byte count and the registers, high byte first, then the CRC.
\<close>

theorem master_commands_on_the_wire:
  assumes crc: "crc_ok crcf g" and f: "view_wf (data_array f)" "253 \<le> view_size (data_array f)"
    and ws: "length ws \<le> 123"
  shows "rbind (ReadMultipleHoldingRegisters_FillFrame P a n f) (\<lambda>(_, f). send P crcf f) =
      Inr (request_adu P g (frame_address f) kReadMultipleHoldingRegisters (reg_bytes P [a, n])) \<and>
    rbind (ReadInputRegisters_FillFrame P a n f) (\<lambda>(_, f). send P crcf f) =
      Inr (request_adu P g (frame_address f) kReadInputRegisters (reg_bytes P [a, n])) \<and>
    rbind (WriteSingle_FillFrame P a n f) (\<lambda>(_, f). send P crcf f) =
      Inr (request_adu P g (frame_address f) kWriteSingleHoldingRegister (reg_bytes P [a, n])) \<and>
    rbind (WriteMultiple_FillFrame P a n (view_of ws) f) (\<lambda>(_, f). send P crcf f) =
      Inr (request_adu P g (frame_address f) kWriteMultipleHoldingRegisters
        (reg_bytes P [a, n] @ word_of_nat (2 * length ws) # reg_bytes P ws))"
proof -
  have f4: "has_bytes 4 f" and fw: "has_bytes (5 + 2 * length ws) f"
    using f ws by (simp_all add: has_bytes_def view_wf_def)
  have l4: "length (reg_bytes P [a, n]) = 4" by simp
  have s4: "send P crcf (f\<lparr>frame_function := fn, data_length := 4, data_array := (data_array f)\<lparr>view_data :=
        overwrite 0 (reg_bytes P [a, n]) (view_data (data_array f))\<rparr>\<rparr>) =
      Inr (request_adu P g (frame_address f) fn (reg_bytes P [a, n]))" for fn
    using send_request [OF crc _ f(1), of "reg_bytes P [a, n]" P fn] f4 by (simp only: l4 has_bytes_def)
  let ?data = "reg_bytes P [a, n] @ word_of_nat (2 * length ws) # reg_bytes P ws"
  have l: "length ?data = 5 + 2 * length ws" by simp
  have sw: "send P crcf (f\<lparr>frame_function := kWriteMultipleHoldingRegisters, data_length := 5 + 2 * length ws,
        data_array := (data_array f)\<lparr>view_data := overwrite 0 ?data (view_data (data_array f))\<rparr>\<rparr>) =
      Inr (request_adu P g (frame_address f) kWriteMultipleHoldingRegisters ?data)"
    using send_request [OF crc _ f(1), of ?data P kWriteMultipleHoldingRegisters] f(2) ws
    by (simp only: l)
  have w127: "length ws \<le> 127" using ws by simp
  show ?thesis
    by (simp only: ReadMultipleHoldingRegisters_FillFrame_def ReadInputRegisters_FillFrame_def
        FillFrame_read [OF f4] FillFrame_write_single [OF f4] FillFrame_write_multiple [OF fw f(1) w127]
        rbind_simps prod.case s4 sw simp_thms)
qed

theorem master_commands_on_the_wire_witness:
  "rbind (WriteMultiple_FillFrame (msb_platform True) 2 1 (view_of [200])
       ((Frame_of_view (view_of (replicate 253 0)))\<lparr>frame_address := 7\<rparr>))
     (\<lambda>(_, f). send (msb_platform True) (crc16 (msb_platform True) demo_crc) f) =
   Inr (with_crc (msb_platform True) demo_crc [7, 16, 0, 2, 0, 1, 2, 0, 200])"
  using master_commands_on_the_wire [OF crc16_ok,
      of "(Frame_of_view (view_of (replicate 253 0)))\<lparr>frame_address := 7\<rparr>" "[200]" "msb_platform True" 2 1
         "msb_platform True" demo_crc]
  by (simp add: Frame_of_view_def view_of_def view_wf_def request_adu_def del: rbind_eq_Inr)

theorem frame_then_read_frame_witness:
  "rbind (ProtocolRtu_Frame (msb_platform True) (crc16 (msb_platform True) demo_crc)
       \<lparr>frame_address = 7, frame_function = kReadInputRegisters, data_length = 4, data_array = view_of [0, 1, 0, 2]\<rparr>
       (view_of (replicate 8 0)))
     (\<lambda>(_, v'). rbind (ProtocolRtu_ReadFrame (msb_platform True) v' (Frame_of_view (view_of (replicate 4 9))))
       (\<lambda>(code, f'). Inr (code, frame_address f', frame_function f', data_length f',
          take (data_length f') (view_data (data_array f'))))) =
   Inr (0, 7, kReadInputRegisters, 4, [0, 1, 0, 2])"
  using frame_then_read_frame [where g = demo_crc and P = "msb_platform True" and
      crcf = "crc16 (msb_platform True) demo_crc" and v = "view_of (replicate 8 0)" and
      f = "\<lparr>frame_address = 7, frame_function = kReadInputRegisters, data_length = 4, data_array = view_of [0, 1, 0, 2]\<rparr>"
      and h = "Frame_of_view (view_of (replicate 4 9))"]
  by (simp add: has_bytes_def view_of_def view_wf_def Frame_of_view_def GetValidFunctions_def del: rbind_eq_Inr)

end
