(* ===== verification/FieldController.thy ===== *)
theory FieldController
  imports ModbusDefs
begin

text \<open>
  The block-based register memory: \<open>ByteField.h\<close>, \<open>ByteFieldController.h\<close>,
  \<open>RegisterController.h\<close> and \<open>Accessor.h\<close>. Blocks point to byte buffers; the buffers are
  kept in a list of their own, so that two blocks that share a buffer see each other's writes.
  Addresses and lengths are \<open>size_t\<close> and wrap as they do in the code.
\<close>

section \<open>Fields\<close>

record u8_Buffer =
  buf_bytes :: "u8 list"
  buf_size :: size_t

record U8Field =
  field_address :: size_t
  field_length :: size_t
  field_buffer :: nat

definition REGISTER_SIZE :: nat where
  "REGISTER_SIZE = 2"

fun fields_are_sorted_loop :: "U8Field list \<Rightarrow> size_t \<Rightarrow> bool" where
  "fields_are_sorted_loop [] next_start = True"
| "fields_are_sorted_loop (f # fs) next_start =
     (if field_address f < next_start then False
      else fields_are_sorted_loop fs (field_address f + field_length f))"

definition fields_are_sorted :: "U8Field list \<Rightarrow> bool" where
  "fields_are_sorted fs = fields_are_sorted_loop fs 0"

section \<open>ByteFieldController\<close>

definition block_end :: "U8Field \<Rightarrow> size_t" where
  "block_end f = field_address f + field_length f - 1"

fun find_block_loop :: "U8Field list \<Rightarrow> nat \<Rightarrow> size_t \<Rightarrow> nat" where
  "find_block_loop [] i address = i"
| "find_block_loop (f # fs) i address =
     (if address \<le> block_end f then i else find_block_loop fs (Suc i) address)"

definition find_block :: "U8Field list \<Rightarrow> size_t \<Rightarrow> nat" where
  "find_block entries address = find_block_loop entries 0 address"

definition get_field :: "U8Field list \<Rightarrow> nat \<Rightarrow> U8Field result" where
  "get_field entries block = (if block < length entries then Inr (entries ! block) else Inl OutOfBounds)"

definition access_valid :: "U8Field list \<Rightarrow> size_t \<Rightarrow> size_t \<Rightarrow> bool result" where
  "access_valid entries address len =
     rbind (get_field entries (find_block entries address)) (\<lambda>p_block.
     let read_end = address + len - 1 in
     Inr (address \<le> block_end p_block \<and> address \<ge> field_address p_block \<and> read_end \<le> block_end p_block))"

definition ByteFieldController_init :: "platform \<Rightarrow> U8Field list \<Rightarrow> U8Field list result" where
  "ByteFieldController_init P entries =
     rbind (c_assert P (fields_are_sorted entries)) (\<lambda>_. Inr entries)"

section \<open>RegisterController\<close>

record RegisterController =
  entries :: "U8Field list"
  buffers :: "u8_Buffer list"

definition RegisterController_init ::
  "platform \<Rightarrow> U8Field list \<Rightarrow> u8_Buffer list \<Rightarrow> RegisterController result" where
  "RegisterController_init P fs memory =
     rbind (ByteFieldController_init P fs) (\<lambda>fs. Inr \<lparr>entries = fs, buffers = memory\<rparr>)"

definition byte_get :: "u8_Buffer \<Rightarrow> size_t \<Rightarrow> u8 result" where
  "byte_get b i = (if unat i < length (buf_bytes b) then Inr (buf_bytes b ! unat i) else Inl OutOfBounds)"

definition byte_set :: "size_t \<Rightarrow> u8 \<Rightarrow> u8_Buffer \<Rightarrow> u8_Buffer result" where
  "byte_set i x b =
     (if unat i < length (buf_bytes b) then Inr (b\<lparr>buf_bytes := (buf_bytes b)[unat i := x]\<rparr>)
      else Inl OutOfBounds)"

definition get_buffer :: "RegisterController \<Rightarrow> U8Field \<Rightarrow> u8_Buffer result" where
  "get_buffer rc f =
     (if field_buffer f < length (buffers rc) then Inr (buffers rc ! field_buffer f) else Inl OutOfBounds)"

definition transfer_length :: "u8_Buffer \<Rightarrow> u8_Buffer \<Rightarrow> size_t \<Rightarrow> nat" where
  "transfer_length a b len = min (unat (min (buf_size a) (buf_size b)) div REGISTER_SIZE) (unat len)"

text \<open>
  The loop of \<open>read\<close> and, with the roles of the buffers and of the two indices exchanged, of
  \<open>write\<close>: register \<open>i\<close> goes from byte \<open>from + 2 i\<close> of \<open>src\<close> to byte \<open>to + 2 i\<close> of \<open>dst\<close>.
\<close>

function transfer_loop :: "u8_Buffer \<Rightarrow> size_t \<Rightarrow> size_t \<Rightarrow> nat \<Rightarrow> nat \<Rightarrow> u8_Buffer \<Rightarrow> u8_Buffer result" where
  "transfer_loop src from_address to_address n i dst =
     (if i < n
      then let byte_number = word_of_nat (REGISTER_SIZE * i) in
           rbind (byte_get src (from_address + byte_number)) (\<lambda>x.
           rbind (byte_set (to_address + byte_number) x dst) (\<lambda>dst.
           rbind (byte_get src (from_address + byte_number + 1)) (\<lambda>x.
           rbind (byte_set (to_address + byte_number + 1) x dst) (\<lambda>dst.
           transfer_loop src from_address to_address n (Suc i) dst))))
      else Inr dst)"
  by pat_completeness auto
termination
  by (relation "measure (\<lambda>(src, from_address, to_address, n, i, dst). n - i)") auto

declare transfer_loop.simps [simp del]

definition RegisterController_read ::
  "platform \<Rightarrow> RegisterController \<Rightarrow> size_t \<Rightarrow> size_t \<Rightarrow> u8_Buffer \<Rightarrow> (nat \<times> u8_Buffer) result" where
  "RegisterController_read P rc address len buffer =
     rbind (access_valid (entries rc) address len) (\<lambda>valid.
     if valid
     then rbind (get_field (entries rc) (find_block (entries rc) address)) (\<lambda>p_block.
          rbind (get_buffer rc p_block) (\<lambda>block_buffer.
          let n = transfer_length buffer block_buffer len in
          rbind (c_assert P (n > 0)) (\<lambda>_.
          rbind (transfer_loop block_buffer address 0 n 0 buffer) (\<lambda>buffer. Inr (n, buffer)))))
     else Inr (0, buffer))"

definition RegisterController_write ::
  "platform \<Rightarrow> RegisterController \<Rightarrow> size_t \<Rightarrow> size_t \<Rightarrow> u8_Buffer \<Rightarrow>
   (nat \<times> RegisterController) result" where
  "RegisterController_write P rc address len buffer =
     rbind (access_valid (entries rc) address len) (\<lambda>valid.
     if valid
     then rbind (get_field (entries rc) (find_block (entries rc) address)) (\<lambda>p_block.
          rbind (get_buffer rc p_block) (\<lambda>block_buffer.
          let n = transfer_length buffer block_buffer len in
          rbind (c_assert P (n > 0)) (\<lambda>_.
          rbind (transfer_loop buffer 0 address n 0 block_buffer) (\<lambda>block_buffer.
          Inr (n, rc\<lparr>buffers := (buffers rc)[field_buffer p_block := block_buffer]\<rparr>)))))
     else Inr (0, rc))"

section \<open>Accessor\<close>

record Accessor =
  p_holding_register :: RegisterController
  p_input_register :: RegisterController

definition Accessor_access_valid :: "Accessor \<Rightarrow> size_t \<Rightarrow> size_t \<Rightarrow> AddressSpace \<Rightarrow> bool result" where
  "Accessor_access_valid ac address len address_space =
     (case address_space of
        kHoldingRegister \<Rightarrow> access_valid (entries (p_holding_register ac)) address len
      | kInputRegister \<Rightarrow> access_valid (entries (p_input_register ac)) address len
      | _ \<Rightarrow> Inr False)"

definition Accessor_read ::
  "platform \<Rightarrow> Accessor \<Rightarrow> size_t \<Rightarrow> size_t \<Rightarrow> AddressSpace \<Rightarrow> u8_Buffer \<Rightarrow> (nat \<times> u8_Buffer) result" where
  "Accessor_read P ac address len address_space buffer =
     (case address_space of
        kHoldingRegister \<Rightarrow> RegisterController_read P (p_holding_register ac) address len buffer
      | kInputRegister \<Rightarrow> RegisterController_read P (p_input_register ac) address len buffer
      | _ \<Rightarrow> Inr (0, buffer))"

definition Accessor_write ::
  "platform \<Rightarrow> Accessor \<Rightarrow> size_t \<Rightarrow> size_t \<Rightarrow> AddressSpace \<Rightarrow> u8_Buffer \<Rightarrow> (nat \<times> Accessor) result" where
  "Accessor_write P ac address len address_space buffer =
     (case address_space of
        kHoldingRegister \<Rightarrow>
          rbind (RegisterController_write P (p_holding_register ac) address len buffer)
            (\<lambda>(n, rc). Inr (n, ac\<lparr>p_holding_register := rc\<rparr>))
      | kInputRegister \<Rightarrow>
          rbind (RegisterController_write P (p_input_register ac) address len buffer)
            (\<lambda>(n, rc). Inr (n, ac\<lparr>p_input_register := rc\<rparr>))
      | _ \<Rightarrow> Inr (0, ac))"

section \<open>Blocks as intervals\<close>

definition field_ok :: "U8Field \<Rightarrow> bool" where
  "field_ok f \<longleftrightarrow> 1 \<le> unat (field_length f) \<and> unat (field_address f) + unat (field_length f) < 2 ^ 64"

definition inside :: "size_t \<Rightarrow> size_t \<Rightarrow> U8Field \<Rightarrow> bool" where
  "inside address len f \<longleftrightarrow> unat (field_address f) \<le> unat address \<and>
     unat address + unat len \<le> unat (field_address f) + unat (field_length f)"

definition before :: "U8Field \<Rightarrow> U8Field \<Rightarrow> bool" where
  "before f h \<longleftrightarrow> unat (field_address f) + unat (field_length f) \<le> unat (field_address h)"

lemma unat_sum_64:
  fixes x y :: size_t
  shows "unat x + unat y < 2 ^ 64 \<Longrightarrow> unat (x + y) = unat x + unat y"
  by (simp add: unat_word_ariths)

lemma unat_last_64:
  fixes x y :: size_t
  assumes "unat x + unat y < 2 ^ 64" and "1 \<le> unat y"
  shows "unat (x + y - 1) = unat x + unat y - 1"
proof -
  have "unat (x + y) = unat x + unat y" using assms(1) by (rule unat_sum_64)
  moreover have "x + y \<noteq> 0" using assms calculation by auto
  ultimately show ?thesis by (simp add: unat_minus_one)
qed

lemma unat_block_end: "field_ok f \<Longrightarrow> unat (block_end f) = unat (field_address f) + unat (field_length f) - 1"
  by (simp add: field_ok_def block_end_def unat_last_64)

lemma fields_are_sorted_loop_iff:
  assumes "\<forall>f \<in> set fs. field_ok f"
  shows "fields_are_sorted_loop fs s \<longleftrightarrow>
    (\<forall>f \<in> set fs. s \<le> field_address f) \<and> sorted_wrt before fs"
  using assms
proof (induction fs arbitrary: s)
  case (Cons f fs)
  have e: "unat (field_address f + field_length f) = unat (field_address f) + unat (field_length f)"
    using Cons.prems by (intro unat_sum_64) (simp add: field_ok_def)
  then have "field_address f + field_length f \<le> field_address h \<longleftrightarrow> before f h" for h
    by (simp add: before_def word_le_nat_alt)
  moreover have "s \<le> field_address f \<Longrightarrow> before f h \<Longrightarrow> s \<le> field_address h" for h
    by (simp add: before_def word_le_nat_alt)
  ultimately show ?case
    using Cons by (auto simp: not_less)
qed simp

lemma find_block_loop_eq:
  "find_block_loop fs i a = i + length (takeWhile (\<lambda>f. block_end f < a) fs)"
  by (induction fs arbitrary: i) (auto simp: not_less)

lemma find_block_eq: "find_block fs a = length (takeWhile (\<lambda>f. block_end f < a) fs)"
  by (simp add: find_block_def find_block_loop_eq)

lemma find_block_less: "(find_block fs a < length fs) = (\<exists>f \<in> set fs. a \<le> block_end f)"
  unfolding find_block_eq by (induction fs) (auto simp: not_less)

text \<open>In a sorted list, the block that \<open>find_block\<close> stops at is the only one that can hold the address.\<close>

lemma find_block_inside:
  assumes ok: "\<forall>f \<in> set fs. field_ok f" and sorted: "sorted_wrt before fs"
    and len: "1 \<le> unat len"
    and b: "find_block fs a < length fs"
  shows "(\<exists>f \<in> set fs. inside a len f) \<longleftrightarrow> inside a len (fs ! find_block fs a)"
proof
  let ?b = "find_block fs a"
  assume "\<exists>f \<in> set fs. inside a len f"
  then obtain j where j: "j < length fs" "inside a len (fs ! j)" by (auto simp: in_set_conv_nth)
  have "\<not> j < ?b"
  proof
    assume "j < ?b"
    then have "block_end (fs ! j) < a"
      using set_takeWhileD [of "fs ! j" "\<lambda>f. block_end f < a" fs] nth_mem [of j "takeWhile (\<lambda>f. block_end f < a) fs"]
      by (simp add: find_block_eq takeWhile_nth)
    then show False
      using j ok len unat_block_end [of "fs ! j"] by (auto simp: inside_def word_less_nat_alt)
  qed
  moreover have "\<not> ?b < j"
  proof
    assume "?b < j"
    then have "before (fs ! ?b) (fs ! j)"
      using sorted j(1) by (simp add: sorted_wrt_iff_nth_less)
    moreover have "a \<le> block_end (fs ! ?b)"
      using b nth_length_takeWhile [of "\<lambda>f. block_end f < a" fs] by (simp add: find_block_eq not_less)
    moreover have "field_ok (fs ! ?b)" using ok b by simp
    ultimately show False
      using j(2) unat_block_end [of "fs ! ?b"]
      by (auto simp: before_def inside_def word_le_nat_alt field_ok_def)
  qed
  ultimately show "inside a len (fs ! ?b)" using j by (metis linorder_neqE_nat)
qed (use b in auto)

lemma access_valid_spec:
  assumes ok: "\<forall>f \<in> set fs. field_ok f" and sorted: "sorted_wrt before fs"
    and len: "1 \<le> unat len" and wrap: "unat a + unat len < 2 ^ 64"
  shows "access_valid fs a len =
    (if \<exists>f \<in> set fs. a \<le> block_end f then Inr (\<exists>f \<in> set fs. inside a len f) else Inl OutOfBounds)"
proof (cases "\<exists>f \<in> set fs. a \<le> block_end f")
  case True
  then have b: "find_block fs a < length fs"
    by (simp only: find_block_less)
  let ?f = "fs ! find_block fs a"
  have "unat (block_end ?f) = unat (field_address ?f) + unat (field_length ?f) - 1"
    using ok b by (simp add: unat_block_end)
  moreover have "unat (a + len - 1) = unat a + unat len - 1"
    using wrap len by (rule unat_last_64)
  moreover have "1 \<le> unat (field_length ?f)" using ok b by (simp add: field_ok_def)
  ultimately show ?thesis
    using True b find_block_inside [OF ok sorted len b] len
    by (auto simp: access_valid_def get_field_def inside_def word_le_nat_alt Let_def)
next
  case False
  then have "\<not> find_block fs a < length fs"
    by (simp only: find_block_less) simp
  then show ?thesis using False by (simp add: access_valid_def get_field_def)
qed

section \<open>The transfer loop\<close>

lemma unat_plus_nat_64:
  fixes a :: size_t
  shows "unat a + k < 2 ^ 64 \<Longrightarrow> unat (a + word_of_nat k) = unat a + k"
  by (simp add: unat_word_ariths unat_of_nat)

lemma transfer_loop_spec:
  assumes src: "unat f + 2 * n \<le> length (buf_bytes src)" and dst: "unat t + 2 * n \<le> length (buf_bytes dst)"
    and wrap: "length (buf_bytes src) < 2 ^ 64" "length (buf_bytes dst) < 2 ^ 64" and i: "i \<le> n"
  shows "transfer_loop src f t n i dst =
    Inr (dst\<lparr>buf_bytes := overwrite (unat t + 2 * i)
      (take (2 * (n - i)) (drop (unat f + 2 * i) (buf_bytes src))) (buf_bytes dst)\<rparr>)"
  using dst wrap(2) i
proof (induction "n - i" arbitrary: i dst)
  case 0
  then show ?case by (simp add: transfer_loop.simps)
next
  case (Suc m)
  then have i: "i < n" by simp
  have idx: "unat (f + word_of_nat (2 * i)) = unat f + 2 * i" "unat (t + word_of_nat (2 * i)) = unat t + 2 * i"
    "unat (f + word_of_nat (2 * i) + 1) = Suc (unat f + 2 * i)"
    "unat (t + word_of_nat (2 * i) + 1) = Suc (unat t + 2 * i)"
    using unat_plus_nat_64 [of f "2 * i"] unat_plus_nat_64 [of t "2 * i"]
      unat_plus_nat_64 [of f "Suc (2 * i)"] unat_plus_nat_64 [of t "Suc (2 * i)"] i src wrap Suc.prems
    by (simp_all add: add.assoc [symmetric] add.commute [of 1])
  let ?x = "buf_bytes src ! (unat f + 2 * i)" and ?y = "buf_bytes src ! Suc (unat f + 2 * i)"
  let ?dst = "dst\<lparr>buf_bytes := (buf_bytes dst)[unat t + 2 * i := ?x, Suc (unat t + 2 * i) := ?y]\<rparr>"
  have "transfer_loop src f t n i dst = transfer_loop src f t n (Suc i) ?dst"
    using i src Suc.prems idx
    by (subst transfer_loop.simps) (simp add: byte_get_def byte_set_def REGISTER_SIZE_def Let_def)
  also have "\<dots> = Inr (?dst\<lparr>buf_bytes := overwrite (unat t + 2 * Suc i)
      (take (2 * (n - Suc i)) (drop (unat f + 2 * Suc i) (buf_bytes src))) (buf_bytes ?dst)\<rparr>)"
    using Suc i by (intro Suc.hyps(1)) auto
  moreover have "take (2 * (n - i)) (drop (unat f + 2 * i) (buf_bytes src)) =
      ?x # ?y # take (2 * (n - Suc i)) (drop (unat f + 2 * Suc i) (buf_bytes src))"
  proof -
    have "2 * (n - i) = Suc (Suc (2 * (n - Suc i)))" using i by simp
    moreover have "drop (unat f + 2 * i) (buf_bytes src) = ?x # ?y # drop (unat f + 2 * Suc i) (buf_bytes src)"
      using src i by (simp add: Cons_nth_drop_Suc)
    ultimately show ?thesis by simp
  qed
  ultimately show ?case
    using Suc.prems i by (simp add: overwrite_Cons)
qed

section \<open>What the controller guarantees\<close>

definition buffer_wf :: "u8_Buffer \<Rightarrow> bool" where
  "buffer_wf b \<longleftrightarrow> unat (buf_size b) = length (buf_bytes b)"

lemma unat_size_t_less: "unat (x :: size_t) < 18446744073709551616"
  using unsigned_less [of x] by simp

lemma buffer_wf_bound: "buffer_wf b \<Longrightarrow> length (buf_bytes b) < 18446744073709551616"
  using unat_size_t_less [of "buf_size b"] by (simp add: buffer_wf_def)

lemma transfer_length_fits:
  assumes "buffer_wf a" and "buffer_wf b" and "2 * unat len \<le> length (buf_bytes a)"
    and "2 * unat len \<le> length (buf_bytes b)"
  shows "transfer_length a b len = unat len"
proof -
  have "2 * unat len \<le> unat (min (buf_size a) (buf_size b))"
    using assms by (simp add: buffer_wf_def min_def)
  then have "unat len \<le> unat (min (buf_size a) (buf_size b)) div 2" by linarith
  then show ?thesis by (simp add: transfer_length_def REGISTER_SIZE_def)
qed

text \<open>
  C30: over sorted, non-empty blocks that do not wrap, an access of one unit or more that starts at or
  before the end of the last block is valid exactly when a single block contains all of it. An access
  that starts behind the last block is not refused: \<open>find_block\<close> finds none, and the entry behind the
  last one is read. The test \<open>nomatching_block_access_invalid\<close> of \<open>test_RegisterController.cpp\<close>
  expects \<open>false\<close> for such an access, which the code gives only by what happens to be in memory there.
\<close>

theorem access_valid_iff_in_one_block:
  assumes ok: "\<forall>f \<in> set fs. field_ok f" and sorted: "fields_are_sorted fs"
    and len: "1 \<le> unat len" and wrap: "unat a + unat len < 2 ^ 64"
  shows "access_valid fs a len =
    (if \<exists>f \<in> set fs. a \<le> block_end f
     then Inr (\<exists>f \<in> set fs. unat (field_address f) \<le> unat a \<and>
            unat a + unat len \<le> unat (field_address f) + unat (field_length f))
     else Inl OutOfBounds)"
  using access_valid_spec [OF ok _ len wrap] sorted fields_are_sorted_loop_iff [OF ok, of 0]
  by (simp add: fields_are_sorted_def inside_def)

definition demo_fields :: "U8Field list" where
  "demo_fields = [\<lparr>field_address = 0, field_length = 512, field_buffer = 0\<rparr>,
                  \<lparr>field_address = 512, field_length = 512, field_buffer = 1\<rparr>]"

theorem access_valid_iff_in_one_block_witness:
  "access_valid demo_fields 1 511 = Inr True \<and> access_valid demo_fields 1 512 = Inr False \<and>
   access_valid demo_fields 1024 1 = Inl OutOfBounds"
proof -
  have ok: "\<forall>f \<in> set demo_fields. field_ok f" "fields_are_sorted demo_fields"
    by (simp_all add: demo_fields_def field_ok_def fields_are_sorted_def)
  show ?thesis
    using access_valid_iff_in_one_block [OF ok, of 511 1] access_valid_iff_in_one_block [OF ok, of 512 1]
      access_valid_iff_in_one_block [OF ok, of 1 1024]
    by (simp add: demo_fields_def block_end_def)
qed

text \<open>
  C31: a valid access to a block whose buffer has the bytes from the access's address on, the address
  counted in bytes from the start of the buffer and not of the block: \<open>write\<close> puts the values there and
  nowhere else, in the block's buffer alone, and \<open>read\<close> gets them back; both report all registers.
\<close>

theorem controller_write_then_read:
  assumes valid: "access_valid (entries rc) a len = Inr True" and len: "1 \<le> unat len"
    and f: "find_block (entries rc) a < length (entries rc)" "f = entries rc ! find_block (entries rc) a"
    and b: "field_buffer f < length (buffers rc)" "block = buffers rc ! field_buffer f"
    and block: "buffer_wf block" "unat a + 2 * unat len \<le> length (buf_bytes block)"
    and src: "buffer_wf src" "2 * unat len \<le> length (buf_bytes src)"
    and out: "buffer_wf out" "2 * unat len \<le> length (buf_bytes out)"
    and vals: "vals = take (2 * unat len) (buf_bytes src)"
    and rc': "rc' = rc\<lparr>buffers := (buffers rc)[field_buffer f :=
        block\<lparr>buf_bytes := take (unat a) (buf_bytes block) @ vals @ drop (unat a + 2 * unat len) (buf_bytes block)\<rparr>]\<rparr>"
  shows "RegisterController_write P rc a len src = Inr (unat len, rc') \<and>
    RegisterController_read P rc' a len out =
      Inr (unat len, out\<lparr>buf_bytes := vals @ drop (2 * unat len) (buf_bytes out)\<rparr>)"
proof -
  have n: "length vals = 2 * unat len" using src vals by simp
  let ?block = "block\<lparr>buf_bytes := overwrite (unat a) vals (buf_bytes block)\<rparr>"
  have rc'': "rc' = rc\<lparr>buffers := (buffers rc)[field_buffer f := ?block]\<rparr>"
    by (simp add: rc' overwrite_def n)
  have "transfer_loop src 0 a (unat len) 0 block = Inr ?block"
    using transfer_loop_spec [of 0 "unat len" src a block 0] src block
    by (simp add: buffer_wf_bound vals)
  moreover have "transfer_length src block len = unat len"
    using transfer_length_fits [OF src(1) block(1)] src(2) block(2) by simp
  ultimately have w: "RegisterController_write P rc a len src = Inr (unat len, rc')"
    using valid f b len
    by (simp add: RegisterController_write_def get_field_def get_buffer_def c_assert_def Let_def rc'')
  have wf: "buffer_wf ?block" using block n by (simp add: buffer_wf_def)
  have "take (2 * unat len) (drop (unat a) (buf_bytes ?block)) = vals"
    using take_drop_overwrite [of "unat a" vals "buf_bytes block"] n block by simp
  then have "transfer_loop ?block a 0 (unat len) 0 out =
      Inr (out\<lparr>buf_bytes := vals @ drop (2 * unat len) (buf_bytes out)\<rparr>)"
    using transfer_loop_spec [of a "unat len" ?block 0 out 0] wf block n out
    by (simp add: buffer_wf_bound overwrite_def)
  moreover have "transfer_length out ?block len = unat len"
    using transfer_length_fits [OF out(1) wf] block n out(2) by simp
  ultimately have "RegisterController_read P rc' a len out =
      Inr (unat len, out\<lparr>buf_bytes := vals @ drop (2 * unat len) (buf_bytes out)\<rparr>)"
    using valid f b len
    by (simp add: RegisterController_read_def get_field_def get_buffer_def c_assert_def Let_def rc'')
  then show ?thesis using w by simp
qed

definition demo_controller :: RegisterController where
  "demo_controller = \<lparr>entries = demo_fields,
     buffers = [\<lparr>buf_bytes = replicate 64 0, buf_size = 64\<rparr>, \<lparr>buf_bytes = replicate 64 0, buf_size = 64\<rparr>]\<rparr>"

definition demo_values :: u8_Buffer where
  "demo_values = \<lparr>buf_bytes = [255, 250, 173, 221], buf_size = 4\<rparr>"

definition demo_written :: RegisterController where
  "demo_written = \<lparr>entries = demo_fields,
     buffers = [\<lparr>buf_bytes = [0, 0, 0, 255, 250, 173, 221] @ replicate 57 0, buf_size = 64\<rparr>,
                \<lparr>buf_bytes = replicate 64 0, buf_size = 64\<rparr>]\<rparr>"

theorem controller_write_then_read_witness:
  "RegisterController_write (msb_platform True) demo_controller 3 2 demo_values = Inr (2, demo_written) \<and>
   RegisterController_read (msb_platform True) demo_written 3 2 \<lparr>buf_bytes = [0, 0, 0, 0], buf_size = 4\<rparr> =
     Inr (2, \<lparr>buf_bytes = [255, 250, 173, 221], buf_size = 4\<rparr>)"
proof -
  have b: "find_block (entries demo_controller) 3 = 0"
    by (simp add: demo_controller_def demo_fields_def find_block_def block_end_def)
  have "access_valid (entries demo_controller) 3 2 = Inr True"
    by (simp add: access_valid_def get_field_def b) (simp add: demo_controller_def demo_fields_def block_end_def)
  note valid = this
  let ?f = "demo_fields ! 0" and ?block = "\<lparr>buf_bytes = replicate 64 0, buf_size = 64\<rparr>"
  have f: "find_block (entries demo_controller) 3 < length (entries demo_controller)"
    "?f = entries demo_controller ! find_block (entries demo_controller) 3"
    unfolding b by (simp_all add: demo_controller_def demo_fields_def)
  have k: "field_buffer ?f = 0" by (simp add: demo_fields_def)
  have bl: "field_buffer ?f < length (buffers demo_controller)" "?block = buffers demo_controller ! field_buffer ?f"
    unfolding k by (simp_all add: demo_controller_def)
  have bytes: "take 3 (replicate 64 0) @ [255, 250, 173, 221] @ drop 7 (replicate 64 0) =
      [0, 0, 0, 255, 250, 173, 221] @ replicate 57 (0 :: u8)"
    by (simp add: take_replicate drop_replicate) (simp add: numeral_3_eq_3)
  have "demo_written = demo_controller\<lparr>buffers := (buffers demo_controller)[field_buffer ?f := ?block
      \<lparr>buf_bytes := take (unat (3 :: size_t)) (buf_bytes ?block) @ [255, 250, 173, 221] @
        drop (unat (3 :: size_t) + 2 * unat (2 :: size_t)) (buf_bytes ?block)\<rparr>]\<rparr>"
    unfolding k using bytes by (simp add: demo_controller_def demo_written_def)
  note written = this
  let ?out = "\<lparr>buf_bytes = [0, 0, 0, 0], buf_size = 4\<rparr>"
  have block: "buffer_wf ?block" "unat (3 :: size_t) + 2 * unat (2 :: size_t) \<le> length (buf_bytes ?block)"
    by (simp_all add: buffer_wf_def)
  have src: "buffer_wf demo_values" "2 * unat (2 :: size_t) \<le> length (buf_bytes demo_values)"
    "[255, 250, 173, 221] = take (2 * unat (2 :: size_t)) (buf_bytes demo_values)"
    by (simp_all add: buffer_wf_def demo_values_def)
  have out: "buffer_wf ?out" "2 * unat (2 :: size_t) \<le> length (buf_bytes ?out)"
    by (simp_all add: buffer_wf_def)
  have len: "1 \<le> unat (2 :: size_t)" by simp
  show ?thesis
    using controller_write_then_read [OF valid len f bl block src(1,2) out src(3) written, of "msb_platform True"]
    by simp
qed

text \<open>
  C33: the buffer of a block is indexed with the absolute address and not with the offset in the
  block: a valid access at an address that is not less than the size of the block's buffer, as it is
  for every access to the second block of the tests, leaves the buffer, for the read and for the
  write.
\<close>

theorem controller_indexes_by_address:
  assumes valid: "access_valid (entries rc) a len = Inr True" and len: "1 \<le> unat len"
    and f: "find_block (entries rc) a < length (entries rc)" "f = entries rc ! find_block (entries rc) a"
    and b: "field_buffer f < length (buffers rc)" "block = buffers rc ! field_buffer f"
    and block: "buffer_wf block" "2 * unat len \<le> length (buf_bytes block)" "length (buf_bytes block) \<le> unat a"
    and buf: "buffer_wf buffer" "2 * unat len \<le> length (buf_bytes buffer)"
  shows "RegisterController_read P rc a len buffer = Inl OutOfBounds \<and>
    RegisterController_write P rc a len buffer = Inl OutOfBounds"
proof -
  have n: "transfer_length buffer block len = unat len"
    using transfer_length_fits [OF buf(1) block(1)] block(2) buf(2) by simp
  have "transfer_loop block a 0 (unat len) 0 buffer = Inl OutOfBounds"
    using len block(3) by (simp add: transfer_loop.simps byte_get_def Let_def)
  moreover have "transfer_loop buffer 0 a (unat len) 0 block = Inl OutOfBounds"
    using len block(3) buf(2) by (simp add: transfer_loop.simps byte_get_def byte_set_def Let_def)
  ultimately show ?thesis
    using valid f b len n
    by (simp add: RegisterController_read_def RegisterController_write_def get_field_def get_buffer_def
        c_assert_def Let_def)
qed

theorem controller_indexes_by_address_witness:
  "RegisterController_read (msb_platform True) demo_controller 512 1 demo_values = Inl OutOfBounds \<and>
   RegisterController_write (msb_platform True) demo_controller 512 1 demo_values = Inl OutOfBounds"
proof -
  have b: "find_block (entries demo_controller) 512 = 1"
    by (simp add: demo_controller_def demo_fields_def find_block_def block_end_def)
  have "access_valid (entries demo_controller) 512 1 = Inr True"
    by (simp add: access_valid_def get_field_def b) (simp add: demo_controller_def demo_fields_def block_end_def)
  from controller_indexes_by_address [OF this, of "demo_fields ! 1" "buffers demo_controller ! 1" demo_values "msb_platform True"]
  show ?thesis
    by (simp add: b) (simp add: demo_controller_def demo_fields_def demo_values_def buffer_wf_def)
qed

end
