(* ===== verification/Session.thy ===== *)
theory Session
  imports Device
begin

text \<open>
  Several requests in a row, and what a message can do to the device at all: the invariant
  that every exchange keeps, what a master reads after it wrote, which messages can change a
  register, and the requests the reply buffer and the frame buffer cannot hold.
\<close>

section \<open>The invariant\<close>

lemma device_exchange_within:
  assumes P: "platform_ok P" and wf: "device_wf g sl" and req: "request_within P fn a n rest"
  obtains sl' r where
    "device_exchange P sl (request_adu P g addr fn (reg_bytes P [a, n] @ rest)) = Inr sl'"
    "device_wf g (Slave_Reset sl')" "slave_address sl' = slave_address sl"
    "outcome (Inr sl') = Inr (r, holding_store sl', input_store sl')" "length (reply_bytes r) \<le> 256"
  using device_stores.exchange_within [OF P wf [unfolded device_wf_ready] req, of addr thesis]
  unfolding device_wf_ready device_exchange_def by blast

lemma device_exchange_wf:
  assumes "platform_ok P" and "device_wf g sl" and "good_request fn (reg_bytes P [a, n] @ rest)"
    and "length rest \<le> 248"
    and "fn \<in> {kReadMultipleHoldingRegisters, kReadInputRegisters} \<Longrightarrow> unat n \<le> 125"
    and "fn \<noteq> kWriteSingleHoldingRegister \<Longrightarrow> n \<noteq> 0"
  shows "\<exists>sl'. device_exchange P sl (request_adu P g addr fn (reg_bytes P [a, n] @ rest)) = Inr sl' \<and>
    device_wf g (Slave_Reset sl') \<and> slave_address sl' = slave_address sl"
proof -
  have "request_within P fn a n rest" using assms(3-) unfolding request_within_def by blast
  from device_exchange_within [OF assms(1,2) this, of addr] show ?thesis by blast
qed

section \<open>Reading back what was written\<close>

lemma outcome_InrE:
  assumes "outcome r = Inr (x, h, i)"
  obtains sl where "r = Inr sl" "holding_store sl = h" "input_store sl = i"
    "x \<noteq> None \<longrightarrow> Response_bytes (slave_response (base sl)) = Inr (the x)"
  using assms by (cases r) (auto simp: outcome_def split: if_splits)

text \<open>
  C11: a master that writes 1 to 123 registers and then reads the same registers back gets
  exactly the bytes it wrote, when the block lies inside the bank.
\<close>

theorem write_then_read_registers:
  assumes P: "platform_ok P" and wf: "device_wf g sl"
    and n: "1 \<le> unat n" "unat n \<le> 123" and vals: "length vals = 2 * unat n"
    and range: "in_range (registers (holding_store sl)) a n"
  shows "rbind (rbind (device_exchange P sl (request_adu P g (slave_address sl)
            kWriteMultipleHoldingRegisters (reg_bytes P [a, n] @ word_of_nat (2 * unat n) # vals)))
          (\<lambda>sl1. device_exchange P (Slave_Reset sl1) (request_adu P g (slave_address sl)
            kReadMultipleHoldingRegisters (reg_bytes P [a, n]))))
        (\<lambda>sl2. Response_bytes (slave_response (base sl2))) =
    Inr (with_crc P g ([slave_address sl, 3, word_of_nat (2 * unat n)] @ vals))"
proof -
  let ?wr = "request_adu P g (slave_address sl) kWriteMultipleHoldingRegisters
    (reg_bytes P [a, n] @ word_of_nat (2 * unat n) # vals)"
  let ?h = "(holding_store sl)
    \<lparr>registers := overwrite (unat a) (bytes_regs P vals) (registers (holding_store sl)),
     flags := overwrite (unat a) (replicate (unat n) True) (flags (holding_store sl))\<rparr>"
  have n0: "n \<noteq> 0" using n by auto
  have bc: "unat (word_of_nat (2 * unat n) :: u8) = 2 * unat n"
    using n by (simp only: unat_word_of_nat_u8) simp
  have good: "good_request kWriteMultipleHoldingRegisters
      (reg_bytes P [a, n] @ word_of_nat (2 * unat n) # vals)"
    by (rule good_write_request) (use vals n bc in simp_all)
  have r: "unat a + unat n \<le> length (registers (holding_store sl))"
    using range by (simp add: in_range_def)
  obtain sl1 where sl1: "device_exchange P sl ?wr = Inr sl1" "holding_store sl1 = ?h"
    using write_multiple_outcome [OF P wf n(1) vals n(2), of a] range
    by (simp only: if_True) (erule outcome_InrE, blast)
  have wf1: "device_wf g (Slave_Reset sl1)" and addr: "slave_address sl1 = slave_address sl"
    using device_exchange_wf [OF P wf good, of "slave_address sl"] sl1(1) n0 n vals by auto
  have reset: "holding_store (Slave_Reset sl1) = ?h" "slave_address (Slave_Reset sl1) = slave_address sl"
    using sl1(2) addr by (simp_all add: Slave_Reset_def)
  have "take (unat n) (drop (unat a) (registers ?h)) = bytes_regs P vals"
    using take_drop_overwrite [of "unat a" "bytes_regs P vals" "registers (holding_store sl)"] r vals
    by simp
  then have regs: "reg_bytes P (take (unat n) (drop (unat a) (registers ?h))) = vals"
    using P vals by (simp only:) (simp add: reg_bytes_bytes_regs)
  have "in_range (registers ?h) a n"
    using range r vals by (simp add: in_range_def)
  then have "outcome (device_exchange P (Slave_Reset sl1) (request_adu P g (slave_address sl)
        kReadMultipleHoldingRegisters (reg_bytes P [a, n]))) =
      Inr (Some (with_crc P g ([slave_address sl, 3, word_of_nat (2 * unat n)] @ vals)),
           ?h, input_store (Slave_Reset sl1))"
    using read_holding_outcome [OF P wf1 n(1), of a] n(2) by (simp only: reset regs if_True)
  then obtain sl2 where "device_exchange P (Slave_Reset sl1) (request_adu P g (slave_address sl)
        kReadMultipleHoldingRegisters (reg_bytes P [a, n])) = Inr sl2"
      "Response_bytes (slave_response (base sl2)) =
       Inr (with_crc P g ([slave_address sl, 3, word_of_nat (2 * unat n)] @ vals))"
    by (rule outcome_InrE) simp
  then show ?thesis
    by (simp only: sl1(1) rbind_simps)
qed

theorem write_then_read_registers_witness:
  "rbind (rbind (device_exchange (msb_platform True) demo_device (request_adu (msb_platform True)
       demo_crc 7 kWriteMultipleHoldingRegisters
         (reg_bytes (msb_platform True) [2, 2] @ [4, 1, 2, 3, 4])))
     (\<lambda>sl. device_exchange (msb_platform True) (Slave_Reset sl) (request_adu (msb_platform True)
       demo_crc 7 kReadMultipleHoldingRegisters (reg_bytes (msb_platform True) [2, 2]))))
     (\<lambda>sl. Response_bytes (slave_response (base sl))) =
   Inr (with_crc (msb_platform True) demo_crc [7, 3, 4, 1, 2, 3, 4])"
  using write_then_read_registers [OF msb_platform_ok demo_device_wf, of 2 "[1, 2, 3, 4]" 2 True]
  by (simp add: in_range_def del: rbind_eq_Inr)

section \<open>What a message can change\<close>

lemma RunCommand_writes:
  assumes "RunCommand P TH TI sl f = Inr (code, sl')"
  shows "input_store sl' = input_store sl" and "slave_address sl' = slave_address sl"
    and "holding_store sl' = holding_store sl \<or>
         frame_function f \<in> {kWriteSingleHoldingRegister, kWriteMultipleHoldingRegisters}"
proof -
  obtain space c r store b where
    run: "(case space of
             kInputRegister \<Rightarrow> rbind (Input_ReadFrame P TI (input_store sl) f Response_init)
               (\<lambda>(c, r). Inr (c, r, holding_store sl))
           | kHoldingRegister \<Rightarrow> Holding_ReadFrame P TH (holding_store sl) f Response_init
           | _ \<Rightarrow> Inr (-1, Response_init, holding_store sl)) = Inr (c, r, store)"
    and sl': "sl' = sl\<lparr>holding_store := store, base := b\<rparr>"
    using assms by (auto simp: RunCommand_def Let_def)
  show "input_store sl' = input_store sl" "slave_address sl' = slave_address sl"
    by (simp_all add: sl')
  show "holding_store sl' = holding_store sl \<or>
      frame_function f \<in> {kWriteSingleHoldingRegister, kWriteMultipleHoldingRegisters}"
    using run by (cases space) (auto simp: sl' Holding_ReadFrame_def split: if_splits)
qed

lemma ProcessMessage_keeps:
  assumes "ProcessMessage P TH TI filter_address sl = Inr sl'"
  shows "input_store sl' = input_store sl" and "slave_address sl' = slave_address sl"
  using assms RunCommand_writes(1,2) [of P TH TI sl "GetFrameIn sl"]
  by (auto simp: ProcessMessage_def Let_def split: if_splits)

text \<open>
  C21: for every store and every frame, a message changes the holding registers only if it is
  addressed to this slave (or addresses are not filtered), its CRC is right, it passed the
  validation and its function is one of the two writes. The input registers and the slave's
  address never change.
\<close>

theorem only_acknowledged_writes_change_registers:
  assumes "ProcessMessage P TH TI filter_address sl = Inr sl'"
  shows "input_store sl' = input_store sl \<and> slave_address sl' = slave_address sl \<and>
    (holding_store sl' = holding_store sl \<or>
     (\<not> filter_address \<or> frame_address (GetFrameIn sl) = slave_address sl) \<and>
     FrameCrcIsValid P (slave_crc (base sl)) (GetFrameIn sl) = Inr True \<and>
     ValidateMessage P TH TI sl (GetFrameIn sl) = Inr kAck \<and>
     frame_function (GetFrameIn sl) \<in> {kWriteSingleHoldingRegister, kWriteMultipleHoldingRegisters})"
  using assms RunCommand_writes [of P TH TI sl "GetFrameIn sl"]
  by (auto simp: ProcessMessage_def Let_def split: if_splits)

theorem only_acknowledged_writes_change_registers_witness:
  "\<exists>sl sl'. ProcessMessage (msb_platform True) (UpdatingRegisterDataStore_ops (msb_platform True))
       (RegisterDataStore_ops (msb_platform True)) True sl = Inr sl' \<and>
     registers (holding_store sl) = [1, 2, 3, 4] \<and> registers (holding_store sl') = [1, 9, 256, 4] \<and>
     FrameCrcIsValid (msb_platform True) (slave_crc (base sl)) (GetFrameIn sl) = Inr True"
proof -
  let ?P = "msb_platform True" and ?data = "reg_bytes (msb_platform True) [1, 2] @ [4, 0, 9, 1, 0]"
  let ?adu = "request_adu ?P demo_crc 7 kWriteMultipleHoldingRegisters ?data"
  have good: "good_request kWriteMultipleHoldingRegisters ?data"
    by (rule good_write_request) simp_all
  have l: "listening demo_device"
    using demo_device_wf by (simp add: device_wf_def)
  obtain d where feed: "Slave_ProcessCharacters ?P demo_device ?adu = Inr d"
    and d: "holding_store d = demo_holding"
    using feed_request_adu [OF l good, of ?P demo_crc 7] by (metis delivered_simps(4) demo_device_simps(1))
  have "outcome (device_exchange ?P demo_device ?adu) = Inr (Some (with_crc ?P demo_crc [7, 16, 0, 1, 0, 2]),
      demo_holding\<lparr>registers := overwrite 1 (bytes_regs ?P [0, 9, 1, 0]) [1, 2, 3, 4],
        flags := overwrite 1 (replicate 2 True) [False, False, False, False]\<rparr>, demo_input)"
    using write_multiple_outcome [OF msb_platform_ok demo_device_wf, of 2 "[0, 9, 1, 0]" True 1]
    by (simp add: in_range_def)
  then obtain sl' where sl': "device_exchange ?P demo_device ?adu = Inr sl'"
    "registers (holding_store sl') = [1, 9, 256, 4]"
    by (rule outcome_InrE) (simp add: overwrite_def)
  have run: "ProcessMessage ?P (UpdatingRegisterDataStore_ops ?P) (RegisterDataStore_ops ?P) True d = Inr sl'"
    using sl'(1) by (simp only: device_exchange_def exchange_def feed rbind_simps)
  have "registers (holding_store d) \<noteq> registers (holding_store sl')"
    using sl'(2) d by simp
  then have "holding_store sl' \<noteq> holding_store d" by auto
  then have "FrameCrcIsValid ?P (slave_crc (base d)) (GetFrameIn d) = Inr True"
    using only_acknowledged_writes_change_registers [OF run] by blast
  moreover have "registers (holding_store d) = [1, 2, 3, 4]" using d by simp
  ultimately show ?thesis
    using run sl'(2) by blast
qed

section \<open>Requests that the buffers cannot hold\<close>

text \<open>
  C37: the reader does not bound the byte count of a Write Multiple Holding Registers request:
  with 250 data bytes or more, the 257th byte of the body is written past the frame buffer.
\<close>

theorem oversized_write_overruns_frame_buffer:
  assumes l: "listening sl" and body: "length body = 257" and bc: "250 \<le> unat (body ! 4)"
  shows "Slave_ProcessCharacters P sl (addr # 16 # body) = Inl OutOfBounds"
proof -
  let ?fn = kWriteMultipleHoldingRegisters and ?f = "slave_framein (base sl)"
  have "256 < body_length ?fn body"
    using bc by (simp add: body_length_def meta_length_cases)
  from ProcessCharacters_overflow [OF _ _ _ _ body this, of ?f P addr]
  have "ProcessCharacters P ReadContext_init ?f (addr # 16 # body) = Inl OutOfBounds"
    using l by (simp add: listening_def GetFrameIn_def GetValidFunctions_def)
  then show ?thesis
    using l by (simp only: Slave_ProcessCharacters_eq listening_def rbind_simps)
qed

theorem oversized_write_overruns_frame_buffer_witness:
  "Slave_ProcessCharacters (msb_platform True) demo_device (7 # 16 # replicate 257 255) = Inl OutOfBounds"
  by (rule oversized_write_overruns_frame_buffer)
    (use demo_device_wf in \<open>simp_all add: device_wf_def\<close>)

text \<open>
  C38: with 248 or 249 data bytes the request still fits the frame buffer, but the copy that the
  CRC check makes does not: a message addressed to the slave runs past it, whatever its CRC.
\<close>

theorem long_write_overruns_crc_buffer:
  assumes wf: "device_wf g sl"
    and body: "length body = 7 + unat (body ! 4)" and bc: "unat (body ! 4) \<in> {248, 249}"
  shows "device_exchange P sl (slave_address sl # 16 # body) = Inl OutOfBounds"
proof -
  let ?fn = kWriteMultipleHoldingRegisters
  let ?d = "delivered (slave_address sl) ?fn body sl"
  have l: "listening sl" using wf by (simp add: device_wf_def)
  have len: "length body \<le> 256" "255 \<le> length body" using body bc by auto
  have bl: "length body = body_length ?fn body"
    using body by (simp add: body_length_def meta_length_cases)
  have feed: "Slave_ProcessCharacters P sl (slave_address sl # 16 # body) = Inr ?d"
    using ProcessCharacters_adu [OF l _ bl len(1), of P "slave_address sl"]
    by (simp only: Function_code.simps) (simp add: GetValidFunctions_def)
  have hb: "n \<le> 256 \<Longrightarrow> has_bytes n (GetFrameIn ?d)" for n
    using delivered_bytes(1,2) [OF l len(1)] by (simp add: has_bytes_def)
  obtain e where "ValidateMessage P (UpdatingRegisterDataStore_ops P) (RegisterDataStore_ops P) ?d (GetFrameIn ?d) = Inr e"
    using hb [of 5] by (auto simp: ValidateMessage_def implimented_functions_def
        GetAddressSpaceFromFunction_def Holding_ValidateFrame_spec)
  moreover have "FrameCrcIsValid P (slave_crc (base sl)) (GetFrameIn ?d) = Inl OutOfBounds"
    using FrameCrcIsValid_overrun hb [of 255] len(2) by simp
  ultimately have "ProcessMessage P (UpdatingRegisterDataStore_ops P) (RegisterDataStore_ops P) True ?d =
      Inl OutOfBounds"
    by (simp add: ProcessMessage_def Let_def)
  then show ?thesis
    by (simp only: device_exchange_def exchange_def feed rbind_simps)
qed

theorem long_write_overruns_crc_buffer_witness:
  "device_exchange (msb_platform True) demo_device (7 # 16 # replicate 255 248) = Inl OutOfBounds"
  using long_write_overruns_crc_buffer [OF demo_device_wf, of "replicate 255 248" "msb_platform True"]
  by simp

section \<open>Reads that the reply cannot hold, and empty reads\<close>

text \<open>A device with 200 holding registers, to evaluate on.\<close>

definition demo_large_holding :: UpdatingRegisterDataStore where
  "demo_large_holding = \<lparr>registers = replicate 200 5, flags = replicate 200 False\<rparr>"

definition demo_large :: device where
  "demo_large = ProtocolRtuSlave_init (crc16 (msb_platform True) demo_crc) 7 demo_large_holding demo_input"

lemma demo_large_wf: "device_wf demo_crc demo_large"
  unfolding demo_large_def
  by (rule ProtocolRtuSlave_init_wf)
    (simp_all add: demo_large_holding_def demo_input_def updating_wf_def store_wf_def)

lemma demo_large_simps [simp]:
  "holding_store demo_large = demo_large_holding" "slave_address demo_large = 7"
  "registers demo_large_holding = replicate 200 5"
  by (simp_all add: demo_large_def ProtocolRtuSlave_init_def demo_large_holding_def)

text \<open>An acknowledged read of holding registers, up to the two calls that build the reply.\<close>

lemma read_holding_exchange:
  assumes P: "platform_ok P" and wf: "device_wf g sl" and range: "in_range (registers (holding_store sl)) a n"
    and d: "d = delivered (slave_address sl) kReadMultipleHoldingRegisters ((reg_bytes P [a, n] @ []) @
         reg_bytes P [g (slave_address sl # 3 # reg_bytes P [a, n])]) sl"
  shows "device_exchange P sl (request_adu P g (slave_address sl) kReadMultipleHoldingRegisters (reg_bytes P [a, n])) =
    rbind (RunReadMultipleHoldingRegisters P (UpdatingRegisterDataStore_ops P) (holding_store sl)
             (GetFrameIn d) Response_init) (\<lambda>(code, r).
    if code = 0 then rbind (FrameResponse P (slave_crc (base sl)) (GetFrameIn d) r) (\<lambda>(_, r).
      Inr (d\<lparr>base := (base d)\<lparr>slave_response_valid := True, slave_response := r\<rparr>\<rparr>))
    else Inr (d\<lparr>base := (base d)\<lparr>slave_response := r\<rparr>\<rparr>))"
proof -
  let ?fn = kReadMultipleHoldingRegisters and ?w = "g (slave_address sl # 3 # reg_bytes P [a, n])"
  note w = wf [unfolded device_wf_def slave_wf_def]
  have l: "listening sl" and crc: "crc_ok (slave_crc (base sl)) g" using w by simp_all
  have good: "good_request ?fn (reg_bytes P [a, n])" by simp
  note body = good_request_body [OF good, where P = P and w = ?w]
  have fn: "?fn \<in> set GetValidFunctions" by (simp add: GetValidFunctions_def)
  have d': "d = delivered (slave_address sl) ?fn (reg_bytes P [a, n] @ reg_bytes P [?w]) sl"
    by (simp only: d append_Nil2)
  have feed: "Slave_ProcessCharacters P sl (request_adu P g (slave_address sl) ?fn (reg_bytes P [a, n])) = Inr d"
    using feed_request_adu [OF l good, of P g "slave_address sl"]
    by (simp only: d' Function_code.simps)
  have f: "request_wf (GetFrameIn d)"
    unfolding d' by (rule delivered_wf [OF l fn body])
  have c: "crc_matches P g (GetFrameIn d)"
    unfolding d' by (rule delivered_crc [OF P l _ ]) simp_all
  note fields = request_fields(1-4) [OF P l _ d]
  have "verdict P (UpdatingRegisterDataStore_ops P) (RegisterDataStore_ops P) (holding_store sl)
      (input_store sl) (GetFrameIn d) = kAck"
    using fields w range by (simp add: verdict_def implimented_functions_def holding_verdict_def)
  moreover have "slave_crc (base d) = slave_crc (base sl)" "holding_store d = holding_store sl"
    "input_store d = input_store sl" "slave_address d = slave_address sl"
    by (simp_all add: d)
  moreover have same: "d\<lparr>holding_store := holding_store sl\<rparr> = d"
    by (simp add: d delivered_def)
  ultimately have "ProcessMessage P (UpdatingRegisterDataStore_ops P) (RegisterDataStore_ops P) True d =
    rbind (RunReadMultipleHoldingRegisters P (UpdatingRegisterDataStore_ops P) (holding_store sl)
             (GetFrameIn d) Response_init) (\<lambda>(code, r).
    if code = 0 then rbind (FrameResponse P (slave_crc (base sl)) (GetFrameIn d) r) (\<lambda>(_, r).
      Inr (d\<lparr>base := (base d)\<lparr>slave_response_valid := True, slave_response := r\<rparr>\<rparr>))
    else Inr (d\<lparr>base := (base d)\<lparr>slave_response := r\<rparr>\<rparr>))"
    using device_stores.ValidateMessage_spec [OF f] request_wf_crc [OF crc f] c fields
    by (simp add: ProcessMessage_def RunCommand_def GetAddressSpaceFromFunction_def Holding_ReadFrame_def
        SetResponse_def SetResponseValid_def Let_def rbind_def split: sum.splits prod.splits)
  then show ?thesis
    by (simp only: device_exchange_def exchange_def feed rbind_simps)
qed

text \<open>
  C36: nothing limits the register count of a read: a request for 127 registers or more of a
  bank that has them is acknowledged, and its data runs past the reply buffer.
\<close>

theorem long_read_overruns_reply:
  assumes P: "platform_ok P" and wf: "device_wf g sl" and range: "in_range (registers (holding_store sl)) a n"
    and n: "127 \<le> unat n"
  shows "device_exchange P sl (request_adu P g (slave_address sl) kReadMultipleHoldingRegisters (reg_bytes P [a, n])) =
    Inl OutOfBounds"
proof -
  define d where "d = delivered (slave_address sl) kReadMultipleHoldingRegisters ((reg_bytes P [a, n] @ []) @
         reg_bytes P [g (slave_address sl # 3 # reg_bytes P [a, n])]) sl"
  have l: "listening sl" and h: "updating_wf (holding_store sl)"
    using device_inv [OF wf] by simp_all
  have hb: "has_bytes 4 (GetFrameIn d)"
    unfolding d_def has_bytes_def using delivered_bytes(1,2) [OF l] by simp
  note fields = request_fields(1-4) [OF P l _ d_def]
  have valid: "RegisterDataStore_ReadLocationValid (holding_store sl) (ucast a) (ucast n)"
    using range h by (simp add: in_range_def RegisterDataStore_ReadLocationValid_iff updating_wf_def)
  have "RegisterDataStore_GetRegisters P (holding_store sl) (ucast a) (ucast n)
      \<lparr>view_size = 2 * unat n, view_data = drop 3 xs\<rparr> = Inl OutOfBounds" if "length xs = 256" for xs :: "u8 list"
    using GetRegisters_overrun [OF _ valid, of "\<lparr>view_size = 2 * unat n, view_data = drop 3 xs\<rparr>" P] that h n
    by (simp add: updating_wf_def min_def)
  then have "RunReadMultipleHoldingRegisters P (UpdatingRegisterDataStore_ops P) (holding_store sl)
      (GetFrameIn d) Response_init = Inl OutOfBounds"
    using hb fields h range
    by (simp add: RunReadMultipleHoldingRegisters_def Holding_ReadRegisters_def Holding_ReadLocationValid_def
        ReadMultipleHoldingRegisters_FillResponseHeader_def ReadMultiple_FillResponseHeaderBase_spec
        Let_def SetLength_def Response_wf_def Response_init_def kMaxFrameLength_def response_data_view_def)
      (simp add: UpdatingRegisterDataStore_ops_def)
  then show ?thesis
    using read_holding_exchange [OF P wf range d_def] by simp
qed

theorem long_read_overruns_reply_witness:
  "device_exchange (msb_platform True) demo_large (request_adu (msb_platform True) demo_crc 7
     kReadMultipleHoldingRegisters (reg_bytes (msb_platform True) [3, 127])) = Inl OutOfBounds"
  using long_read_overruns_reply [OF msb_platform_ok demo_large_wf, of 3 127 True]
  by (simp add: in_range_def)

text \<open>
  C39: a request for no registers at an address inside the bank is not refused: it is answered
  with an empty list.
\<close>

theorem empty_read_acknowledged:
  assumes P: "platform_ok P" and wf: "device_wf g sl" and a: "unat a < length (registers (holding_store sl))"
  shows "outcome (device_exchange P sl
      (request_adu P g (slave_address sl) kReadMultipleHoldingRegisters (reg_bytes P [a, 0]))) =
    Inr (Some (with_crc P g [slave_address sl, 3, 0]), holding_store sl, input_store sl)"
proof -
  define d where "d = delivered (slave_address sl) kReadMultipleHoldingRegisters ((reg_bytes P [a, 0] @ []) @
         reg_bytes P [g (slave_address sl # 3 # reg_bytes P [a, 0])]) sl"
  have range: "in_range (registers (holding_store sl)) a 0" using a by (simp add: in_range_def)
  have l: "listening sl" and h: "updating_wf (holding_store sl)" and crc: "crc_ok (slave_crc (base sl)) g"
    using wf by (simp_all add: device_wf_def slave_wf_def)
  have hb: "has_bytes 4 (GetFrameIn d)"
    unfolding d_def has_bytes_def using delivered_bytes(1,2) [OF l] by simp
  note fields = request_fields(1-4) [OF P l _ d_def]
  have valid: "RegisterDataStore_ReadLocationValid (holding_store sl) (ucast a) (ucast (0 :: u16))"
    using range h by (simp add: in_range_def RegisterDataStore_ReadLocationValid_iff updating_wf_def)
  have get: "RegisterDataStore_GetRegisters P (holding_store sl) (ucast a) (ucast (0 :: u16)) v = Inr v"
    if "view_wf v" for v
    using array_GetRegisters [OF _ valid _ that, of P] h
    by (simp add: updating_wf_def array_fetch_def overwrite_def)
  have "RunReadMultipleHoldingRegisters P (UpdatingRegisterDataStore_ops P) (holding_store sl)
      (GetFrameIn d) Response_init = Inr (0, reply [slave_address sl, 3, 0])"
    using hb fields h range get
    by (simp add: RunReadMultipleHoldingRegisters_def Holding_ReadRegisters_def Holding_ReadLocationValid_def
        ReadMultipleHoldingRegisters_FillResponseHeader_def ReadMultiple_FillResponseHeaderBase_spec
        Let_def SetLength_def Response_wf_def Response_init_def kMaxFrameLength_def response_data_view_def)
      (simp add: UpdatingRegisterDataStore_ops_def view_wf_def response_put_data_def reply_def)
  moreover have "holding_store d = holding_store sl" "input_store d = input_store sl"
    by (simp_all add: d_def)
  ultimately show ?thesis
    using read_holding_exchange [OF P wf range d_def] FrameResponse_reply [OF crc, of "[0]" P "GetFrameIn d"] fields
    by (simp add: outcome_def)
qed

theorem empty_read_acknowledged_witness:
  "outcome (device_exchange (msb_platform True) demo_device (request_adu (msb_platform True) demo_crc 7
     kReadMultipleHoldingRegisters (reg_bytes (msb_platform True) [3, 0]))) =
   Inr (Some (with_crc (msb_platform True) demo_crc [7, 3, 0]), demo_holding, demo_input)"
  using empty_read_acknowledged [OF msb_platform_ok demo_device_wf, of 3 True] by simp

text \<open>A reply of 255 bytes before its CRC: the second CRC byte lands on the first byte.\<close>

lemma FrameResponse_overflow:
  assumes crc: "crc_ok crcf g" and len: "length body = 253" and w: "w = g (addr # code # body)"
    and f: "frame_address f = addr" "Function_code (frame_function f) = code"
  shows "FrameResponse P crcf f \<lparr>res_length = 255, res_data = addr # code # body @ [x], res_ready = rd\<rparr> =
    Inr (0, \<lparr>res_length = 257, res_data = GetByte P (unat w) 0 # code # body @ [GetByte P (unat w) 1],
             res_ready = rd\<rparr>)"
proof -
  let ?r = "\<lambda>n y. \<lparr>res_length = n, res_data = addr # code # body @ [y], res_ready = rd\<rparr>"
  have "(addr # code # body @ [x])[255 := y] = addr # code # body @ [y]" for y
    using list_update_length [of "addr # code # body" x "[]" y] len by simp
  then have put: "Response_set P 255 y (?r 257 x) = Inr (?r 257 y)" for y
    using len by (simp del: list_update.simps)
  have past: "Response_set P 256 z (?r 257 y) = Inr \<lparr>res_length = 257, res_data = z # code # body @ [y], res_ready = rd\<rparr>" for y z
    using Response_set_past_end [of P "?r 257 y" z] len by simp
  have c: "crcf (Response_GetArrayView (?r 255 x)) 255 = Inr w"
    using crc_okD [OF crc, of 255 "Response_GetArrayView (?r 255 x)"] len
    by (simp add: Response_GetArrayView_def w)
  show ?thesis
    using c put past f len
    by (simp add: FrameResponse_def Response_at_def Response_index_def Response_size_def SetLength_def Let_def)
qed

text \<open>
  C35: a request for exactly 126 registers is answered, wrongly: the second CRC byte does not
  fit, \<open>Response::operator[]\<close> sends it to element 0, and the reply, 257 bytes long in a buffer
  of 256, starts with that byte instead of the slave's address.
\<close>

theorem read_126_registers_corrupts_reply:
  assumes P: "platform_ok P" and wf: "device_wf g sl"
    and range: "in_range (registers (holding_store sl)) a n" and n: "unat n = 126"
    and crc: "crc = g ([slave_address sl, 3, 252] @
                reg_bytes P (take 126 (drop (unat a) (registers (holding_store sl)))))"
  shows "rbind (device_exchange P sl (request_adu P g (slave_address sl)
        kReadMultipleHoldingRegisters (reg_bytes P [a, n])))
      (\<lambda>sl'. Inr (slave_response_valid (base sl'), slave_response (base sl'))) =
    Inr (True, \<lparr>res_length = 257, res_data = [GetByte P (unat crc) 0, 3, 252] @
        reg_bytes P (take 126 (drop (unat a) (registers (holding_store sl)))) @
        [GetByte P (unat crc) 1], res_ready = False\<rparr>)"
proof -
  define d where "d = delivered (slave_address sl) kReadMultipleHoldingRegisters ((reg_bytes P [a, n] @ []) @
         reg_bytes P [g (slave_address sl # 3 # reg_bytes P [a, n])]) sl"
  have l: "listening sl" and h: "updating_wf (holding_store sl)" and crcf: "crc_ok (slave_crc (base sl)) g"
    using wf by (simp_all add: device_wf_def slave_wf_def)
  have hb: "has_bytes 4 (GetFrameIn d)"
    unfolding d_def has_bytes_def using delivered_bytes(1,2) [OF l] by simp
  note fields = request_fields(1-4) [OF P l _ d_def]
  let ?bs = "array_fetch P (holding_store sl) (unat a) 126"
  let ?hdr = "[slave_address sl, 3, 252] @ ?bs"
  have len: "length ?bs = 252"
    using length_array_fetch [OF range, of P] n by simp
  have n0: "n \<noteq> 0" using n by auto
  have "RunReadMultipleHoldingRegisters P (UpdatingRegisterDataStore_ops P) (holding_store sl)
      (GetFrameIn d) Response_init = Inr (0, Response_init\<lparr>
        res_data := overwrite 0 ?hdr (res_data Response_init), res_length := 255\<rparr>)"
    using updating_store.RunReadMultipleHoldingRegisters_spec [OF h Response_init_wf hb, of P]
      fields n n0 range h by simp
  moreover have "FrameResponse P (slave_crc (base sl)) (GetFrameIn d) (Response_init\<lparr>
        res_data := overwrite 0 ?hdr (res_data Response_init), res_length := 255\<rparr>) =
      Inr (0, \<lparr>res_length = 257, res_data = [GetByte P (unat crc) 0, 3, 252] @ ?bs @
        [GetByte P (unat crc) 1], res_ready = False\<rparr>)"
    using FrameResponse_overflow [OF crcf, of "252 # ?bs" crc "slave_address sl" 3 "GetFrameIn d" P 0 False]
      len fields crc
    by (simp add: Response_init_def kMaxFrameLength_def overwrite_0 array_fetch_def)
  ultimately show ?thesis
    using read_holding_exchange [OF P wf range d_def] by (simp add: array_fetch_def)
qed

theorem read_126_registers_corrupts_reply_witness:
  "rbind (device_exchange (msb_platform True) demo_large (request_adu (msb_platform True) demo_crc 7
        kReadMultipleHoldingRegisters (reg_bytes (msb_platform True) [3, 126])))
      (\<lambda>sl'. Inr (slave_response_valid (base sl'), slave_response (base sl'))) =
    Inr (True, \<lparr>res_length = 257, res_data =
        [GetByte (msb_platform True) (unat (demo_crc ([7, 3, 252] @ reg_bytes (msb_platform True) (replicate 126 5)))) 0, 3, 252] @
        reg_bytes (msb_platform True) (replicate 126 5) @
        [GetByte (msb_platform True) (unat (demo_crc ([7, 3, 252] @ reg_bytes (msb_platform True) (replicate 126 5)))) 1],
        res_ready = False\<rparr>)"
  using read_126_registers_corrupts_reply [OF msb_platform_ok demo_large_wf, of 3 126 _ True]
  by (simp add: in_range_def del: rbind_eq_Inr)

end
