(* ===== verification/Printing.thy ===== *)
theory Printing
  imports RegisterCommands
begin

text \<open>
  What the example drivers print: \<open>GetFunctionName\<close> and \<open>PrintPacketData\<close> of
  \<open>LinuxModbusTools.h\<close>. Printed text is a string; \<open>printf\<close> is modelled for the two
  conversions the code uses, on the non-negative values it gets. Printing reads the received
  frame, so that it stays inside the frame's buffer is something to show.
\<close>

section \<open>Numbers\<close>

fun digits_in_base :: "nat \<Rightarrow> nat \<Rightarrow> string" where
  "digits_in_base b n =
     (if n < b \<or> b < 2 then [''0123456789abcdef'' ! n]
      else digits_in_base b (n div b) @ [''0123456789abcdef'' ! (n mod b)])"

declare digits_in_base.simps [simp del]

section \<open>Packets\<close>

definition GetFunctionName :: "Function \<Rightarrow> string" where
  "GetFunctionName function =
     (case function of
        kReadCoils \<Rightarrow> ''Read Coils''
      | kReadDiscreteInputs \<Rightarrow> ''Read Discrete Inputs''
      | kReadMultipleHoldingRegisters \<Rightarrow> ''Read Multiple Holding Registers''
      | kReadInputRegisters \<Rightarrow> ''Read Input Registers''
      | kWriteSingleCoil \<Rightarrow> ''Read Single Coil''
      | kWriteSingleHoldingRegister \<Rightarrow> ''Write Single Holding Register''
      | kWriteMultipleHoldingRegisters \<Rightarrow> ''Write Multiple Holding Registers''
      | kWriteMultipleCoils \<Rightarrow> ''Write Multiple Coils''
      | kReadDeviceIdentification \<Rightarrow> ''Read Device Information''
      | _ \<Rightarrow> ''Unknown Command '' @ digits_in_base 10 (unat (Function_code function)))"

definition print_range :: "u16 \<Rightarrow> u16 \<Rightarrow> string" where
  "print_range address register_count =
     ''Address: 0x'' @ digits_in_base 16 (unat address) @ '', Count: '' @ digits_in_base 10 (unat register_count)"

definition print_request :: "platform \<Rightarrow> Frame \<Rightarrow> string result" where
  "print_request P frame =
     (case frame_function frame of
        kReadMultipleHoldingRegisters \<Rightarrow>
          rbind (DataCommand_ReadAddressStart P (data_array frame)) (\<lambda>address.
          rbind (ReadMultiple_ReadRegisterCount P (data_array frame)) (\<lambda>register_count.
          Inr (print_range address register_count)))
      | kWriteMultipleHoldingRegisters \<Rightarrow>
          rbind (DataCommand_ReadAddressStart P (data_array frame)) (\<lambda>address.
          rbind (WriteMultiple_ReadRegisterCount P (data_array frame)) (\<lambda>register_count.
          Inr (print_range address register_count)))
      | _ \<Rightarrow> Inr [])"

function print_bytes_loop :: "Frame \<Rightarrow> nat \<Rightarrow> string result" where
  "print_bytes_loop frame i =
     (if i < data_length frame
      then rbind (view_get (data_array frame) i) (\<lambda>x.
           rbind (print_bytes_loop frame (Suc i)) (\<lambda>rest.
           Inr (''0x'' @ digits_in_base 16 (unat x) @ '' '' @ rest)))
      else Inr [])"
  by pat_completeness auto
termination by (relation "measure (\<lambda>(frame, i). data_length frame - i)") auto

declare print_bytes_loop.simps [simp del]

definition PrintPacketData :: "platform \<Rightarrow> Frame \<Rightarrow> string result" where
  "PrintPacketData P frame =
     rbind (print_request P frame) (\<lambda>request.
     rbind (print_bytes_loop frame 0) (\<lambda>bytes.
     Inr (''Slave Address '' @ digits_in_base 10 (unat (frame_address frame)) @ '': '' @
          GetFunctionName (frame_function frame) @ '' '' @ request @ '' ['' @ bytes @ '']'')))"

lemma print_bytes_loop_spec:
  assumes f: "view_wf (data_array f)" "data_length f \<le> view_size (data_array f)" and i: "i \<le> data_length f"
  shows "print_bytes_loop f i =
    Inr (concat (map (\<lambda>x. ''0x'' @ digits_in_base 16 (unat x) @ '' '') (drop i (take (data_length f) (view_data (data_array f))))))"
  using assms
proof (induction f i rule: print_bytes_loop.induct)
  case (1 f i)
  show ?case
  proof (cases "i < data_length f")
    case True
    then have "i < length (take (data_length f) (view_data (data_array f)))"
      using "1.prems" by (simp add: view_wf_def)
    from Cons_nth_drop_Suc [OF this]
    have "drop i (take (data_length f) (view_data (data_array f))) =
        view_data (data_array f) ! i # drop (Suc i) (take (data_length f) (view_data (data_array f)))"
      using True by simp
    then show ?thesis
      using True 1 by (simp add: print_bytes_loop.simps [of f i] view_wf_def view_get_def)
  next
    case False
    then show ?thesis by (simp add: print_bytes_loop.simps [of f i])
  qed
qed

text \<open>Whatever the frame of the reader holds, printing it does not read out of range.\<close>

lemma PrintPacketData_ok:
  assumes "view_wf (data_array f)" "view_size (data_array f) = 256" "data_length f \<le> 256"
  shows "\<exists>text. PrintPacketData P f = Inr text"
proof -
  have "\<exists>r. print_request P f = Inr r"
    using assms by (auto simp: print_request_def view_wf_def read_field_defs layout split: Function.split)
  then show ?thesis
    using assms print_bytes_loop_spec [of f 0] by (auto simp: PrintPacketData_def)
qed

section \<open>Replies\<close>

text \<open>The loop of the drivers over the bytes of a reply, behind a line break.\<close>

definition print_response :: "u8 list \<Rightarrow> string" where
  "print_response response =
     ''Response: ['' @ concat (map (\<lambda>pt. digits_in_base 10 (unat pt) @ '' '') response) @ '']'' @ [CHR 0x0A]"

lemma Response_bytes_length: "Response_bytes r = Inr bs \<Longrightarrow> length bs = res_length r"
  by (auto simp: Response_bytes_def split: if_splits)

end
