(* ===== verification/Reader.thy ===== *)
theory Reader
  imports RtuSlave
begin

text \<open>
  The packet reader of \<open>include/Modbus/ModbusRtu/ModbusRtuProtocol.h\<close> (\<open>ProtocolRtu::ProcessCharacter\<close>)
  over arbitrary bytes: the invariant of its state machine, what one byte does to it, and how many
  bytes a request can take before the reader is done with it.
\<close>

section \<open>The reader over arbitrary bytes\<close>

text \<open>
  Whatever bytes arrive, the reader is in one of these situations. In \<open>kData\<close> and \<open>kDone\<close> the
  length of the request is known: \<open>body_length\<close>.
\<close>

definition reader_inv :: "ReadContext \<Rightarrow> Frame \<Rightarrow> bool" where
  "reader_inv ctx f \<longleftrightarrow>
     view_size (data_array f) = 256 \<and> length (view_data (data_array f)) = 256 \<and>
     (let fn = frame_function f; n = data_length f; total = body_length fn (view_data (data_array f)) in
      case ctx_state ctx of
        kAddress \<Rightarrow> bytes_to_read ctx = 3 \<and> n = 0
      | kFunction \<Rightarrow> n = 0
      | kMeta \<Rightarrow> fn \<in> set GetValidFunctions \<and> n < meta_length fn \<and>
          bytes_to_read ctx = CalculateMetaDataBytesRemaining fn - int n
      | kData \<Rightarrow> fn \<in> set GetValidFunctions \<and> meta_length fn \<le> n \<and> n < total \<and> n \<le> 256 \<and>
          bytes_to_read ctx = int total - int n
      | kDone \<Rightarrow> fn \<in> set GetValidFunctions \<and> n = total \<and> n \<le> 256)"

lemma Frame_append_room:
  assumes "view_size (data_array f) = 256" "length (view_data (data_array f)) = 256" "data_length f < 256"
  shows "Frame_append pt f = Inr (f\<lparr>data_length := Suc (data_length f), data_array := (data_array f)
    \<lparr>view_data := (view_data (data_array f))[data_length f := pt]\<rparr>\<rparr>)"
  using assms by (simp add: Frame_append_def)

lemma Frame_append_full:
  "view_size (data_array f) = 256 \<Longrightarrow> data_length f = 256 \<Longrightarrow> Frame_append pt f = Inl OutOfBounds"
  by (simp add: Frame_append_def Frame_set_def view_set_def)

lemma CalculateMeta_iff: "CalculateMetaDataBytesRemaining fn - int n \<le> 0 \<longleftrightarrow> meta_length fn \<le> n" if "0 < n"
  using that by (auto simp: meta_length_def)

lemma meta_length_le_5: "0 < meta_length fn" "meta_length fn \<le> 5"
  by (simp_all add: meta_length_cases)

lemma CalculateBytesRemaining_total:
  "view_size (data_array f) = 256 \<Longrightarrow> length (view_data (data_array f)) = 256 \<Longrightarrow>
   CalculateBytesRemaining f = Inr (int (body_length (frame_function f) (view_data (data_array f))) -
     2 - int (meta_length (frame_function f)))"
  by (simp add: CalculateBytesRemaining_def body_length_def)

lemma body_length_update:
  "meta_length fn \<le> n \<Longrightarrow> body_length fn (xs[n := x]) = body_length fn xs"
  by (auto simp: body_length_def meta_length_cases)

lemma body_length_more: "meta_length fn + 2 \<le> body_length fn xs"
  by (simp add: body_length_def)

text \<open>One byte: the reader faults only when the frame buffer is full, and stays in its invariant.\<close>

lemma reader_step:
  assumes inv: "reader_inv ctx f" and busy: "ctx_state ctx \<noteq> kDone"
  shows "if ctx_state ctx = kData \<and> data_length f = 256
    then ProcessCharacter P ctx f pt = Inl OutOfBounds
    else \<exists>ctx' f'. ProcessCharacter P ctx f pt = Inr (ctx', f') \<and> reader_inv ctx' f' \<and>
      (ctx_state ctx \<in> {kMeta, kData} \<longrightarrow>
         ctx_state ctx' \<in> {kMeta, kData, kDone} \<and> data_length f' = Suc (data_length f))"
proof -
  let ?n = "data_length f" and ?fn = "frame_function f" and ?xs = "view_data (data_array f)"
  have v: "view_size (data_array f) = 256" "length ?xs = 256"
    using inv by (simp_all add: reader_inv_def)
  let ?f = "f\<lparr>data_length := Suc ?n, data_array := (data_array f)\<lparr>view_data := ?xs[?n := pt]\<rparr>\<rparr>"
  show ?thesis
  proof (cases "ctx_state ctx")
    case kAddress
    then show ?thesis
      using inv by (simp add: ProcessCharacter_def reader_inv_def)
  next
    case kFunction
    then show ?thesis
      using inv GetFunction_valid [of pt] meta_length_le_5(1)
      by (simp add: ProcessCharacter_def reader_inv_def ReadContext_Reset_def Let_def)
  next
    case kMeta
    then have fn: "?fn \<in> set GetValidFunctions" and n: "?n < meta_length ?fn"
      and b: "bytes_to_read ctx = CalculateMetaDataBytesRemaining ?fn - int ?n"
      using inv by (simp_all add: reader_inv_def Let_def)
    have app: "Frame_append pt f = Inr ?f"
      using v n meta_length_le_5(2) [of ?fn] by (intro Frame_append_room) auto
    have last: "bytes_to_read ctx - 1 \<le> 0 \<longleftrightarrow> meta_length ?fn \<le> Suc ?n"
      using CalculateMeta_iff [of "Suc ?n" ?fn] b by auto
    have rem: "CalculateBytesRemaining ?f =
        Inr (int (body_length ?fn (?xs[?n := pt])) - 2 - int (meta_length ?fn))"
      using CalculateBytesRemaining_total [of ?f] v by simp
    show ?thesis
    proof (cases "meta_length ?fn \<le> Suc ?n")
      case True
      then have "meta_length ?fn = Suc ?n" using n by simp
      then show ?thesis
        using kMeta app last rem fn v body_length_more [of ?fn "?xs[?n := pt]"] meta_length_le_5(2) [of ?fn]
        by (simp add: ProcessCharacter_def reader_inv_def Let_def)
    next
      case False
      then show ?thesis
        using kMeta app last fn v b by (simp add: ProcessCharacter_def reader_inv_def Let_def)
    qed
  next
    case kData
    then have fn: "?fn \<in> set GetValidFunctions" and n: "meta_length ?fn \<le> ?n" "?n < body_length ?fn ?xs" "?n \<le> 256"
      and b: "bytes_to_read ctx = int (body_length ?fn ?xs) - int ?n"
      using inv by (simp_all add: reader_inv_def Let_def)
    show ?thesis
    proof (cases "?n = 256")
      case True
      then show ?thesis using kData v by (simp add: ProcessCharacter_def Frame_append_full Let_def)
    next
      case False
      then have app: "Frame_append pt f = Inr ?f"
        using v n(3) by (intro Frame_append_room) auto
      have "body_length ?fn (?xs[?n := pt]) = body_length ?fn ?xs"
        using n(1) by (rule body_length_update)
      then show ?thesis
        using kData app fn n v b False
        by (auto simp: ProcessCharacter_def reader_inv_def Let_def)
    qed
  qed (use busy in simp)
qed

text \<open>The function of the same name in \<open>RtuProtocol.h\<close> has no body and no return.\<close>

definition header_CalculateBytesRemaining :: "Frame \<Rightarrow> int result" where
  "header_CalculateBytesRemaining frame = Inl MissingReturn"

section \<open>The reader is done with every request\<close>

text \<open>
  How many bytes after the function code the reader takes. For the register functions this is what
  the protocol sends; every other function is taken to have one byte and a CRC.
\<close>

definition bytes_taken :: "u8 \<Rightarrow> u8 list \<Rightarrow> nat" where
  "bytes_taken code bs =
     (if code = 16 then 7 + unat (bs ! 4) else if code \<in> {3, 4, 6} then 6 else 3)"

lemma bytes_taken_body:
  assumes "FunctionCodeIsValid code" and "5 \<le> length bs"
  shows "body_length (GetFunction code) bs = bytes_taken code bs"
proof -
  obtain fn where fn: "fn \<in> set GetValidFunctions" and code: "code = Function_code fn"
    using assms(1) by (auto simp: FunctionCodeIsValid_iff)
  have "body_length fn bs = bytes_taken (Function_code fn) bs"
    using fn by (auto simp: bytes_taken_def body_length_def meta_length_cases GetValidFunctions_def)
  then show ?thesis by (simp only: code GetFunction_code [OF fn])
qed

text \<open>
  C22: whatever bytes follow an address and a valid function code, the reader is done with the request
  after a number of them that the first five determine: it reports a packet with exactly that byte
  and not before. The one exception is a block write with a byte count of 250 or more, whose 257th
  byte leaves the 256-byte buffer. It never waits for more, also when the byte count is wrong.
\<close>

theorem reader_stops_on_every_request:
  assumes f: "data_length f = 0" "view_size (data_array f) = 256" "length (view_data (data_array f)) = 256"
    and code: "FunctionCodeIsValid code" and bs: "length bs = 257"
  shows "(\<forall>k < min 257 (bytes_taken code bs). \<exists>ctx f'.
      ProcessCharacters P ReadContext_init f (addr # code # take k bs) = Inr (ctx, f') \<and> \<not> PacketReceived ctx) \<and>
    (if code = 16 \<and> 250 \<le> unat (bs ! 4)
     then ProcessCharacters P ReadContext_init f (addr # code # bs) = Inl OutOfBounds
     else \<exists>ctx f'. ProcessCharacters P ReadContext_init f (addr # code # take (bytes_taken code bs) bs) =
       Inr (ctx, f') \<and> PacketReceived ctx)"
proof -
  let ?fn = "GetFunction code" and ?n = "bytes_taken code bs"
  have fn: "?fn \<in> set GetValidFunctions" and fc: "Function_code ?fn = code"
    using GetFunction_valid [OF code] by simp_all
  have len: "body_length ?fn bs = ?n" using bytes_taken_body [OF code] bs by simp
  have wf: "view_wf (data_array f)" using f by (simp add: view_wf_def)
  have m: "meta_length ?fn \<le> length bs" using meta_length_le_5(2) [of ?fn] bs by simp
  note prefix = ProcessCharacters_prefix [OF fn f(1) wf _ _ _ m, of _ P addr, unfolded fc len f(2) bs]
  have early: "\<exists>ctx f'. ProcessCharacters P ReadContext_init f (addr # code # take k bs) = Inr (ctx, f') \<and>
      \<not> PacketReceived ctx" if "k < min 257 ?n" for k
    using that prefix [of k] by (auto simp: PacketReceived_def ctx_after_def len)
  have long: "256 < ?n \<longleftrightarrow> code = 16 \<and> 250 \<le> unat (bs ! 4)"
    by (auto simp: bytes_taken_def)
  show ?thesis
  proof (cases "256 < ?n")
    case True
    then have "ProcessCharacters P ReadContext_init f (addr # code # bs) = Inl OutOfBounds"
      using ProcessCharacters_overflow [OF fn f bs, of P addr] by (simp only: fc len)
    then show ?thesis
      using early True unfolding long [symmetric] by (simp del: ProcessCharacters.simps rbind_eq_Inr)
  next
    case False
    then have "ProcessCharacters P ReadContext_init f (addr # code # take ?n bs) =
        Inr (ctx_after ?fn bs ?n, frame_after addr ?fn bs ?n f)"
      by (intro prefix) simp_all
    moreover have "PacketReceived (ctx_after ?fn bs ?n)"
      using body_length_more [of ?fn bs] by (simp add: PacketReceived_def ctx_after_def len)
    ultimately show ?thesis
      using early False unfolding long [symmetric] by (simp del: ProcessCharacters.simps rbind_eq_Inr)
  qed
qed

theorem reader_stops_on_every_request_witness:
  "(\<exists>ctx f'. ProcessCharacters (msb_platform True) ReadContext_init
        (Frame_of_view (view_of (replicate 256 0))) (1 # 3 # replicate 6 0) = Inr (ctx, f') \<and> PacketReceived ctx) \<and>
   ProcessCharacters (msb_platform True) ReadContext_init
        (Frame_of_view (view_of (replicate 256 0))) (1 # 16 # replicate 257 255) = Inl OutOfBounds"
proof -
  let ?f = "Frame_of_view (view_of (replicate 256 (0::u8)))"
  have f: "data_length ?f = 0" "view_size (data_array ?f) = 256" "length (view_data (data_array ?f)) = 256"
    by (simp_all add: Frame_of_view_def view_of_def)
  have valid: "FunctionCodeIsValid 3" "FunctionCodeIsValid 16"
    by (simp_all add: FunctionCodeIsValid_iff GetValidFunctions_def)
  have n: "bytes_taken 3 (replicate 257 0) = 6" "(replicate 257 (255::u8)) ! 4 = 255"
    by (simp_all add: bytes_taken_def)
  show ?thesis
    using reader_stops_on_every_request [OF f valid(1), of "replicate 257 0" "msb_platform True" 1]
      reader_stops_on_every_request [OF f valid(2), of "replicate 257 255" "msb_platform True" 1]
    by (simp add: n del: ProcessCharacters.simps rbind_eq_Inr)
qed

end
