(* ===== verification/LinuxSlave.thy ===== *)
theory LinuxSlave
  imports Session Printing Reader
begin

text \<open>
  The polling driver of \<open>examples/LinuxSlave/source\<close>: \<open>LinuxSlave.h\<close> (\<open>Run\<close>, \<open>ProcessPacket\<close>,
  \<open>RxCharacterTimeout\<close>) and \<open>LinuxModbusTools.h\<close> (\<open>GetMicroSecondsSince\<close>). The serial device
  and its ring buffers are FIFO queues here that are never full, and what arrives during a call
  of \<open>Run\<close> and what the clock says are arguments of the step; the theory \<open>UartDriver\<close> puts the
  code of the device in their place. What is printed is kept in the state.
\<close>

section \<open>Time\<close>

record timeval =
  tv_sec :: int
  tv_usec :: int

definition GetMicroSecondsSince :: "timeval \<Rightarrow> timeval \<Rightarrow> int" where
  "GetMicroSecondsSince first second =
     (tv_sec second - tv_sec first) * 1000000 + (tv_usec second - tv_usec first)"

text \<open>\<open>(1e6 * (9 * 3.5)) / 9600\<close>, cut to an integer.\<close>

definition kFrameDelay_us :: int where
  "kFrameDelay_us = (1000000 * (9 * 35)) div (10 * 9600)"

lemma kFrameDelay_us_value: "kFrameDelay_us = 3281"
  by (simp add: kFrameDelay_us_def)

section \<open>The driver\<close>

record ('h, 'i) LinuxSlave =
  slave :: "('h, 'i) ProtocolRtuSlave"
  last_character_time :: timeval
  rxbuff :: "u8 list"
  txbuff :: "u8 list"
  sent :: "u8 list"
  printed :: string

definition SendTxBuff :: "('h, 'i) LinuxSlave \<Rightarrow> ('h, 'i) LinuxSlave" where
  "SendTxBuff s = s\<lparr>txbuff := [], sent := sent s @ txbuff s\<rparr>"

definition ReadIntoRxBuff :: "u8 list \<Rightarrow> ('h, 'i) LinuxSlave \<Rightarrow> ('h, 'i) LinuxSlave" where
  "ReadIntoRxBuff arrived s = s\<lparr>rxbuff := rxbuff s @ arrived\<rparr>"

definition ProcessPacket ::
  "platform \<Rightarrow> ('h, 'x) writable_store_scheme \<Rightarrow> ('i, 'y) readable_store_scheme \<Rightarrow>
   ('h, 'i) LinuxSlave \<Rightarrow> ('h, 'i) LinuxSlave result" where
  "ProcessPacket P TH TI s =
     rbind (ProcessMessage P TH TI True (slave s)) (\<lambda>sl.
     rbind (PrintPacketData P (GetFrameIn sl)) (\<lambda>packet.
     rbind (if slave_response_valid (base sl)
            then rbind (Response_bytes (slave_response (base sl))) (\<lambda>bs.
                 rbind (c_assert P (length bs = res_length (slave_response (base sl)))) (\<lambda>_.
                 Inr (txbuff s @ bs, print_response bs)))
            else Inr (txbuff s, [])) (\<lambda>(tx, response).
     Inr (s\<lparr>slave := Slave_Reset sl, txbuff := tx, printed := printed s @ packet @ [CHR 0x0A] @ response\<rparr>))))"

definition RxCharacterTimeout :: "('h, 'i) LinuxSlave \<Rightarrow> timeval \<Rightarrow> bool" where
  "RxCharacterTimeout s timestamp \<longleftrightarrow>
     GetMicroSecondsSince (last_character_time s) timestamp \<ge> 10 * kFrameDelay_us"

definition Run ::
  "platform \<Rightarrow> ('h, 'x) writable_store_scheme \<Rightarrow> ('i, 'y) readable_store_scheme \<Rightarrow>
   u8 list \<Rightarrow> timeval \<Rightarrow> ('h, 'i) LinuxSlave \<Rightarrow> ('h, 'i) LinuxSlave result" where
  "Run P TH TI arrived now s =
     (let s = ReadIntoRxBuff arrived (SendTxBuff s) in
      rbind (if PacketReceived (slave_ctx (base (slave s))) then ProcessPacket P TH TI s else Inr s)
        (\<lambda>s.
      case rxbuff s of
        data # rest \<Rightarrow>
          rbind (Slave_ProcessCharacter P (slave s) data) (\<lambda>sl.
          Inr (s\<lparr>last_character_time := now, rxbuff := rest, slave := sl\<rparr>))
      | [] \<Rightarrow> Inr (if RxCharacterTimeout s now then s\<lparr>slave := Slave_Reset (slave s)\<rparr> else s)))"

text \<open>The loop of \<open>main\<close>, over what arrives and what the clock says in each turn.\<close>

fun Runs ::
  "platform \<Rightarrow> ('h, 'x) writable_store_scheme \<Rightarrow> ('i, 'y) readable_store_scheme \<Rightarrow>
   (u8 list \<times> timeval) list \<Rightarrow> ('h, 'i) LinuxSlave \<Rightarrow> ('h, 'i) LinuxSlave result" where
  "Runs P TH TI [] s = Inr s"
| "Runs P TH TI ((arrived, now) # turns) s =
     rbind (Run P TH TI arrived now s) (\<lambda>s. Runs P TH TI turns s)"

definition LinuxSlave_init ::
  "Crc16 \<Rightarrow> u8 \<Rightarrow> 'h \<Rightarrow> 'i \<Rightarrow> timeval \<Rightarrow> ('h, 'i) LinuxSlave" where
  "LinuxSlave_init crcf addr h i now =
     \<lparr>slave = SetAddress addr (ProtocolRtuSlave_init crcf 3 h i), last_character_time = now,
      rxbuff = [], txbuff = [], sent = [], printed = []\<rparr>"

section \<open>The driver over arbitrary bytes\<close>

type_synonym linux_device = "(UpdatingRegisterDataStore, RegisterDataStore) LinuxSlave"

definition device_run :: "platform \<Rightarrow> u8 list \<Rightarrow> timeval \<Rightarrow> linux_device \<Rightarrow> linux_device result" where
  "device_run P = Run P (UpdatingRegisterDataStore_ops P) (RegisterDataStore_ops P)"

definition driver_inv :: "(u8 list \<Rightarrow> u16) \<Rightarrow> linux_device \<Rightarrow> bool" where
  "driver_inv g s \<longleftrightarrow>
     reader_inv (slave_ctx (base (slave s))) (GetFrameIn (slave s)) \<and>
     slave_wf updating_wf store_wf (slave s) \<and> crc_ok (slave_crc (base (slave s))) g \<and>
     \<not> slave_response_valid (base (slave s))"

text \<open>
  What the code does not check: that a complete request fits the buffer of the CRC check, that
  a read asks for 1 to 125 registers and a write for at least one, and that there is room for
  the next byte.
\<close>

definition within_limits :: "platform \<Rightarrow> linux_device \<Rightarrow> bool" where
  "within_limits P s \<longleftrightarrow>
     (let ctx = slave_ctx (base (slave s)); f = GetFrameIn (slave s) in
      (PacketReceived ctx \<longrightarrow> data_length f \<le> 254 \<and> read_fits P f \<and> nonempty_request P f) \<and>
      \<not> (ctx_state ctx = kData \<and> data_length f = 256))"

lemma reader_done_wf:
  "reader_inv ctx f \<Longrightarrow> PacketReceived ctx \<Longrightarrow> data_length f \<le> 254 \<Longrightarrow> request_wf f"
  by (auto simp: reader_inv_def PacketReceived_def request_wf_def body_length_def meta_length_cases
      req_byte_count_def Let_def)

lemma Slave_Reset_reader:
  assumes "view_size (data_array (GetFrameIn sl)) = 256" "length (view_data (data_array (GetFrameIn sl))) = 256"
  shows "reader_inv (slave_ctx (base (Slave_Reset sl))) (GetFrameIn (Slave_Reset sl))"
  using Slave_Reset_listening [OF assms] by (simp add: listening_def reader_inv_def ReadContext_init_def)

lemma Slave_Reset_simps [simp]:
  "holding_store (Slave_Reset sl) = holding_store sl" "input_store (Slave_Reset sl) = input_store sl"
  "slave_address (Slave_Reset sl) = slave_address sl"
  "slave_crc (base (Slave_Reset sl)) = slave_crc (base sl)"
  "\<not> slave_response_valid (base (Slave_Reset sl))"
  "Response_wf (slave_response (base (Slave_Reset sl))) = Response_wf (slave_response (base sl))"
  by (simp_all add: Slave_Reset_def ResetRead_def ResetResponse_def SetResponseValid_def Let_def)

lemma Response_Reset_again [simp]: "Response_Reset (Response_Reset r) = Response_Reset r"
  by (simp add: Response_Reset_def SetReady_def SetLength_def)

lemma Frame_Reset_again [simp]: "Frame_Reset (Frame_Reset f) = Frame_Reset f"
  by (cases "view_size (data_array f) \<le> length (view_data (data_array f))")
    (simp_all add: Frame_Reset_def min_def)

lemma Slave_Reset_again [simp]: "Slave_Reset (Slave_Reset sl) = Slave_Reset sl"
  by (simp add: Slave_Reset_def ResetRead_def ResetResponse_def SetResponseValid_def ReadContext_Reset_def Let_def)

lemma Slave_Reset_inv:
  assumes "reader_inv ctx (GetFrameIn sl)" and "slave_wf updating_wf store_wf sl"
    and "crc_ok (slave_crc (base sl)) g" and "slave s = Slave_Reset sl"
  shows "driver_inv g s"
  using assms Slave_Reset_reader [of sl]
  by (simp add: driver_inv_def slave_wf_def reader_inv_def)

lemma Response_bytes_bound:
  "Response_wf r \<Longrightarrow> Response_bytes r = Inr bs \<Longrightarrow> length bs \<le> 256"
  by (auto simp: Response_bytes_def Response_wf_def kMaxFrameLength_def split: if_splits)

lemma ProcessPacket_inv:
  assumes P: "platform_ok P" and inv: "driver_inv g s" and lim: "within_limits P s"
    and fin: "PacketReceived (slave_ctx (base (slave s)))"
  shows "\<exists>s'. ProcessPacket P (UpdatingRegisterDataStore_ops P) (RegisterDataStore_ops P) s = Inr s' \<and>
    driver_inv g s' \<and> rxbuff s' = rxbuff s \<and> ctx_state (slave_ctx (base (slave s'))) = kAddress \<and>
    length (txbuff s') \<le> length (txbuff s) + 256"
proof -
  let ?TH = "UpdatingRegisterDataStore_ops P" and ?TI = "RegisterDataStore_ops P"
  let ?sl = "slave s" and ?f = "GetFrameIn (slave s)"
  let ?body = "reply_body P array_fetch array_fetch (holding_store ?sl) (input_store ?sl) ?f"
  let ?h = "store_after P array_update (holding_store ?sl) ?f"
  note i = inv [unfolded driver_inv_def]
  have wf: "updating_wf (holding_store ?sl)" "store_wf (input_store ?sl)" using i by (simp_all add: slave_wf_def)
  have lims: "data_length ?f \<le> 254" "read_fits P ?f" "nonempty_request P ?f"
    using lim fin by (simp_all add: within_limits_def Let_def)
  have f: "request_wf ?f" using reader_done_wf i fin lims(1) by blast
  define sl' where "sl' = serve P g ?TH ?TI array_fetch array_fetch array_update True ?sl"
  have run: "ProcessMessage P ?TH ?TI True ?sl = Inr sl'"
    unfolding sl'_def using device_stores.ProcessMessage_spec [OF P _ _ f lims(2,3)] i by blast
  have sl': "slave_wf updating_wf store_wf sl'" "crc_ok (slave_crc (base sl')) g"
    "GetFrameIn sl' = ?f" "slave_response_valid (base sl') \<Longrightarrow> ok (Response_bytes (slave_response (base sl')))"
  proof -
    have ack: "updating_wf ?h" "length (ack_reply P g ?f ?body) \<le> 256"
      if "verdict P ?TH ?TI (holding_store ?sl) (input_store ?sl) ?f = kAck"
      using device_stores.store_after_inv [OF wf(1) f lims(3) that]
        device_stores.length_reply_body [OF wf lims(2,3) that] by (simp_all add: ack_reply_def)
    have "length (error_reply P g ?f e) \<le> 256" for e by (simp add: error_reply_def)
    with ack i wf show "slave_wf updating_wf store_wf sl'" "crc_ok (slave_crc (base sl')) g"
      "GetFrameIn sl' = ?f" "slave_response_valid (base sl') \<Longrightarrow> ok (Response_bytes (slave_response (base sl')))"
      by (auto simp: sl'_def serve_def Let_def slave_wf_def GetFrameIn_def Response_wf_def reply_def
          kMaxFrameLength_def Response_bytes_def)
  qed
  obtain tx response where tx: "(if slave_response_valid (base sl')
      then rbind (Response_bytes (slave_response (base sl'))) (\<lambda>bs.
           rbind (c_assert P (length bs = res_length (slave_response (base sl')))) (\<lambda>_.
           Inr (txbuff s @ bs, print_response bs)))
      else Inr (txbuff s, [])) = Inr (tx, response)" "length tx \<le> length (txbuff s) + 256"
    using sl'(1,4) Response_bytes_length [of "slave_response (base sl')"]
      Response_bytes_bound [of "slave_response (base sl')"]
    by (cases "slave_response_valid (base sl')") (auto simp: ok_iff slave_wf_def)
  have "view_wf (data_array ?f)" "view_size (data_array ?f) = 256" "data_length ?f \<le> 256"
    using i lims(1) by (simp_all add: reader_inv_def view_wf_def)
  then obtain packet where packet: "PrintPacketData P (GetFrameIn sl') = Inr packet"
    using PrintPacketData_ok [of ?f P] sl'(3) by auto
  let ?text = "printed s @ packet @ [CHR 0x0A] @ response"
  have "ProcessPacket P ?TH ?TI s = Inr (s\<lparr>slave := Slave_Reset sl', txbuff := tx, printed := ?text\<rparr>)"
    by (simp only: ProcessPacket_def run packet tx(1) rbind_simps prod.case)
  moreover have "driver_inv g (s\<lparr>slave := Slave_Reset sl', txbuff := tx, printed := ?text\<rparr>)"
    by (rule Slave_Reset_inv [of "slave_ctx (base ?sl)" sl']) (use i sl' in simp_all)
  moreover have "ctx_state (slave_ctx (base (Slave_Reset sl'))) = kAddress"
    by (simp add: Slave_Reset_def ResetRead_def ResetResponse_def SetResponseValid_def
        ReadContext_Reset_def Let_def)
  ultimately show ?thesis using tx(2) by auto
qed

lemma driver_inv_buffers [simp]:
  "driver_inv g (s\<lparr>rxbuff := r\<rparr>) = driver_inv g s" "driver_inv g (s\<lparr>txbuff := t\<rparr>) = driver_inv g s"
  "driver_inv g (s\<lparr>sent := x\<rparr>) = driver_inv g s" "driver_inv g (s\<lparr>last_character_time := now\<rparr>) = driver_inv g s"
  "driver_inv g (s\<lparr>printed := text\<rparr>) = driver_inv g s"
  by (simp_all add: driver_inv_def)

lemma Slave_ProcessCharacter_inv:
  assumes inv: "driver_inv g s" and busy: "ctx_state (slave_ctx (base (slave s))) \<noteq> kDone"
    and room: "\<not> (ctx_state (slave_ctx (base (slave s))) = kData \<and> data_length (GetFrameIn (slave s)) = 256)"
  shows "\<exists>sl. Slave_ProcessCharacter P (slave s) pt = Inr sl \<and> driver_inv g (s\<lparr>slave := sl\<rparr>)"
  using reader_step [OF _ busy, of "GetFrameIn (slave s)" P pt] inv room
  by (auto simp: driver_inv_def slave_wf_def GetFrameIn_def Slave_ProcessCharacter_def
      Base_ProcessCharacter_def)

text \<open>
  One turn of the driver, whatever bytes arrive and whatever the clock says: inside the limits the
  code relies on it does not fault, and it keeps the invariant.
\<close>

lemma device_run_inv:
  assumes P: "platform_ok P" and inv: "driver_inv g s" and lim: "within_limits P s"
  shows "\<exists>s'. device_run P arrived now s = Inr s' \<and> driver_inv g s'"
proof -
  let ?TH = "UpdatingRegisterDataStore_ops P" and ?TI = "RegisterDataStore_ops P"
  define s0 where "s0 = ReadIntoRxBuff arrived (SendTxBuff s)"
  have s0: "driver_inv g s0" "within_limits P s0" "slave s0 = slave s"
    using inv lim by (simp_all add: s0_def ReadIntoRxBuff_def SendTxBuff_def within_limits_def)
  obtain s1 where s1: "(if PacketReceived (slave_ctx (base (slave s0))) then ProcessPacket P ?TH ?TI s0 else Inr s0) = Inr s1"
    "driver_inv g s1" "ctx_state (slave_ctx (base (slave s1))) \<noteq> kDone"
    "\<not> (ctx_state (slave_ctx (base (slave s1))) = kData \<and> data_length (GetFrameIn (slave s1)) = 256)"
  proof (cases "PacketReceived (slave_ctx (base (slave s0)))")
    case True
    then show ?thesis
      using ProcessPacket_inv [OF P s0(1,2) True] that by auto
  next
    case False
    then show ?thesis
      using s0(1,2) that by (simp add: within_limits_def PacketReceived_def Let_def)
  qed
  show ?thesis
  proof (cases "rxbuff s1")
    case Nil
    have "driver_inv g (s1\<lparr>slave := Slave_Reset (slave s1)\<rparr>)"
      by (rule Slave_Reset_inv [of "slave_ctx (base (slave s1))" "slave s1"])
        (use s1(2) in \<open>simp_all add: driver_inv_def\<close>)
    then show ?thesis
      using s1(1,2) Nil by (simp add: device_run_def Run_def s0_def [symmetric] del: rbind_eq_Inr)
  next
    case (Cons data rest)
    obtain sl where "Slave_ProcessCharacter P (slave s1) data = Inr sl" "driver_inv g (s1\<lparr>slave := sl\<rparr>)"
      using Slave_ProcessCharacter_inv [OF s1(2-4)] by blast
    then show ?thesis
      using s1(1) Cons by (simp add: device_run_def Run_def s0_def [symmetric] driver_inv_def del: rbind_eq_Inr)
  qed
qed

definition demo_driver :: linux_device where
  "demo_driver = LinuxSlave_init (crc16 (msb_platform True) demo_crc) 7 demo_holding demo_input \<lparr>tv_sec = 0, tv_usec = 0\<rparr>"

lemma LinuxSlave_init_inv:
  assumes "updating_wf h" and "store_wf i" and "crc_ok crcf g"
  shows "driver_inv g (LinuxSlave_init crcf addr h i now)"
  using assms
  by (simp add: driver_inv_def LinuxSlave_init_def SetAddress_def ProtocolRtuSlave_init_def
      SlaveProtocolBase_init_def GetFrameIn_def reader_inv_def ReadContext_init_def Frame_of_view_def
      view_of_def slave_wf_def)

lemma demo_driver_inv: "driver_inv demo_crc demo_driver"
  unfolding demo_driver_def
  by (rule LinuxSlave_init_inv) (simp_all add: demo_holding_def demo_input_def updating_wf_def store_wf_def)

section \<open>Runs of the driver\<close>

inductive driver_step :: "platform \<Rightarrow> linux_device \<Rightarrow> linux_device \<Rightarrow> bool" for P where
  turn: "within_limits P s \<Longrightarrow> device_run P arrived now s = Inr s' \<Longrightarrow> driver_step P s s'"

inductive_cases driver_stepE: "driver_step P s s'"

inductive driver_reachable :: "platform \<Rightarrow> linux_device \<Rightarrow> linux_device \<Rightarrow> bool" for P s0 where
  start: "driver_reachable P s0 s0"
| step: "driver_reachable P s0 s \<Longrightarrow> driver_step P s s' \<Longrightarrow> driver_reachable P s0 s'"

text \<open>A turn that does not fault: the packet, if one is complete, then a character or the time-out.\<close>

lemma RunE:
  assumes "Run P TH TI arrived now s = Inr s'"
  obtains s1 where "(if PacketReceived (slave_ctx (base (slave (ReadIntoRxBuff arrived (SendTxBuff s)))))
      then ProcessPacket P TH TI (ReadIntoRxBuff arrived (SendTxBuff s))
      else Inr (ReadIntoRxBuff arrived (SendTxBuff s))) = Inr s1"
    and "(case rxbuff s1 of
        data # rest \<Rightarrow> rbind (Slave_ProcessCharacter P (slave s1) data) (\<lambda>sl.
          Inr (s1\<lparr>last_character_time := now, rxbuff := rest, slave := sl\<rparr>))
      | [] \<Rightarrow> Inr (if RxCharacterTimeout s1 now then s1\<lparr>slave := Slave_Reset (slave s1)\<rparr> else s1)) = Inr s'"
    and "txbuff s' = txbuff s1"
proof -
  from assms obtain s1 where s1: "(if PacketReceived (slave_ctx (base (slave (ReadIntoRxBuff arrived (SendTxBuff s)))))
      then ProcessPacket P TH TI (ReadIntoRxBuff arrived (SendTxBuff s))
      else Inr (ReadIntoRxBuff arrived (SendTxBuff s))) = Inr s1"
    and rest: "(case rxbuff s1 of
        data # rest \<Rightarrow> rbind (Slave_ProcessCharacter P (slave s1) data) (\<lambda>sl.
          Inr (s1\<lparr>last_character_time := now, rxbuff := rest, slave := sl\<rparr>))
      | [] \<Rightarrow> Inr (if RxCharacterTimeout s1 now then s1\<lparr>slave := Slave_Reset (slave s1)\<rparr> else s1)) = Inr s'"
    unfolding Run_def Let_def rbind_eq_Inr by blast
  moreover have "txbuff s' = txbuff s1" using rest by (auto split: list.splits if_splits)
  ultimately show thesis by (rule that)
qed

lemma Run_keeps:
  assumes "Run P TH TI arrived now s = Inr s'"
  shows "input_store (slave s') = input_store (slave s)" and "slave_address (slave s') = slave_address (slave s)"
proof -
  let ?s0 = "ReadIntoRxBuff arrived (SendTxBuff s)"
  obtain s1 where s1: "(if PacketReceived (slave_ctx (base (slave ?s0))) then ProcessPacket P TH TI ?s0 else Inr ?s0) = Inr s1"
    and rest: "(case rxbuff s1 of
        data # rest \<Rightarrow> rbind (Slave_ProcessCharacter P (slave s1) data) (\<lambda>sl.
          Inr (s1\<lparr>last_character_time := now, rxbuff := rest, slave := sl\<rparr>))
      | [] \<Rightarrow> Inr (if RxCharacterTimeout s1 now then s1\<lparr>slave := Slave_Reset (slave s1)\<rparr> else s1)) = Inr s'"
    using assms by (rule RunE)
  have "input_store (slave s1) = input_store (slave s)" "slave_address (slave s1) = slave_address (slave s)"
    using s1 ProcessMessage_keeps [of P TH TI True "slave ?s0"]
    by (auto simp: ProcessPacket_def ReadIntoRxBuff_def SendTxBuff_def split: if_splits)
  with rest show "input_store (slave s') = input_store (slave s)" "slave_address (slave s') = slave_address (slave s)"
    by (auto simp: Slave_ProcessCharacter_def split: list.splits if_splits)
qed

text \<open>
  C3: in every state the driver can reach, inside the limits, from a device that was just set
  up, the invariant holds, the input registers and the address are those it was set up with,
  a request the reader has completed has the length its function code and byte count say, and
  inside the limits the next turn does not fault, whatever bytes arrive and whatever the clock says.
\<close>

theorem driver_reachable_invariant:
  assumes P: "platform_ok P" and start: "updating_wf h" "store_wf i" "crc_ok crcf g"
    and run: "driver_reachable P (LinuxSlave_init crcf addr h i t) s"
  shows "driver_inv g s \<and> input_store (slave s) = i \<and> slave_address (slave s) = addr \<and>
    (PacketReceived (slave_ctx (base (slave s))) \<longrightarrow>
       data_length (GetFrameIn (slave s)) =
       body_length (frame_function (GetFrameIn (slave s))) (view_data (data_array (GetFrameIn (slave s))))) \<and>
    (within_limits P s \<longrightarrow> ok (device_run P arrived now s))"
proof -
  have "driver_inv g s \<and> input_store (slave s) = i \<and> slave_address (slave s) = addr"
    using run
  proof induction
    case start
    then show ?case
      using LinuxSlave_init_inv [OF assms(2-4)]
      by (simp add: LinuxSlave_init_def SetAddress_def ProtocolRtuSlave_init_def)
  next
    case (step s s')
    from step.hyps(2) obtain arrived now where
      "within_limits P s" and r: "device_run P arrived now s = Inr s'"
      by (rule driver_stepE)
    then show ?case
      using step.IH device_run_inv [OF P, of g s arrived now] Run_keeps [OF r [unfolded device_run_def]]
      by auto
  qed
  moreover from this have "within_limits P s \<longrightarrow> ok (device_run P arrived now s)"
    using device_run_inv [OF P, of g s arrived now] by (auto simp: ok_iff)
  ultimately show ?thesis
    by (auto simp: driver_inv_def reader_inv_def PacketReceived_def Let_def)
qed

theorem driver_reachable_invariant_witness:
  "\<exists>s. device_run (msb_platform True) [7] \<lparr>tv_sec = 0, tv_usec = 9\<rparr> demo_driver = Inr s \<and>
     driver_inv demo_crc s \<and> input_store (slave s) = demo_input \<and> slave_address (slave s) = 7"
proof -
  have lim: "within_limits (msb_platform True) demo_driver"
    by (simp add: within_limits_def demo_driver_def LinuxSlave_init_def SetAddress_def
      ProtocolRtuSlave_init_def SlaveProtocolBase_init_def PacketReceived_def ReadContext_init_def)
  obtain s where run: "device_run (msb_platform True) [7] \<lparr>tv_sec = 0, tv_usec = 9\<rparr> demo_driver = Inr s"
    using device_run_inv [OF msb_platform_ok demo_driver_inv lim] by blast
  have "driver_reachable (msb_platform True) demo_driver s"
    by (rule driver_reachable.step [OF driver_reachable.start driver_step.turn [OF lim run]])
  from driver_reachable_invariant [OF msb_platform_ok _ _ crc16_ok this [unfolded demo_driver_def]] run
  show ?thesis
    by (simp add: demo_holding_def demo_input_def updating_wf_def store_wf_def)
qed

section \<open>A request through the driver\<close>

lemma no_pending:
  "txbuff s = [] \<Longrightarrow> SendTxBuff s = s"
  by (cases s) (simp add: SendTxBuff_def)

lemma no_arrival: "ReadIntoRxBuff [] s = s"
  by (cases s) (simp add: ReadIntoRxBuff_def)

lemma Runs_append:
  "Runs P TH TI (xs @ ys) s = rbind (Runs P TH TI xs s) (Runs P TH TI ys)"
proof (induction xs arbitrary: s)
  case (Cons x xs)
  then show ?case
    by (cases x; cases "Run P TH TI (fst x) (snd x) s") simp_all
qed simp

text \<open>
  Whether queues of 1024 bytes are enough for the turns: what arrives fits the receive queue, and
  what is to be sent fits the other.
\<close>

fun turns_fit ::
  "platform \<Rightarrow> ('h, 'x) writable_store_scheme \<Rightarrow> ('i, 'y) readable_store_scheme \<Rightarrow>
   (u8 list \<times> timeval) list \<Rightarrow> ('h, 'i) LinuxSlave \<Rightarrow> bool" where
  "turns_fit P TH TI [] s \<longleftrightarrow> True"
| "turns_fit P TH TI ((arrived, now) # turns) s \<longleftrightarrow>
     length (rxbuff s) + length arrived \<le> 1024 \<and>
     (case Run P TH TI arrived now s of
        Inl e \<Rightarrow> True | Inr s' \<Rightarrow> length (txbuff s') \<le> 1024 \<and> turns_fit P TH TI turns s')"

lemma turns_fit_append:
  "Runs P TH TI xs s = Inr s' \<Longrightarrow>
   turns_fit P TH TI (xs @ ys) s \<longleftrightarrow> turns_fit P TH TI xs s \<and> turns_fit P TH TI ys s'"
proof (induction xs arbitrary: s)
  case (Cons x xs)
  then show ?case by (cases x) auto
qed simp

text \<open>One byte per turn is one call of \<open>ProcessCharacter\<close> per turn, until a packet is complete.\<close>

lemma Runs_feed:
  assumes "rxbuff s = []" and "txbuff s = []"
    and "Slave_ProcessCharacters P (slave s) (map fst bts) = Inr sl'"
    and "\<forall>k < length bts. \<forall>sl. Slave_ProcessCharacters P (slave s) (take k (map fst bts)) = Inr sl \<longrightarrow>
           \<not> PacketReceived (slave_ctx (base sl))"
  shows "\<exists>t. Runs P TH TI (map (\<lambda>(b, t). ([b], t)) bts) s = Inr (s\<lparr>slave := sl', last_character_time := t\<rparr>) \<and>
    turns_fit P TH TI (map (\<lambda>(b, t). ([b], t)) bts) s"
  using assms
proof (induction bts arbitrary: s)
  case Nil
  then show ?case by (cases s) auto
next
  case (Cons bt bts)
  obtain b t where bt: "bt = (b, t)" by (cases bt)
  have idle: "\<not> PacketReceived (slave_ctx (base (slave s)))"
    using Cons.prems(4) by (auto dest: spec [of _ 0])
  obtain sl where sl: "Slave_ProcessCharacter P (slave s) b = Inr sl"
    "Slave_ProcessCharacters P sl (map fst bts) = Inr sl'"
    using Cons.prems(3) bt by auto
  let ?s = "s\<lparr>last_character_time := t, rxbuff := [], slave := sl\<rparr>"
  have run: "Run P TH TI [b] t s = Inr ?s"
    using idle sl(1) Cons.prems(1,2)
    by (simp add: Run_def no_pending ReadIntoRxBuff_def Let_def)
  have "\<forall>k < length bts. \<forall>sl2. Slave_ProcessCharacters P (slave ?s) (take k (map fst bts)) = Inr sl2 \<longrightarrow>
           \<not> PacketReceived (slave_ctx (base sl2))"
  proof (intro allI impI)
    fix k sl2
    assume "k < length bts" "Slave_ProcessCharacters P (slave ?s) (take k (map fst bts)) = Inr sl2"
    then show "\<not> PacketReceived (slave_ctx (base sl2))"
      using spec [OF Cons.prems(4), of "Suc k"] sl(1) bt by simp
  qed
  then obtain t' where "Runs P TH TI (map (\<lambda>(b, t). ([b], t)) bts) ?s =
      Inr (?s\<lparr>slave := sl', last_character_time := t'\<rparr>)" "turns_fit P TH TI (map (\<lambda>(b, t). ([b], t)) bts) ?s"
    using Cons.IH [of ?s] Cons.prems(2) sl(2) by auto
  moreover have "?s\<lparr>slave := sl', last_character_time := t'\<rparr> = s\<lparr>slave := sl', last_character_time := t'\<rparr>"
    using Cons.prems(1) by (cases s) simp
  moreover have "length (rxbuff s) + 1 \<le> 1024" "length (txbuff ?s) \<le> 1024" using Cons.prems(1,2) by simp_all
  ultimately show ?case
    using run bt by (intro exI [of _ t']) (simp del: rbind_eq_Inr)
qed

lemma request_prefix_incomplete:
  assumes l: "listening sl" and fn: "fn \<in> set GetValidFunctions" and body: "length body = body_length fn body"
    and len: "length body \<le> 256" and k: "k < length (addr # Function_code fn # body)"
    and run: "Slave_ProcessCharacters P sl (take k (addr # Function_code fn # body)) = Inr sl2"
  shows "\<not> PacketReceived (slave_ctx (base sl2))"
proof -
  let ?f = "slave_framein (base sl)"
  have f: "data_length ?f = 0" "view_wf (data_array ?f)" "view_size (data_array ?f) = 256" "slave_ctx (base sl) = ReadContext_init"
    using l by (simp_all add: listening_def GetFrameIn_def view_wf_def)
  consider "k = 0" | "k = 1" | j where "k = Suc (Suc j)" by (metis One_nat_def not0_implies_Suc)
  then show ?thesis
  proof cases
    case 1
    then show ?thesis using run f(4) by (simp add: PacketReceived_def ReadContext_init_def)
  next
    case 2
    then show ?thesis
      using run f(4)
      by (auto simp: PacketReceived_def ReadContext_init_def Slave_ProcessCharacter_def
          Base_ProcessCharacter_def ProcessCharacter_def Let_def)
  next
    case 3
    have m: "meta_length fn \<le> length body" using body body_length_more [of fn body] by simp
    have j: "j < body_length fn body" using k 3 body by simp
    have "ProcessCharacters P ReadContext_init ?f (addr # Function_code fn # take j body) =
        Inr (ctx_after fn body j, frame_after addr fn body j ?f)"
      using ProcessCharacters_prefix [OF fn f(1,2) _ _ _ m, of j P addr] j body len f(3) by simp
    moreover have "take k (addr # Function_code fn # body) = addr # Function_code fn # take j body"
      using 3 by simp
    ultimately have "Inr (sl\<lparr>base := (base sl)\<lparr>slave_ctx := ctx_after fn body j,
        slave_framein := frame_after addr fn body j ?f\<rparr>\<rparr>) = (Inr sl2 :: _ result)"
      using run f(4) by (simp only: Slave_ProcessCharacters_eq rbind_simps prod.case)
    then show ?thesis
      using j by (auto simp: ctx_after_def PacketReceived_def split: if_splits)
  qed
qed

lemma Slave_Reset_idle [simp]: "\<not> PacketReceived (slave_ctx (base (Slave_Reset sl)))"
  by (simp add: PacketReceived_def Slave_Reset_def ResetRead_def ResetResponse_def SetResponseValid_def
      ReadContext_Reset_def Let_def)

text \<open>A turn in which nothing arrives, before and after the packet was processed.\<close>

lemma Run_process_turn:
  assumes "rxbuff s = []" and "txbuff s = []" and "PacketReceived (slave_ctx (base (slave s)))"
    and "ProcessMessage P TH TI True (slave s) = Inr sl"
    and "PrintPacketData P (GetFrameIn sl) = Inr packet"
    and "(if slave_response_valid (base sl) then Response_bytes (slave_response (base sl)) else Inr []) = Inr bs"
  shows "\<exists>shown. Run P TH TI [] t s = Inr (s\<lparr>slave := Slave_Reset sl, txbuff := bs, printed := shown\<rparr>)"
proof -
  obtain shown where "ProcessPacket P TH TI s = Inr (s\<lparr>slave := Slave_Reset sl, txbuff := bs, printed := shown\<rparr>)"
    using assms(2,4-6) Response_bytes_length [of "slave_response (base sl)" bs]
    by (auto simp: ProcessPacket_def split: if_splits)
  then have "Run P TH TI [] t s = Inr (s\<lparr>slave := Slave_Reset sl, txbuff := bs, printed := shown\<rparr>)"
    using assms(1-3) by (cases s) (simp add: Run_def no_pending no_arrival Let_def del: rbind_eq_Inr)
  then show ?thesis ..
qed

lemma Run_send_turn:
  assumes "rxbuff s = []" and "slave s = Slave_Reset sl"
  shows "Run P TH TI [] t s = Inr (s\<lparr>txbuff := [], sent := sent s @ txbuff s\<rparr>)"
proof -
  have "\<not> PacketReceived (slave_ctx (base (slave s)))" by (simp add: assms(2))
  then show ?thesis
    using assms by (cases s) (simp add: Run_def SendTxBuff_def ReadIntoRxBuff_def Let_def)
qed

lemma RunCommand_frame:
  assumes "RunCommand P TH TI sl f = Inr (code, sl')"
  shows "slave_framein (base sl') = slave_framein (base sl)"
  using assms by (auto simp: RunCommand_def SetResponse_def SetResponseValid_def Let_def split: if_splits)

lemma SendErrorResponse_frame:
  assumes "SendErrorResponse P b f e = Inr b'"
  shows "slave_framein b' = slave_framein b"
  using assms by (auto simp: SendErrorResponse_def SetResponseValid_def Let_def)

lemma ProcessMessage_frame:
  assumes "ProcessMessage P TH TI filter_address sl = Inr sl'"
  shows "GetFrameIn sl' = GetFrameIn sl"
proof -
  consider "sl' = sl" | code where "RunCommand P TH TI sl (GetFrameIn sl) = Inr (code, sl')"
    | e b where "SendErrorResponse P (base sl) (GetFrameIn sl) e = Inr b" "sl' = sl\<lparr>base := b\<rparr>"
    using assms by (auto simp: ProcessMessage_def Let_def split: if_splits)
  then show ?thesis
    by cases (simp_all add: GetFrameIn_def RunCommand_frame SendErrorResponse_frame)
qed

text \<open>
  Over any two stores: a request that the slave answers, as a whole, with \<open>r\<close> and the stores \<open>h\<close>
  and \<open>i\<close> gets that answer from the driver, which is then idle again, with the slave as the
  exchange left it and reset.
\<close>

lemma Runs_answer_run:
  assumes idle: "rxbuff s = []" "txbuff s = []" and l: "listening (slave s)"
    and good: "good_request fn data" and bytes: "map fst bts = request_adu P g addr fn data"
    and out: "outcome (exchange P TH TI (slave s) (request_adu P g addr fn data)) = Inr (r, h, i)"
  shows "\<exists>s'. Runs P TH TI (map (\<lambda>(b, t). ([b], t)) bts @ [([], t1), ([], t2)]) s = Inr s' \<and>
    sent s' = sent s @ (case r of None \<Rightarrow> [] | Some bs \<Rightarrow> bs) \<and>
    holding_store (slave s') = h \<and> input_store (slave s') = i \<and> rxbuff s' = [] \<and> txbuff s' = [] \<and>
    listening (slave s') \<and>
    rbind (exchange P TH TI (slave s) (request_adu P g addr fn data)) (\<lambda>sl. Inr (Slave_Reset sl)) = Inr (slave s') \<and>
    (length (case r of None \<Rightarrow> [] | Some bs \<Rightarrow> bs) \<le> 1024 \<longrightarrow>
       turns_fit P TH TI (map (\<lambda>(b, t). ([b], t)) bts @ [([], t1), ([], t2)]) s)"
proof -
  let ?body = "data @ reg_bytes P [g (addr # Function_code fn # data)]"
  let ?d = "delivered addr fn ?body (slave s)"
  note body = good_request_body [OF good, where P = P and w = "g (addr # Function_code fn # data)"]
  have fn: "fn \<in> set GetValidFunctions" using good by (simp add: good_request_def)
  have feed: "Slave_ProcessCharacters P (slave s) (map fst bts) = Inr ?d"
    unfolding bytes by (rule feed_request_adu [OF l good])
  have len: "length bts = length (addr # Function_code fn # ?body)"
    using arg_cong [OF bytes, of length] by (simp add: request_adu_body)
  have body256: "length ?body \<le> 256" using body(2) by linarith
  have "\<forall>k < length bts. \<forall>sl. Slave_ProcessCharacters P (slave s) (take k (map fst bts)) = Inr sl \<longrightarrow>
      \<not> PacketReceived (slave_ctx (base sl))"
    using request_prefix_incomplete [OF l fn body(1) body256] unfolding len bytes request_adu_body by blast
  from Runs_feed [OF idle feed this] obtain t where
    fed: "Runs P TH TI (map (\<lambda>(b, t). ([b], t)) bts) s = Inr (s\<lparr>slave := ?d, last_character_time := t\<rparr>)"
      "turns_fit P TH TI (map (\<lambda>(b, t). ([b], t)) bts) s"
    by blast
  let ?s1 = "s\<lparr>slave := ?d, last_character_time := t\<rparr>"
  have "outcome (ProcessMessage P TH TI True ?d) = Inr (r, h, i)"
    using out feed by (simp only: exchange_def bytes rbind_simps)
  then obtain sl where sl: "ProcessMessage P TH TI True ?d = Inr sl" "holding_store sl = h" "input_store sl = i"
    "(if slave_response_valid (base sl) then Response_bytes (slave_response (base sl)) else Inr []) =
     Inr (case r of None \<Rightarrow> [] | Some bs \<Rightarrow> bs)"
    by (cases "ProcessMessage P TH TI True ?d") (auto simp: outcome_def split: if_splits)
  have "view_wf (data_array (GetFrameIn ?d))" "view_size (data_array (GetFrameIn ?d)) = 256"
      "data_length (GetFrameIn ?d) \<le> 256"
    using l body256 by (simp_all add: listening_def delivered_def GetFrameIn_def frame_after_def view_wf_def)
  then obtain packet where packet: "PrintPacketData P (GetFrameIn sl) = Inr packet"
    using PrintPacketData_ok [of "GetFrameIn ?d" P] ProcessMessage_frame [OF sl(1)] by auto
  have "PacketReceived (slave_ctx (base (slave ?s1)))"
    by (simp add: PacketReceived_def delivered_def)
  from Run_process_turn [OF _ _ this _ packet, of TH TI _ t1] sl(1,4) idle obtain shown where
    turn1: "Run P TH TI [] t1 ?s1 = Inr (?s1\<lparr>slave := Slave_Reset sl,
        txbuff := (case r of None \<Rightarrow> [] | Some bs \<Rightarrow> bs), printed := shown\<rparr>)" by auto
  let ?s2 = "?s1\<lparr>slave := Slave_Reset sl, txbuff := (case r of None \<Rightarrow> [] | Some bs \<Rightarrow> bs), printed := shown\<rparr>"
  have turn2: "Run P TH TI [] t2 ?s2 = Inr (?s2\<lparr>txbuff := [], sent := sent ?s2 @ txbuff ?s2\<rparr>)"
    by (rule Run_send_turn [of _ sl]) (use idle in simp_all)
  have l2: "listening (Slave_Reset sl)"
    by (rule Slave_Reset_listening)
      (use l body256 ProcessMessage_frame [OF sl(1)] in
        \<open>simp_all add: listening_def delivered_def GetFrameIn_def frame_after_def\<close>)
  have ex: "exchange P TH TI (slave s) (request_adu P g addr fn data) = Inr sl"
    using feed sl(1) by (simp only: exchange_def bytes rbind_simps)
  show ?thesis
    unfolding Runs_append turns_fit_append [OF fed(1)] fed(1) rbind_simps Runs.simps turn1 turn2 ex
    using turn2 turn1 fed(2) idle sl(2,3) l2 by (simp del: rbind_eq_Inr)
qed

text \<open>An idle driver stays as it is while nothing arrives, whatever the clock says.\<close>

lemma Runs_silent:
  assumes "rxbuff s = []" and "txbuff s = []" and "slave s = Slave_Reset sl"
  shows "Runs P TH TI (map (\<lambda>t. ([], t)) ts) s = Inr s \<and> turns_fit P TH TI (map (\<lambda>t. ([], t)) ts) s"
proof (induction ts)
  case (Cons t ts)
  have "s\<lparr>txbuff := [], sent := sent s @ txbuff s\<rparr> = s" using assms(2) by (cases s) simp
  then have "Run P TH TI [] t s = Inr s" using Run_send_turn [OF assms(1,3)] by simp
  then show ?case using Cons assms(1,2) by simp
qed simp

text \<open>The same with two or more silent turns after the request.\<close>

lemma Runs_answer_pause:
  assumes "rxbuff s = []" "txbuff s = []" and "listening (slave s)"
    and "good_request fn data" and "map fst bts = request_adu P g addr fn data"
    and "outcome (exchange P TH TI (slave s) (request_adu P g addr fn data)) = Inr (r, h, i)"
    and small: "length (reply_bytes r) \<le> 1024" and pause: "2 \<le> length ts"
  defines "turns \<equiv> map (\<lambda>(b, t). ([b], t)) bts @ map (\<lambda>t. ([], t)) ts"
  shows "\<exists>s'. Runs P TH TI turns s = Inr s' \<and> turns_fit P TH TI turns s \<and> sent s' = sent s @ reply_bytes r \<and>
    holding_store (slave s') = h \<and> input_store (slave s') = i \<and> rxbuff s' = [] \<and> txbuff s' = [] \<and>
    listening (slave s') \<and>
    rbind (exchange P TH TI (slave s) (request_adu P g addr fn data)) (\<lambda>sl. Inr (Slave_Reset sl)) = Inr (slave s')"
proof -
  obtain t1 t2 ts' where ts: "ts = t1 # t2 # ts'"
    using pause by (cases ts; cases "tl ts") auto
  have turns: "turns = (map (\<lambda>(b, t). ([b], t)) bts @ [([], t1), ([], t2)]) @ map (\<lambda>t. ([], t)) ts'"
    by (simp add: turns_def ts)
  obtain s' where s': "Runs P TH TI (map (\<lambda>(b, t). ([b], t)) bts @ [([], t1), ([], t2)]) s = Inr s'"
    "sent s' = sent s @ reply_bytes r" "holding_store (slave s') = h" "input_store (slave s') = i"
    "rxbuff s' = []" "txbuff s' = []" "listening (slave s')"
    "rbind (exchange P TH TI (slave s) (request_adu P g addr fn data)) (\<lambda>sl. Inr (Slave_Reset sl)) = Inr (slave s')"
    "turns_fit P TH TI (map (\<lambda>(b, t). ([b], t)) bts @ [([], t1), ([], t2)]) s"
    using Runs_answer_run [OF assms(1-6), of t1 t2] small
    by (elim exE conjE) (rule that; (assumption | (erule mp, assumption)))
  obtain sl where "Slave_Reset sl = slave s'"
    using s'(8) by (cases "exchange P TH TI (slave s) (request_adu P g addr fn data)") auto
  from Runs_silent [OF s'(5,6) this [symmetric], of P TH TI ts'] show ?thesis
    unfolding turns Runs_append [of _ _ _ "_ @ _" "map _ ts'"] turns_fit_append [OF s'(1)] s'(1) rbind_simps
    using s' by blast
qed

lemma Runs_answer:
  assumes "rxbuff s = []" "txbuff s = []" and "listening (slave s)"
    and "good_request fn data" and "map fst bts = request_adu P g addr fn data"
    and "outcome (exchange P TH TI (slave s) (request_adu P g addr fn data)) = Inr (r, h, i)"
  shows "rbind (Runs P TH TI (map (\<lambda>(b, t). ([b], t)) bts @ [([], t1), ([], t2)]) s)
      (\<lambda>s'. Inr (sent s', holding_store (slave s'), input_store (slave s'))) =
    Inr (sent s @ (case r of None \<Rightarrow> [] | Some bs \<Rightarrow> bs), h, i)"
  using Runs_answer_run [OF assms, of t1 t2] by auto

text \<open>
  A request that reaches the idle driver one byte per turn, whenever, is answered on the
  line two turns after its last byte, with exactly the reply of the slave and the registers
  it leaves: the theorems about \<open>device_exchange\<close> hold of the running driver.
\<close>

lemma driver_answers_request:
  assumes idle: "rxbuff s = []" "txbuff s = []" and l: "listening (slave s)"
    and good: "good_request fn data" and bytes: "map fst bts = request_adu P g addr fn data"
    and out: "outcome (device_exchange P (slave s) (request_adu P g addr fn data)) = Inr (r, h, i)"
  shows "rbind (Runs P (UpdatingRegisterDataStore_ops P) (RegisterDataStore_ops P)
        (map (\<lambda>(b, t). ([b], t)) bts @ [([], t1), ([], t2)]) s)
      (\<lambda>s'. Inr (sent s', holding_store (slave s'), input_store (slave s'))) =
    Inr (sent s @ (case r of None \<Rightarrow> [] | Some bs \<Rightarrow> bs), h, i)"
  using idle l good bytes out [unfolded device_exchange_def] by (rule Runs_answer)

lemma slave_demo_driver: "slave demo_driver = demo_device"
  by (simp add: demo_driver_def LinuxSlave_init_def demo_device_def SetAddress_def ProtocolRtuSlave_init_def)

text \<open>
  C24: ten frame delays of 3.5 characters (32810 microseconds, 35 character times) of silence put the
  reader back to the start of a frame, whatever was received before, also in the middle of a
  request: the next request is read from its first byte.
\<close>

theorem silence_resynchronises:
  assumes P: "platform_ok P" and inv: "driver_inv g s" and lim: "within_limits P s"
    and quiet: "rxbuff s = []" "32810 \<le> GetMicroSecondsSince (last_character_time s) now"
  shows "\<exists>s'. device_run P [] now s = Inr s' \<and> listening (slave s') \<and> rxbuff s' = [] \<and> driver_inv g s'"
proof -
  let ?TH = "UpdatingRegisterDataStore_ops P" and ?TI = "RegisterDataStore_ops P"
  define s0 where "s0 = ReadIntoRxBuff [] (SendTxBuff s)"
  have s0: "driver_inv g s0" "within_limits P s0" "rxbuff s0 = []" "last_character_time s0 = last_character_time s"
    using inv lim quiet(1) by (simp_all add: s0_def ReadIntoRxBuff_def SendTxBuff_def within_limits_def)
  obtain s1 where s1: "(if PacketReceived (slave_ctx (base (slave s0))) then ProcessPacket P ?TH ?TI s0 else Inr s0) = Inr s1"
    "driver_inv g s1" "rxbuff s1 = []" "last_character_time s1 = last_character_time s"
  proof (cases "PacketReceived (slave_ctx (base (slave s0)))")
    case True
    then obtain s1 where "ProcessPacket P ?TH ?TI s0 = Inr s1" "driver_inv g s1" "rxbuff s1 = rxbuff s0"
      using ProcessPacket_inv [OF P s0(1,2)] by blast
    moreover from this(1) have "last_character_time s1 = last_character_time s0"
      by (auto simp: ProcessPacket_def)
    ultimately show ?thesis using that s0(3,4) True by simp
  next
    case False
    then show ?thesis using that [of s0] s0 by simp
  qed
  let ?s' = "s1\<lparr>slave := Slave_Reset (slave s1)\<rparr>"
  have "RxCharacterTimeout s1 now"
    using quiet(2) s1(4) by (simp add: RxCharacterTimeout_def kFrameDelay_us_def)
  then have "device_run P [] now s = Inr ?s'"
    using s1(1,3) by (simp add: device_run_def Run_def s0_def [symmetric] del: rbind_eq_Inr)
  moreover have "listening (slave ?s')"
    using Slave_Reset_listening [of "slave s1"] s1(2) by (simp add: driver_inv_def reader_inv_def)
  moreover have "driver_inv g ?s'"
    by (rule Slave_Reset_inv [of "slave_ctx (base (slave s1))" "slave s1"])
      (use s1(2) in \<open>simp_all add: driver_inv_def\<close>)
  ultimately show ?thesis using s1(3) by auto
qed

theorem silence_resynchronises_witness:
  "\<exists>s'. device_run (msb_platform True) [] \<lparr>tv_sec = 1, tv_usec = 0\<rparr> demo_driver = Inr s' \<and>
     listening (slave s') \<and> rxbuff s' = [] \<and> driver_inv demo_crc s'"
  by (rule silence_resynchronises [OF msb_platform_ok demo_driver_inv])
    (simp_all add: within_limits_def demo_driver_def LinuxSlave_init_def SetAddress_def GetMicroSecondsSince_def
      ProtocolRtuSlave_init_def SlaveProtocolBase_init_def PacketReceived_def ReadContext_init_def)

end
