(* ===== verification/SerialPort.thy ===== *)
theory SerialPort
  imports Printing
begin

unbundle bit_operations_syntax

text \<open>
  \<open>SetupSerial\<close> of \<open>examples/posix/PosixSerial.h\<close>: the serial port is opened and set to eight data
  bits, no parity, one stop bit and no flow control. The calls of the operating system are a
  record of functions on a state of its own, and the constants of \<open>termios.h\<close> and \<open>fcntl.h\<close> are
  a record of words; \<open>tty_ok\<close> is what the code relies on: each flag is its own bit, and
  \<open>cfmakeraw\<close> does not touch the flags the code set other than by choosing eight bits.
\<close>

section \<open>The system\<close>

text \<open>
  Of the settings of a port the code touches the control flags and the control characters itself;
  the speeds and the other flags are left to the calls of the system.
\<close>

record termios =
  c_cflag :: u32
  c_cc :: "nat \<Rightarrow> u8"
  c_speeds :: "u32 \<times> u32"
  c_modes :: "u32 list"

definition termios_init :: termios where
  "termios_init = \<lparr>c_cflag = 0, c_cc = (\<lambda>_. 0), c_speeds = (0, 0), c_modes = []\<rparr>"

record tty_constants =
  PARENB :: u32
  CSTOPB :: u32
  CSIZE :: u32
  CS8 :: u32
  CRTSCTS :: u32
  CREAD :: u32
  CLOCAL :: u32
  VMIN :: nat
  VTIME :: nat
  open_flags :: u32

text \<open>
  \<open>tcgetattr\<close> stores the settings of an open port and leaves its argument alone when it fails;
  \<open>open_flags\<close> is \<open>O_RDWR | O_NOCTTY | O_NDELAY | O_EXCL\<close>.
\<close>

record 'o posix_ops =
  sys_open :: "string \<Rightarrow> u32 \<Rightarrow> 'o \<Rightarrow> int \<times> 'o"
  sys_tcgetattr :: "int \<Rightarrow> termios \<Rightarrow> 'o \<Rightarrow> int \<times> termios \<times> 'o"
  sys_cfsetospeed :: "u32 \<Rightarrow> termios \<Rightarrow> termios"
  sys_cfsetispeed :: "u32 \<Rightarrow> termios \<Rightarrow> termios"
  sys_cfmakeraw :: "termios \<Rightarrow> termios"
  sys_tcflush :: "int \<Rightarrow> 'o \<Rightarrow> 'o"
  sys_tcsetattr :: "int \<Rightarrow> termios \<Rightarrow> 'o \<Rightarrow> int \<times> 'o"
  sys_errno :: "'o \<Rightarrow> nat"
  sys_strerror :: "nat \<Rightarrow> string"

section \<open>SetupSerial\<close>

definition tty_settings :: "tty_constants \<Rightarrow> 'o posix_ops \<Rightarrow> u32 \<Rightarrow> termios \<Rightarrow> termios" where
  "tty_settings C S baudrate tty =
     (let tty = sys_cfsetospeed S baudrate tty;
          tty = sys_cfsetispeed S baudrate tty;
          tty = tty\<lparr>c_cflag := c_cflag tty AND NOT (PARENB C)\<rparr>;
          tty = tty\<lparr>c_cflag := c_cflag tty AND NOT (CSTOPB C)\<rparr>;
          tty = tty\<lparr>c_cflag := c_cflag tty AND NOT (CSIZE C)\<rparr>;
          tty = tty\<lparr>c_cflag := c_cflag tty OR CS8 C\<rparr>;
          tty = tty\<lparr>c_cflag := c_cflag tty AND NOT (CRTSCTS C)\<rparr>;
          tty = tty\<lparr>c_cc := (c_cc tty)(VMIN C := 0)\<rparr>;
          tty = tty\<lparr>c_cc := (c_cc tty)(VTIME C := 5)\<rparr>;
          tty = tty\<lparr>c_cflag := c_cflag tty OR (CREAD C OR CLOCAL C)\<rparr>
      in sys_cfmakeraw S tty)"

text \<open>The descriptor, what is printed, and the system afterwards.\<close>

definition SetupSerial ::
  "tty_constants \<Rightarrow> 'o posix_ops \<Rightarrow> string \<Rightarrow> u32 \<Rightarrow> 'o \<Rightarrow> int \<times> string \<times> 'o" where
  "SetupSerial C S device baudrate w =
     (let (connection, w) = sys_open S device (open_flags C) w;
          (got, tty, w) = sys_tcgetattr S connection termios_init w;
          printed = (if got \<noteq> 0
            then ''Error '' @ digits_in_base 10 (sys_errno S w) @ '' from tcgetattr: '' @
                 sys_strerror S (sys_errno S w) @ [CHR 0x0A]
            else []);
          tty = tty_settings C S baudrate tty;
          w = sys_tcflush S connection w;
          (applied, w) = sys_tcsetattr S connection tty w;
          printed = printed @ (if applied \<noteq> 0
            then ''Error '' @ digits_in_base 10 (sys_errno S w) @ '' from tcsetattr'' @ [CHR 0x0A]
            else [])
      in (connection, printed, w))"

section \<open>What the port is set to\<close>

definition tty_ok :: "tty_constants \<Rightarrow> 'o posix_ops \<Rightarrow> bool" where
  "tty_ok C S \<longleftrightarrow>
     CS8 C AND CSIZE C = CS8 C \<and>
     (\<forall>x \<in> {PARENB C, CSTOPB C, CRTSCTS C}. x AND (CS8 C OR CREAD C OR CLOCAL C) = 0) \<and>
     CSIZE C AND (CREAD C OR CLOCAL C OR CRTSCTS C) = 0 \<and>
     (\<forall>tty. c_cflag (sys_cfmakeraw S tty) = (c_cflag tty AND NOT (CSIZE C OR PARENB C)) OR CS8 C)"

text \<open>
  Whatever the port was set to: eight data bits, no parity, one stop bit, no flow control, and the
  receiver on.
\<close>

lemma tty_settings_8N1:
  assumes "tty_ok C S"
  shows "c_cflag (tty_settings C S baudrate tty) AND PARENB C = 0"
    and "c_cflag (tty_settings C S baudrate tty) AND CSTOPB C = 0"
    and "c_cflag (tty_settings C S baudrate tty) AND CRTSCTS C = 0"
    and "c_cflag (tty_settings C S baudrate tty) AND CSIZE C = CS8 C"
    and "c_cflag (tty_settings C S baudrate tty) AND (CREAD C OR CLOCAL C) = CREAD C OR CLOCAL C"
  using assms unfolding tty_ok_def tty_settings_def Let_def
  by (auto simp: bit_eq_iff bit_simps)

text \<open>An error is printed and nothing else: the descriptor of a failed \<open>open\<close> is used and returned.\<close>

lemma SetupSerial_keeps_failed_open:
  assumes "sys_open S device (open_flags C) w = (-1, w')"
  shows "fst (SetupSerial C S device baudrate w) = -1"
  using assms by (simp add: SetupSerial_def Let_def split: prod.splits)

end
