(* ===== verification/PosixSerial.thy ===== *)
theory PosixSerial
  imports SerialPort
begin

text \<open>
  \<open>examples/posix/PosixSerial.h\<close>: \<open>UartController\<close>, which moves bytes between a serial port and two
  ring buffers. The ring buffer (\<open>RingBuffer\<close> and \<open>IODevice\<close> of the \<open>external/CppUtilities\<close>
  submodule) and the port (\<open>read\<close> and \<open>write\<close> of the operating system) are records of operations;
  the locale \<open>uart_device\<close> has what the code relies on. The theory shows when the loops of the
  controller end and what they move.
\<close>

section \<open>The controller\<close>

text \<open>
  \<open>ring_pop\<close> gives the oldest byte, or nothing from an empty ring, and the ring without it;
  \<open>ring_write\<close> is \<open>IODevice::write\<close>, which inserts an array. \<open>port_read\<close> is a \<open>read\<close> of one
  byte: what it returns, what it stores, and the port afterwards.
\<close>

record 'q ring_ops =
  ring_isEmpty :: "'q \<Rightarrow> bool"
  ring_pop :: "'q \<Rightarrow> u8 option \<times> 'q"
  ring_insert :: "u8 \<Rightarrow> 'q \<Rightarrow> 'q"
  ring_write :: "u8 list \<Rightarrow> 'q \<Rightarrow> 'q"

record 'p port_ops =
  port_read :: "'p \<Rightarrow> int \<times> u8 option \<times> 'p"
  port_write :: "u8 \<Rightarrow> 'p \<Rightarrow> 'p"

record ('q, 'p) UartController =
  connection :: 'p
  rx_ring :: 'q
  tx_ring :: 'q

text \<open>\<open>port c w\<close> is the port behind the descriptor \<open>c\<close> of the system \<open>w\<close>.\<close>

definition Uart_Setup ::
  "tty_constants \<Rightarrow> 'o posix_ops \<Rightarrow> (int \<Rightarrow> 'o \<Rightarrow> 'p) \<Rightarrow> string \<Rightarrow> u32 \<Rightarrow> 'o \<Rightarrow>
   ('q, 'p) UartController \<Rightarrow> ('q, 'p) UartController \<times> string" where
  "Uart_Setup C S port device_name baudrate w u =
     (case SetupSerial C S device_name baudrate w of (c, shown, w) \<Rightarrow> (u\<lparr>connection := port c w\<rparr>, shown))"

text \<open>A controller starts on descriptor 0 with two empty rings and is set up at once.\<close>

definition UartController_init ::
  "tty_constants \<Rightarrow> 'o posix_ops \<Rightarrow> (int \<Rightarrow> 'o \<Rightarrow> 'p) \<Rightarrow> string \<Rightarrow> u32 \<Rightarrow> 'o \<Rightarrow> 'q \<Rightarrow>
   ('q, 'p) UartController \<times> string" where
  "UartController_init C S port device_name baudrate w empty_ring =
     Uart_Setup C S port device_name baudrate w
       \<lparr>connection = port 0 w, rx_ring = empty_ring, tx_ring = empty_ring\<rparr>"

definition sendByte :: "'p port_ops \<Rightarrow> u8 \<Rightarrow> ('q, 'p) UartController \<Rightarrow> ('q, 'p) UartController" where
  "sendByte W data u = u\<lparr>connection := port_write W data (connection u)\<rparr>"

text \<open>What \<open>read\<close> returns, \<open>data\<close> afterwards, and the controller.\<close>

definition getByte ::
  "'p port_ops \<Rightarrow> u8 \<Rightarrow> ('q, 'p) UartController \<Rightarrow> int \<times> u8 \<times> ('q, 'p) UartController" where
  "getByte W data u =
     (case port_read W (connection u) of (n, stored, p) \<Rightarrow>
        (n, (case stored of None \<Rightarrow> data | Some b \<Rightarrow> b), u\<lparr>connection := p\<rparr>))"

text \<open>The loops may run forever: \<open>None\<close> is a loop that does not end.\<close>

partial_function (option) Uart_SendTxBuff_loop ::
  "'q ring_ops \<Rightarrow> 'p port_ops \<Rightarrow> int \<Rightarrow> ('q, 'p) UartController \<Rightarrow> (int \<times> ('q, 'p) UartController) option" where
  "Uart_SendTxBuff_loop R W cnt u =
     (if \<not> ring_isEmpty R (tx_ring u)
      then case ring_pop R (tx_ring u) of (popped, q) \<Rightarrow>
        Uart_SendTxBuff_loop R W (cnt + 1)
          (sendByte W (case popped of None \<Rightarrow> 0 | Some b \<Rightarrow> b) (u\<lparr>tx_ring := q\<rparr>))
      else Some (cnt, u))"

definition Uart_SendTxBuff ::
  "'q ring_ops \<Rightarrow> 'p port_ops \<Rightarrow> ('q, 'p) UartController \<Rightarrow> (u32 \<times> ('q, 'p) UartController) option" where
  "Uart_SendTxBuff R W u =
     Option.bind (Uart_SendTxBuff_loop R W 0 u) (\<lambda>(cnt, u). Some (word_of_int cnt, u))"

partial_function (option) Uart_ReadIntoRxBuff_loop ::
  "'q ring_ops \<Rightarrow> 'p port_ops \<Rightarrow> u8 \<Rightarrow> int \<Rightarrow> ('q, 'p) UartController \<Rightarrow> (int \<times> ('q, 'p) UartController) option" where
  "Uart_ReadIntoRxBuff_loop R W data cnt u =
     (case getByte W data u of (n, data, u) \<Rightarrow>
        if n = 1
        then Uart_ReadIntoRxBuff_loop R W 0 (cnt + 1) (u\<lparr>rx_ring := ring_insert R data (rx_ring u)\<rparr>)
        else Some (cnt, u))"

definition Uart_ReadIntoRxBuff ::
  "'q ring_ops \<Rightarrow> 'p port_ops \<Rightarrow> ('q, 'p) UartController \<Rightarrow> (u32 \<times> ('q, 'p) UartController) option" where
  "Uart_ReadIntoRxBuff R W u =
     Option.bind (Uart_ReadIntoRxBuff_loop R W 0 0 u) (\<lambda>(cnt, u). Some (word_of_int cnt, u))"

text \<open>What the driver calls of \<open>IODevice\<close>: \<open>rxEmpty\<close>, \<open>read(&data, 1)\<close> and \<open>write\<close>.\<close>

definition rxEmpty :: "'q ring_ops \<Rightarrow> ('q, 'p) UartController \<Rightarrow> bool" where
  "rxEmpty R u = ring_isEmpty R (rx_ring u)"

definition Uart_read :: "'q ring_ops \<Rightarrow> ('q, 'p) UartController \<Rightarrow> u8 \<times> ('q, 'p) UartController" where
  "Uart_read R u =
     (case ring_pop R (rx_ring u) of (popped, q) \<Rightarrow>
        ((case popped of None \<Rightarrow> 0 | Some b \<Rightarrow> b), u\<lparr>rx_ring := q\<rparr>))"

definition Uart_write :: "'q ring_ops \<Rightarrow> u8 list \<Rightarrow> ('q, 'p) UartController \<Rightarrow> ('q, 'p) UartController" where
  "Uart_write R bs u = u\<lparr>tx_ring := ring_write R bs (tx_ring u)\<rparr>"

section \<open>Whether the controller stops reading\<close>

text \<open>The port after \<open>n\<close> reads.\<close>

definition port_after :: "'p port_ops \<Rightarrow> nat \<Rightarrow> 'p \<Rightarrow> 'p" where
  "port_after W n p = ((\<lambda>p. snd (snd (port_read W p))) ^^ n) p"

lemma port_after_simps:
  "port_after W 0 p = p"
  "port_after W n (snd (snd (port_read W p))) = port_after W (Suc n) p"
  by (simp_all add: port_after_def funpow_Suc_right del: funpow.simps)

lemma getByte_returns:
  "fst (getByte W data u) = fst (port_read W (connection u))"
  "snd (snd (getByte W data u)) = u\<lparr>connection := snd (snd (port_read W (connection u)))\<rparr>"
  by (simp_all add: getByte_def split: prod.splits)

lemma read_loop_returns:
  assumes "fst (port_read W (port_after W n (connection u))) \<noteq> 1"
  shows "\<exists>r. Uart_ReadIntoRxBuff_loop R W data cnt u = Some r"
  using assms
proof (induction n arbitrary: data cnt u)
  case 0
  then show ?case
    by (subst Uart_ReadIntoRxBuff_loop.simps) (simp add: port_after_simps getByte_returns split_beta)
next
  case (Suc n)
  let ?u = "snd (snd (getByte W data u))"
  have "fst (port_read W (port_after W n (connection (?u\<lparr>rx_ring := q\<rparr>)))) \<noteq> 1" for q
    using Suc.prems by (simp add: getByte_returns port_after_simps)
  from Suc.IH [OF this] show ?case
    by (subst Uart_ReadIntoRxBuff_loop.simps) (simp add: split_beta)
qed

lemma read_loop_stopped:
  assumes "Uart_ReadIntoRxBuff_loop R W data cnt u = Some r"
  shows "\<exists>n. fst (port_read W (port_after W n (connection u))) \<noteq> 1"
proof (rule Uart_ReadIntoRxBuff_loop.raw_induct [OF _ assms,
      where P = "\<lambda>R W data cnt u r. \<exists>n. fst (port_read W (port_after W n (connection u))) \<noteq> 1"])
  fix loop :: "'a ring_ops \<Rightarrow> 'b port_ops \<Rightarrow> u8 \<Rightarrow> int \<Rightarrow> ('a, 'b) UartController \<Rightarrow> (int \<times> ('a, 'b) UartController) option"
    and R :: "'a ring_ops" and W :: "'b port_ops" and data cnt u r
  assume IH: "\<And>R W data cnt u r. loop R W data cnt u = Some r \<Longrightarrow>
      \<exists>n. fst (port_read W (port_after W n (connection u))) \<noteq> 1"
    and run: "(case getByte W data u of (n, data, u) \<Rightarrow>
        if n = 1 then loop R W 0 (cnt + 1) (u\<lparr>rx_ring := ring_insert R data (rx_ring u)\<rparr>)
        else Some (cnt, u)) = Some r"
  show "\<exists>n. fst (port_read W (port_after W n (connection u))) \<noteq> 1"
  proof (cases "fst (port_read W (connection u)) = 1")
    case False
    then show ?thesis by (intro exI [of _ 0]) (simp add: port_after_simps)
  next
    case True
    then obtain q where "loop R W 0 (cnt + 1) ((snd (snd (getByte W data u)))\<lparr>rx_ring := q\<rparr>) = Some r"
      using run by (auto simp: split_beta getByte_returns)
    from IH [OF this] show ?thesis by (auto simp: getByte_returns port_after_simps)
  qed
qed

text \<open>
  C23: \<open>ReadIntoRxBuff\<close> returns exactly when some \<open>read\<close> on the port gives something other than
  one byte, whatever the ring buffer does: a port that always has a byte keeps the driver in this
  loop forever, and a full ring does not end it.
\<close>

theorem ReadIntoRxBuff_returns_iff:
  "(\<exists>r. Uart_ReadIntoRxBuff R W u = Some r) \<longleftrightarrow>
   (\<exists>n. fst (port_read W (port_after W n (connection u))) \<noteq> 1)"
proof
  assume "\<exists>r. Uart_ReadIntoRxBuff R W u = Some r"
  then obtain r where "Uart_ReadIntoRxBuff_loop R W 0 0 u = Some r"
    by (auto simp: Uart_ReadIntoRxBuff_def bind_eq_Some_conv)
  then show "\<exists>n. fst (port_read W (port_after W n (connection u))) \<noteq> 1" by (rule read_loop_stopped)
next
  assume "\<exists>n. fst (port_read W (port_after W n (connection u))) \<noteq> 1"
  then show "\<exists>r. Uart_ReadIntoRxBuff R W u = Some r"
    using read_loop_returns [of W _ u R 0 0] by (fastforce simp: Uart_ReadIntoRxBuff_def)
qed

section \<open>What the controller relies on\<close>

text \<open>
  \<open>contents q\<close> are the bytes of a ring, oldest first; \<open>arriving p\<close> the bytes the port has for the
  next reads and \<open>line p\<close> all that was written to it. A ring holds 1024 bytes and drops a byte
  that does not fit, as \<open>tests/source/test_ringbuffer.cpp\<close> checks; a port whose bytes are used up
  does not block and does not give one byte (the port is opened with \<open>O_NDELAY\<close>), and it takes
  every byte written.
\<close>

locale uart_device =
  fixes R :: "'q ring_ops" and W :: "'p port_ops"
    and contents :: "'q \<Rightarrow> u8 list" and arriving :: "'p \<Rightarrow> u8 list" and line :: "'p \<Rightarrow> u8 list"
  assumes isEmpty: "ring_isEmpty R q \<longleftrightarrow> contents q = []"
    and pop: "contents q = b # bs \<Longrightarrow> fst (ring_pop R q) = Some b \<and> contents (snd (ring_pop R q)) = bs"
    and insert: "contents (ring_insert R b q) =
      (if length (contents q) < 1024 then contents q @ [b] else contents q)"
    and ring_write: "length (contents q) + length bs \<le> 1024 \<Longrightarrow> contents (ring_write R bs q) = contents q @ bs"
    and port_byte: "arriving p = b # bs \<Longrightarrow>
      \<exists>p'. port_read W p = (1, Some b, p') \<and> arriving p' = bs \<and> line p' = line p"
    and port_dry: "arriving p = [] \<Longrightarrow>
      fst (port_read W p) \<noteq> 1 \<and> arriving (snd (snd (port_read W p))) = [] \<and>
      line (snd (snd (port_read W p))) = line p"
    and port_write: "line (port_write W b p) = line p @ [b]" "arriving (port_write W b p) = arriving p"
begin

lemma send_loop:
  "\<exists>u'. Uart_SendTxBuff_loop R W cnt u = Some (cnt + int (length (contents (tx_ring u))), u') \<and>
     contents (tx_ring u') = [] \<and> rx_ring u' = rx_ring u \<and>
     line (connection u') = line (connection u) @ contents (tx_ring u) \<and>
     arriving (connection u') = arriving (connection u)"
proof (induction "contents (tx_ring u)" arbitrary: cnt u)
  case Nil
  then show ?case by (subst Uart_SendTxBuff_loop.simps) (simp add: isEmpty)
next
  case (Cons b bs)
  obtain q where q: "ring_pop R (tx_ring u) = (Some b, q)" "contents q = bs"
    using pop [OF Cons.hyps(2) [symmetric]] by (cases "ring_pop R (tx_ring u)") auto
  let ?u = "sendByte W b (u\<lparr>tx_ring := q\<rparr>)"
  have "bs = contents (tx_ring ?u)" using q(2) by (simp add: sendByte_def)
  from Cons.hyps(1) [OF this, of "cnt + 1"] show ?case
    using q Cons.hyps(2) [symmetric]
    by (subst Uart_SendTxBuff_loop.simps) (auto simp: isEmpty sendByte_def port_write)
qed

lemma read_loop:
  assumes "length (contents (rx_ring u)) \<le> 1024"
  shows "\<exists>u'. Uart_ReadIntoRxBuff_loop R W data cnt u = Some (cnt + int (length (arriving (connection u))), u') \<and>
     contents (rx_ring u') = take 1024 (contents (rx_ring u) @ arriving (connection u)) \<and>
     tx_ring u' = tx_ring u \<and> line (connection u') = line (connection u) \<and> arriving (connection u') = []"
  using assms
proof (induction "arriving (connection u)" arbitrary: data cnt u)
  case Nil
  then show ?case
    using port_dry [of "connection u"]
    by (subst Uart_ReadIntoRxBuff_loop.simps) (simp add: getByte_def split_beta)
next
  case (Cons b bs)
  obtain p where p: "port_read W (connection u) = (1, Some b, p)" "arriving p = bs" "line p = line (connection u)"
    using port_byte [OF Cons.hyps(2) [symmetric]] by blast
  let ?u = "u\<lparr>connection := p, rx_ring := ring_insert R b (rx_ring u)\<rparr>"
  have "bs = arriving (connection ?u)" "length (contents (rx_ring ?u)) \<le> 1024"
    using p(2) Cons.prems by (simp_all add: insert)
  from Cons.hyps(1) [OF this, of 0 "cnt + 1"] show ?case
    using p Cons.hyps(2) [symmetric] Cons.prems
    by (subst Uart_ReadIntoRxBuff_loop.simps) (auto simp: getByte_def insert take_Cons')
qed

lemma SendTxBuff_flushes:
  "\<exists>u'. Uart_SendTxBuff R W u = Some (word_of_nat (length (contents (tx_ring u))), u') \<and>
     contents (tx_ring u') = [] \<and> rx_ring u' = rx_ring u \<and>
     line (connection u') = line (connection u) @ contents (tx_ring u) \<and>
     arriving (connection u') = arriving (connection u)"
  using send_loop [of 0 u] by (auto simp: Uart_SendTxBuff_def)

lemma ReadIntoRxBuff_fills:
  assumes "length (contents (rx_ring u)) \<le> 1024"
  shows "\<exists>u'. Uart_ReadIntoRxBuff R W u = Some (word_of_nat (length (arriving (connection u))), u') \<and>
     contents (rx_ring u') = take 1024 (contents (rx_ring u) @ arriving (connection u)) \<and>
     tx_ring u' = tx_ring u \<and> line (connection u') = line (connection u) \<and> arriving (connection u') = []"
  using read_loop [OF assms, of 0 0] by (auto simp: Uart_ReadIntoRxBuff_def)

end

section \<open>A ring and a port\<close>

text \<open>
  The ring as the queue its tests describe, and a port as the bytes that wait on it and the bytes
  written to it; \<open>read\<close> gives -1 when nothing waits, as it does with \<open>O_NDELAY\<close>.
\<close>

definition queue_ring :: "u8 list ring_ops" where
  "queue_ring = \<lparr>ring_isEmpty = (\<lambda>q. q = []),
     ring_pop = (\<lambda>q. case q of [] \<Rightarrow> (None, []) | b # bs \<Rightarrow> (Some b, bs)),
     ring_insert = (\<lambda>b q. if length q < 1024 then q @ [b] else q),
     ring_write = (\<lambda>bs q. q @ take (1024 - length q) bs)\<rparr>"

definition line_port :: "(u8 list \<times> u8 list) port_ops" where
  "line_port = \<lparr>port_read = (\<lambda>(waiting, written). case waiting of
       [] \<Rightarrow> (-1, None, ([], written)) | b # bs \<Rightarrow> (1, Some b, (bs, written))),
     port_write = (\<lambda>b (waiting, written). (waiting, written @ [b]))\<rparr>"

interpretation line_uart: uart_device queue_ring line_port "\<lambda>q. q" fst snd
  by unfold_locales (auto simp: queue_ring_def line_port_def split: list.splits prod.splits)

end
