(* ===== verification/UartDriver.thy ===== *)
theory UartDriver
  imports LinuxSlave PosixSerial
begin

text \<open>
  The polling driver of \<open>examples/LinuxSlave/source/LinuxSlave.h\<close> on the \<open>UartController\<close> of
  \<open>examples/posix/PosixSerial.h\<close>: the same members as in the theory \<open>LinuxSlave\<close>, where the device is
  two queues, with the ring buffers and the serial port in their place. The driver on rings of
  1024 bytes is shown to implement the driver on queues, and a request on the port to be answered
  on the port.
\<close>

section \<open>The driver on the controller\<close>

record ('h, 'i, 'q, 'p) UartSlave =
  uart_slave :: "('h, 'i) ProtocolRtuSlave"
  uart_time :: timeval
  iodev :: "('q, 'p) UartController"
  uart_printed :: string

definition Uart_ProcessPacket ::
  "platform \<Rightarrow> ('h, 'x) writable_store_scheme \<Rightarrow> ('i, 'y) readable_store_scheme \<Rightarrow> 'q ring_ops \<Rightarrow>
   ('h, 'i, 'q, 'p) UartSlave \<Rightarrow> ('h, 'i, 'q, 'p) UartSlave result" where
  "Uart_ProcessPacket P TH TI R s =
     rbind (ProcessMessage P TH TI True (uart_slave s)) (\<lambda>sl.
     rbind (PrintPacketData P (GetFrameIn sl)) (\<lambda>packet.
     rbind (if slave_response_valid (base sl)
            then rbind (Response_bytes (slave_response (base sl))) (\<lambda>bs.
                 rbind (c_assert P (length bs = res_length (slave_response (base sl)))) (\<lambda>_.
                 Inr (Uart_write R bs (iodev s), print_response bs)))
            else Inr (iodev s, [])) (\<lambda>(dev, response).
     Inr (s\<lparr>uart_slave := Slave_Reset sl, iodev := dev,
            uart_printed := uart_printed s @ packet @ [CHR 0x0A] @ response\<rparr>))))"

definition Uart_poll ::
  "platform \<Rightarrow> ('h, 'x) writable_store_scheme \<Rightarrow> ('i, 'y) readable_store_scheme \<Rightarrow> 'q ring_ops \<Rightarrow>
   timeval \<Rightarrow> ('h, 'i, 'q, 'p) UartSlave \<Rightarrow> ('h, 'i, 'q, 'p) UartSlave result" where
  "Uart_poll P TH TI R now s =
     rbind (if PacketReceived (slave_ctx (base (uart_slave s))) then Uart_ProcessPacket P TH TI R s else Inr s)
       (\<lambda>s.
     if \<not> rxEmpty R (iodev s)
     then case Uart_read R (iodev s) of (data, dev) \<Rightarrow>
       rbind (Slave_ProcessCharacter P (uart_slave s) data) (\<lambda>sl.
       Inr (s\<lparr>uart_time := now, iodev := dev, uart_slave := sl\<rparr>))
     else Inr (if GetMicroSecondsSince (uart_time s) now \<ge> 10 * kFrameDelay_us
               then s\<lparr>uart_slave := Slave_Reset (uart_slave s)\<rparr> else s))"

definition Uart_Run ::
  "platform \<Rightarrow> ('h, 'x) writable_store_scheme \<Rightarrow> ('i, 'y) readable_store_scheme \<Rightarrow>
   'q ring_ops \<Rightarrow> 'p port_ops \<Rightarrow> timeval \<Rightarrow> ('h, 'i, 'q, 'p) UartSlave \<Rightarrow>
   ('h, 'i, 'q, 'p) UartSlave result option" where
  "Uart_Run P TH TI R W now s =
     Option.bind (Uart_SendTxBuff R W (iodev s)) (\<lambda>(_, dev).
     Option.bind (Uart_ReadIntoRxBuff R W dev) (\<lambda>(_, dev).
     Some (Uart_poll P TH TI R now (s\<lparr>iodev := dev\<rparr>))))"

text \<open>
  The loop of \<open>main\<close>, over the bytes that reach the port before each turn, \<open>deliver\<close>, and what the
  clock says.
\<close>

fun Uart_Runs ::
  "platform \<Rightarrow> ('h, 'x) writable_store_scheme \<Rightarrow> ('i, 'y) readable_store_scheme \<Rightarrow>
   'q ring_ops \<Rightarrow> 'p port_ops \<Rightarrow> (u8 list \<Rightarrow> 'p \<Rightarrow> 'p) \<Rightarrow> (u8 list \<times> timeval) list \<Rightarrow>
   ('h, 'i, 'q, 'p) UartSlave \<Rightarrow> ('h, 'i, 'q, 'p) UartSlave result option" where
  "Uart_Runs P TH TI R W deliver [] s = Some (Inr s)"
| "Uart_Runs P TH TI R W deliver ((arrived, now) # turns) s =
     Option.bind (Uart_Run P TH TI R W now
         (s\<lparr>iodev := (iodev s)\<lparr>connection := deliver arrived (connection (iodev s))\<rparr>\<rparr>)) (\<lambda>r.
     case r of Inl e \<Rightarrow> Some (Inl e) | Inr s \<Rightarrow> Uart_Runs P TH TI R W deliver turns s)"

lemma Uart_Runs_append:
  "Uart_Runs P TH TI R W deliver xs s = Some (Inr s') \<Longrightarrow>
   Uart_Runs P TH TI R W deliver (xs @ ys) s = Uart_Runs P TH TI R W deliver ys s'"
proof (induction xs arbitrary: s)
  case (Cons x xs)
  obtain arrived now where x: "x = (arrived, now)" by (cases x)
  let ?r = "Uart_Run P TH TI R W now (s\<lparr>iodev := (iodev s)\<lparr>connection := deliver arrived (connection (iodev s))\<rparr>\<rparr>)"
  show ?case
  proof (cases ?r)
    case (Some r)
    then show ?thesis using Cons x by (cases r) simp_all
  qed (use Cons.prems x in simp)
qed simp

definition UartSlave_init ::
  "Crc16 \<Rightarrow> u8 \<Rightarrow> 'h \<Rightarrow> 'i \<Rightarrow> timeval \<Rightarrow> ('q, 'p) UartController \<Rightarrow> ('h, 'i, 'q, 'p) UartSlave" where
  "UartSlave_init crcf addr h i now u =
     \<lparr>uart_slave = SetAddress addr (ProtocolRtuSlave_init crcf 3 h i), uart_time = now, iodev = u, uart_printed = []\<rparr>"

section \<open>The driver on rings is the driver on queues\<close>

text \<open>The driver state of \<open>LinuxSlave\<close> that a state of the driver on the controller stands for.\<close>

definition queue_view ::
  "('q \<Rightarrow> u8 list) \<Rightarrow> ('p \<Rightarrow> u8 list) \<Rightarrow> ('h, 'i, 'q, 'p) UartSlave \<Rightarrow> ('h, 'i) LinuxSlave" where
  "queue_view contents line s =
     \<lparr>slave = uart_slave s, last_character_time = uart_time s, rxbuff = contents (rx_ring (iodev s)),
      txbuff = contents (tx_ring (iodev s)), sent = line (connection (iodev s)), printed = uart_printed s\<rparr>"

lemma queue_view_simps [simp]:
  "slave (queue_view contents line s) = uart_slave s"
  "last_character_time (queue_view contents line s) = uart_time s"
  "rxbuff (queue_view contents line s) = contents (rx_ring (iodev s))"
  "txbuff (queue_view contents line s) = contents (tx_ring (iodev s))"
  "sent (queue_view contents line s) = line (connection (iodev s))"
  "printed (queue_view contents line s) = uart_printed s"
  by (simp_all add: queue_view_def)

context uart_device
begin

lemma ProcessPacket_refines:
  assumes run: "ProcessPacket P TH TI (queue_view contents line s) = Inr s1"
    and room: "length (txbuff s1) \<le> 1024"
  shows "\<exists>s'. Uart_ProcessPacket P TH TI R s = Inr s' \<and> queue_view contents line s' = s1 \<and>
    rx_ring (iodev s') = rx_ring (iodev s) \<and> connection (iodev s') = connection (iodev s)"
proof -
  obtain sl packet where sl: "ProcessMessage P TH TI True (uart_slave s) = Inr sl"
    "PrintPacketData P (GetFrameIn sl) = Inr packet"
    using run by (auto simp: ProcessPacket_def)
  show ?thesis
  proof (cases "slave_response_valid (base sl)")
    case False
    then show ?thesis
      using run sl by (auto simp: ProcessPacket_def Uart_ProcessPacket_def queue_view_def)
  next
    case True
    obtain bs where bs: "Response_bytes (slave_response (base sl)) = Inr bs"
      "c_assert P (length bs = res_length (slave_response (base sl))) = Inr ()"
      "txbuff s1 = contents (tx_ring (iodev s)) @ bs"
      using run sl True by (auto simp: ProcessPacket_def)
    have "contents (ring_write R bs (tx_ring (iodev s))) = contents (tx_ring (iodev s)) @ bs"
      using room bs(3) by (intro ring_write) simp
    then show ?thesis
      using run sl True bs(1,2) by (auto simp: ProcessPacket_def Uart_ProcessPacket_def Uart_write_def queue_view_def)
  qed
qed

text \<open>One turn after the port was served: the character, or the time-out.\<close>

lemma poll_rest_refines:
  assumes "(case rxbuff (queue_view contents line s) of
      data # rest \<Rightarrow> rbind (Slave_ProcessCharacter P (slave (queue_view contents line s)) data) (\<lambda>sl.
        Inr ((queue_view contents line s)\<lparr>last_character_time := now, rxbuff := rest, slave := sl\<rparr>))
    | [] \<Rightarrow> Inr (if RxCharacterTimeout (queue_view contents line s) now
        then (queue_view contents line s)\<lparr>slave := Slave_Reset (slave (queue_view contents line s))\<rparr>
        else queue_view contents line s)) = Inr s1"
  shows "\<exists>s'. (if \<not> rxEmpty R (iodev s)
     then case Uart_read R (iodev s) of (data, dev) \<Rightarrow>
       rbind (Slave_ProcessCharacter P (uart_slave s) data) (\<lambda>sl.
       Inr (s\<lparr>uart_time := now, iodev := dev, uart_slave := sl\<rparr>))
     else Inr (if GetMicroSecondsSince (uart_time s) now \<ge> 10 * kFrameDelay_us
               then s\<lparr>uart_slave := Slave_Reset (uart_slave s)\<rparr> else s)) = Inr s' \<and>
    queue_view contents line s' = s1 \<and> connection (iodev s') = connection (iodev s)"
proof (cases "contents (rx_ring (iodev s))")
  case Nil
  then show ?thesis
    using assms by (auto simp: rxEmpty_def isEmpty RxCharacterTimeout_def queue_view_def)
next
  case (Cons b bs)
  obtain q where "ring_pop R (rx_ring (iodev s)) = (Some b, q)" "contents q = bs"
    using pop [OF Cons] by (cases "ring_pop R (rx_ring (iodev s))") auto
  then show ?thesis
    using assms Cons by (auto simp: rxEmpty_def isEmpty Uart_read_def queue_view_def)
qed

lemma Run_refines:
  assumes room: "length (contents (rx_ring (iodev s))) + length (arriving (connection (iodev s))) \<le> 1024"
    and run: "Run P TH TI (arriving (connection (iodev s))) now (queue_view contents line s) = Inr s1"
    and small: "length (txbuff s1) \<le> 1024"
  shows "\<exists>s'. Uart_Run P TH TI R W now s = Some (Inr s') \<and> queue_view contents line s' = s1 \<and>
    arriving (connection (iodev s')) = []"
proof -
  let ?abs = "queue_view contents line" and ?in = "arriving (connection (iodev s))"
  obtain n u where u: "Uart_SendTxBuff R W (iodev s) = Some (n, u)" "contents (tx_ring u) = []"
    "rx_ring u = rx_ring (iodev s)" "line (connection u) = line (connection (iodev s)) @ contents (tx_ring (iodev s))"
    "arriving (connection u) = ?in"
    using SendTxBuff_flushes [of "iodev s"] by blast
  obtain m v where v: "Uart_ReadIntoRxBuff R W u = Some (m, v)"
    "contents (rx_ring v) = contents (rx_ring (iodev s)) @ ?in" "tx_ring v = tx_ring u"
    "line (connection v) = line (connection u)" "arriving (connection v) = []"
    using ReadIntoRxBuff_fills [of u] room u(3,5) by auto
  let ?s = "s\<lparr>iodev := v\<rparr>"
  have io: "ReadIntoRxBuff ?in (SendTxBuff (?abs s)) = ?abs ?s"
    using u v by (simp add: ReadIntoRxBuff_def SendTxBuff_def queue_view_def)
  obtain s2 where s2: "(if PacketReceived (slave_ctx (base (slave (?abs ?s))))
      then ProcessPacket P TH TI (?abs ?s) else Inr (?abs ?s)) = Inr s2"
    "(case rxbuff s2 of
        data # rest \<Rightarrow> rbind (Slave_ProcessCharacter P (slave s2) data) (\<lambda>sl.
          Inr (s2\<lparr>last_character_time := now, rxbuff := rest, slave := sl\<rparr>))
      | [] \<Rightarrow> Inr (if RxCharacterTimeout s2 now then s2\<lparr>slave := Slave_Reset (slave s2)\<rparr> else s2)) = Inr s1"
    "txbuff s1 = txbuff s2"
    by (rule RunE [OF run, unfolded io])
  have "\<exists>t. (if PacketReceived (slave_ctx (base (uart_slave ?s))) then Uart_ProcessPacket P TH TI R ?s else Inr ?s) = Inr t \<and>
      ?abs t = s2 \<and> connection (iodev t) = connection v"
  proof (cases "PacketReceived (slave_ctx (base (uart_slave ?s)))")
    case True
    then have p: "ProcessPacket P TH TI (?abs ?s) = Inr s2" using s2(1) by simp
    moreover have "length (txbuff s2) \<le> 1024" using small s2(3) by simp
    ultimately show ?thesis using ProcessPacket_refines True by fastforce
  next
    case False
    then show ?thesis using s2(1) by simp
  qed
  then obtain t where t: "(if PacketReceived (slave_ctx (base (uart_slave ?s)))
      then Uart_ProcessPacket P TH TI R ?s else Inr ?s) = Inr t" "?abs t = s2" "connection (iodev t) = connection v"
    by blast
  from poll_rest_refines [where s = t and P = P and now = now and ?s1.0 = s1] s2(2) t(2) obtain s' where
    "Uart_poll P TH TI R now ?s = Inr s'" "?abs s' = s1" "connection (iodev s') = connection v"
    unfolding Uart_poll_def t(1) rbind_simps t(3) by blast
  then show ?thesis using u(1) v(1,5) by (auto simp: Uart_Run_def)
qed

end

section \<open>Runs of the driver on the controller\<close>

type_synonym ('q, 'p) uart_driver = "(UpdatingRegisterDataStore, RegisterDataStore, 'q, 'p) UartSlave"

definition uart_run ::
  "platform \<Rightarrow> 'q ring_ops \<Rightarrow> 'p port_ops \<Rightarrow> timeval \<Rightarrow> ('q, 'p) uart_driver \<Rightarrow> ('q, 'p) uart_driver result option" where
  "uart_run P = Uart_Run P (UpdatingRegisterDataStore_ops P) (RegisterDataStore_ops P)"

definition rx_room :: "('q \<Rightarrow> u8 list) \<Rightarrow> ('p \<Rightarrow> u8 list) \<Rightarrow> ('h, 'i, 'q, 'p) UartSlave \<Rightarrow> bool" where
  "rx_room contents arriving s \<longleftrightarrow>
     length (contents (rx_ring (iodev s))) + length (arriving (connection (iodev s))) \<le> 1024"

text \<open>Between two turns bytes may arrive: the port changes, but not what was written to it.\<close>

inductive uart_reachable ::
  "platform \<Rightarrow> 'q ring_ops \<Rightarrow> 'p port_ops \<Rightarrow> ('q \<Rightarrow> u8 list) \<Rightarrow> ('p \<Rightarrow> u8 list) \<Rightarrow> ('p \<Rightarrow> u8 list) \<Rightarrow>
   ('q, 'p) uart_driver \<Rightarrow> ('q, 'p) uart_driver \<Rightarrow> bool"
  for P R W contents arriving line s0 where
  start: "uart_reachable P R W contents arriving line s0 s0"
| arrive: "uart_reachable P R W contents arriving line s0 s \<Longrightarrow> line p = line (connection (iodev s)) \<Longrightarrow>
    uart_reachable P R W contents arriving line s0 (s\<lparr>iodev := (iodev s)\<lparr>connection := p\<rparr>\<rparr>)"
| turn: "uart_reachable P R W contents arriving line s0 s \<Longrightarrow> rx_room contents arriving s \<Longrightarrow>
    within_limits P (queue_view contents line s) \<Longrightarrow> uart_run P R W now s = Some (Inr s') \<Longrightarrow>
    uart_reachable P R W contents arriving line s0 s'"

lemma device_run_small:
  assumes P: "platform_ok P" and inv: "driver_inv g s" and lim: "within_limits P s"
    and run: "device_run P arrived now s = Inr s'"
  shows "length (txbuff s') \<le> 1024"
proof -
  let ?TH = "UpdatingRegisterDataStore_ops P" and ?TI = "RegisterDataStore_ops P"
  define s0 where "s0 = ReadIntoRxBuff arrived (SendTxBuff s)"
  have s0: "driver_inv g s0" "within_limits P s0" "txbuff s0 = []"
    using inv lim by (simp_all add: s0_def ReadIntoRxBuff_def SendTxBuff_def within_limits_def)
  obtain s1 where s1: "(if PacketReceived (slave_ctx (base (slave s0))) then ProcessPacket P ?TH ?TI s0 else Inr s0) = Inr s1"
    "txbuff s' = txbuff s1"
    using run unfolding device_run_def s0_def by (rule RunE)
  then show ?thesis
    using ProcessPacket_inv [OF P s0(1,2)] s0(3) by (auto split: if_splits)
qed

context uart_device
begin

lemma uart_run_refines:
  assumes P: "platform_ok P" and inv: "driver_inv g (queue_view contents line s)"
    and lim: "within_limits P (queue_view contents line s)" and room: "rx_room contents arriving s"
  shows "\<exists>s'. uart_run P R W now s = Some (Inr s') \<and> arriving (connection (iodev s')) = [] \<and>
    device_run P (arriving (connection (iodev s))) now (queue_view contents line s) =
      Inr (queue_view contents line s')"
proof -
  let ?abs = "queue_view contents line"
  obtain s1 where s1: "device_run P (arriving (connection (iodev s))) now (?abs s) = Inr s1"
    using device_run_inv [OF P inv lim] by blast
  have "\<exists>s'. uart_run P R W now s = Some (Inr s') \<and> ?abs s' = s1 \<and> arriving (connection (iodev s')) = []"
    unfolding uart_run_def
    by (rule Run_refines [OF _ s1 [unfolded device_run_def] device_run_small [OF P inv lim s1]])
      (use room in \<open>simp add: rx_room_def\<close>)
  then show ?thesis using s1 by blast
qed

lemma uart_simulation:
  assumes P: "platform_ok P" and start: "driver_inv g (queue_view contents line s0)"
    and run: "uart_reachable P R W contents arriving line s0 s"
  shows "driver_inv g (queue_view contents line s) \<and>
    driver_reachable P (queue_view contents line s0) (queue_view contents line s)"
  using run
proof induction
  case start
  then show ?case using assms(2) by (auto intro: driver_reachable.start)
next
  case (arrive s p)
  then have "queue_view contents line (s\<lparr>iodev := (iodev s)\<lparr>connection := p\<rparr>\<rparr>) = queue_view contents line s"
    by (simp add: queue_view_def)
  then show ?case using arrive.IH by simp
next
  case (turn s now s')
  then have inv: "driver_inv g (queue_view contents line s)" by simp
  have step: "device_run P (arriving (connection (iodev s))) now (queue_view contents line s) =
      Inr (queue_view contents line s')"
    using uart_run_refines [OF P inv turn.hyps(3,2), of now] turn.hyps(4) by auto
  then have "driver_inv g (queue_view contents line s')"
    using device_run_inv [OF P inv turn.hyps(3), of "arriving (connection (iodev s))" now] by simp
  moreover have "driver_reachable P (queue_view contents line s0) (queue_view contents line s')"
    using turn.IH driver_reachable.step [OF _ driver_step.turn [OF turn.hyps(3) step]] by blast
  ultimately show ?case by blast
qed

end

text \<open>
  C5: the driver on ring buffers of 1024 bytes and a serial port implements the driver on
  queues. Every state it reaches, from a device that was just set up and inside the limits,
  stands for a state that the driver on queues reaches; and when the bytes that wait fit the
  receive ring, its next turn returns (both loops of the controller end), does not fault, and
  is the turn of the driver on queues over those bytes.
\<close>

theorem uart_driver_implements_queue_driver:
  assumes P: "platform_ok P" and dev: "uart_device R W contents arriving line"
    and store: "updating_wf h" "store_wf i" "crc_ok crcf g"
    and fresh: "contents (rx_ring u) = []" "contents (tx_ring u) = []" "line (connection u) = []"
    and run: "uart_reachable P R W contents arriving line (UartSlave_init crcf addr h i t u) s"
  shows "driver_reachable P (LinuxSlave_init crcf addr h i t) (queue_view contents line s) \<and>
    (within_limits P (queue_view contents line s) \<and> rx_room contents arriving s \<longrightarrow>
      (\<exists>s'. uart_run P R W now s = Some (Inr s') \<and> arriving (connection (iodev s')) = [] \<and>
         device_run P (arriving (connection (iodev s))) now (queue_view contents line s) =
           Inr (queue_view contents line s')))"
proof -
  let ?abs = "queue_view contents line"
  have init: "?abs (UartSlave_init crcf addr h i t u) = LinuxSlave_init crcf addr h i t"
    using fresh by (simp add: queue_view_def UartSlave_init_def LinuxSlave_init_def)
  have sim: "driver_inv g (?abs s) \<and> driver_reachable P (LinuxSlave_init crcf addr h i t) (?abs s)"
    using uart_device.uart_simulation [OF dev P _ run, of g] LinuxSlave_init_inv [OF store]
    unfolding init by blast
  then show ?thesis
    using uart_device.uart_run_refines [OF dev P, of g s now] by blast
qed

theorem uart_driver_implements_queue_driver_witness:
  "\<exists>s'. uart_run (msb_platform True) queue_ring line_port \<lparr>tv_sec = 0, tv_usec = 9\<rparr>
      (UartSlave_init (crc16 (msb_platform True) demo_crc) 7 demo_holding demo_input \<lparr>tv_sec = 0, tv_usec = 0\<rparr>
         \<lparr>connection = ([7, 3], []), rx_ring = [], tx_ring = []\<rparr>) = Some (Inr s') \<and>
    device_run (msb_platform True) [7, 3] \<lparr>tv_sec = 0, tv_usec = 9\<rparr> demo_driver = Inr (queue_view (\<lambda>q. q) snd s')"
proof -
  let ?P = "msb_platform True" and ?u = "\<lparr>connection = ([7, 3], []), rx_ring = [], tx_ring = []\<rparr>"
  let ?s = "UartSlave_init (crc16 ?P demo_crc) 7 demo_holding demo_input \<lparr>tv_sec = 0, tv_usec = 0\<rparr> ?u"
  have wf: "updating_wf demo_holding" "store_wf demo_input"
    by (simp_all add: demo_holding_def demo_input_def updating_wf_def store_wf_def)
  have abs: "queue_view (\<lambda>q. q) snd ?s = demo_driver"
    by (simp add: queue_view_def UartSlave_init_def LinuxSlave_init_def demo_driver_def)
  have lim: "within_limits ?P (queue_view (\<lambda>q. q) snd ?s)" "rx_room (\<lambda>q. q) fst ?s"
    by (simp_all add: within_limits_def UartSlave_init_def SetAddress_def rx_room_def
      ProtocolRtuSlave_init_def SlaveProtocolBase_init_def PacketReceived_def ReadContext_init_def)
  from uart_driver_implements_queue_driver [OF msb_platform_ok line_uart.uart_device_axioms wf crc16_ok _ _ _
      uart_reachable.start [where ?s0.0 = ?s], where now = "\<lparr>tv_sec = 0, tv_usec = 9\<rparr>"] lim
  show ?thesis unfolding abs by (auto simp: UartSlave_init_def)
qed

section \<open>Bytes on the line\<close>

text \<open>A port to which bytes are delivered.\<close>

locale uart_line = uart_device R W contents arriving line
  for R :: "'q ring_ops" and W :: "'p port_ops" and contents and arriving and line +
  fixes deliver :: "u8 list \<Rightarrow> 'p \<Rightarrow> 'p"
  assumes deliver: "arriving (deliver bs p) = arriving p @ bs" "line (deliver bs p) = line p"
begin

lemma Runs_refines:
  assumes "turns_fit P TH TI turns (queue_view contents line s)" and "arriving (connection (iodev s)) = []"
    and "Runs P TH TI turns (queue_view contents line s) = Inr s1"
  shows "\<exists>s'. Uart_Runs P TH TI R W deliver turns s = Some (Inr s') \<and> queue_view contents line s' = s1 \<and>
    arriving (connection (iodev s')) = []"
  using assms
proof (induction turns arbitrary: s)
  case (Cons turn turns)
  obtain arrived now where turn: "turn = (arrived, now)" by (cases turn)
  let ?abs = "queue_view contents line"
  let ?s = "s\<lparr>iodev := (iodev s)\<lparr>connection := deliver arrived (connection (iodev s))\<rparr>\<rparr>"
  have s: "?abs ?s = ?abs s" "arriving (connection (iodev ?s)) = arrived"
    using Cons.prems(2) by (simp_all add: queue_view_def deliver)
  obtain s2 where s2: "Run P TH TI arrived now (?abs s) = Inr s2" "Runs P TH TI turns s2 = Inr s1"
    using Cons.prems(3) turn by auto
  have fit: "length (contents (rx_ring (iodev s))) + length arrived \<le> 1024" "length (txbuff s2) \<le> 1024"
    "turns_fit P TH TI turns s2"
    using Cons.prems(1) turn s2(1) by simp_all
  obtain t where t: "Uart_Run P TH TI R W now ?s = Some (Inr t)" "?abs t = s2" "arriving (connection (iodev t)) = []"
    using Run_refines [of ?s P TH TI now s2] fit s s2(1) by auto
  from Cons.IH [of t] fit(3) t s2(2) show ?case by (simp add: turn)
qed simp

text \<open>
  Over any two stores: a request that the slave answers, as a whole, with \<open>r\<close> and the stores \<open>h\<close> and
  \<open>i\<close> gets that answer on the port, and two or more silent turns later the driver is idle again.
\<close>

lemma Uart_answer:
  assumes idle: "contents (rx_ring (iodev s)) = []" "contents (tx_ring (iodev s)) = []"
      "arriving (connection (iodev s)) = []" and l: "listening (uart_slave s)"
    and good: "good_request fn data" and bytes: "map fst bts = request_adu P g addr fn data"
    and out: "outcome (exchange P TH TI (uart_slave s) (request_adu P g addr fn data)) = Inr (r, h, i)"
    and small: "length (reply_bytes r) \<le> 1024" and pause: "2 \<le> length ts"
  shows "\<exists>s'. Uart_Runs P TH TI R W deliver (map (\<lambda>(b, t). ([b], t)) bts @ map (\<lambda>t. ([], t)) ts) s = Some (Inr s') \<and>
    line (connection (iodev s')) = line (connection (iodev s)) @ reply_bytes r \<and>
    holding_store (uart_slave s') = h \<and> input_store (uart_slave s') = i \<and>
    contents (rx_ring (iodev s')) = [] \<and> contents (tx_ring (iodev s')) = [] \<and>
    arriving (connection (iodev s')) = [] \<and> listening (uart_slave s') \<and>
    rbind (exchange P TH TI (uart_slave s) (request_adu P g addr fn data)) (\<lambda>sl. Inr (Slave_Reset sl)) =
      Inr (uart_slave s')"
proof -
  let ?abs = "queue_view contents line" and ?turns = "map (\<lambda>(b, t). ([b], t)) bts @ map (\<lambda>t. ([], t)) ts"
  obtain s1 where s1: "Runs P TH TI ?turns (?abs s) = Inr s1" "turns_fit P TH TI ?turns (?abs s)"
    "sent s1 = line (connection (iodev s)) @ reply_bytes r" "holding_store (slave s1) = h"
    "input_store (slave s1) = i" "rxbuff s1 = []" "txbuff s1 = []" "listening (slave s1)"
    "rbind (exchange P TH TI (uart_slave s) (request_adu P g addr fn data)) (\<lambda>sl. Inr (Slave_Reset sl)) = Inr (slave s1)"
    using Runs_answer_pause [of "?abs s" fn data bts P g addr TH TI r h i ts] idle l good bytes out small pause
    unfolding queue_view_simps by blast
  obtain s' where "Uart_Runs P TH TI R W deliver ?turns s = Some (Inr s')" "?abs s' = s1"
      "arriving (connection (iodev s')) = []"
    using Runs_refines [OF s1(2) idle(3) s1(1)] by blast
  then show ?thesis using s1(3-) by (intro exI [of _ s']) auto
qed

end

definition line_deliver :: "u8 list \<Rightarrow> u8 list \<times> u8 list \<Rightarrow> u8 list \<times> u8 list" where
  "line_deliver bs = (\<lambda>(waiting, written). (waiting @ bs, written))"

interpretation serial_line: uart_line queue_ring line_port "\<lambda>q. q" fst snd line_deliver
  by unfold_locales (simp_all add: line_deliver_def split_beta)

section \<open>A request through the serial port\<close>

text \<open>
  A request that reaches the serial port of an idle device one byte per turn, whenever, is
  answered on the port two turns after its last byte: every turn of the driver returns, and what
  it has written to the port is exactly the reply of the slave, as long as that fits the ring.
\<close>

lemma uart_driver_answers_request:
  assumes dev: "uart_line R W contents arriving line deliver"
    and idle: "contents (rx_ring (iodev s)) = []" "contents (tx_ring (iodev s)) = []"
      "arriving (connection (iodev s)) = []" and l: "listening (uart_slave s)"
    and good: "good_request fn data" and bytes: "map fst bts = request_adu P g addr fn data"
    and out: "outcome (device_exchange P (uart_slave s) (request_adu P g addr fn data)) = Inr (r, h, i)"
    and small: "length (case r of None \<Rightarrow> [] | Some bs \<Rightarrow> bs) \<le> 1024"
  shows "\<exists>s'. Uart_Runs P (UpdatingRegisterDataStore_ops P) (RegisterDataStore_ops P) R W deliver
      (map (\<lambda>(b, t). ([b], t)) bts @ [([], t1), ([], t2)]) s = Some (Inr s') \<and>
    line (connection (iodev s')) = line (connection (iodev s)) @ (case r of None \<Rightarrow> [] | Some bs \<Rightarrow> bs) \<and>
    holding_store (uart_slave s') = h \<and> input_store (uart_slave s') = i"
  using uart_line.Uart_answer [OF dev idle l good bytes out [unfolded device_exchange_def] small, of "[t1, t2]"]
  by auto

end
