(* ===== verification/LineSession.thy ===== *)
theory LineSession
  imports UartDriver
begin

text \<open>
  Several requests, one after another, through the running driver of the theory \<open>UartDriver\<close>: what
  it writes to its serial port is what the slave answers to the same requests when each is handed
  to it as a whole and it is reset in between.
\<close>

section \<open>The slave, one request after another\<close>

type_synonym request = "u8 \<times> Function \<times> u16 \<times> u16 \<times> u8 list"

fun request_bytes :: "platform \<Rightarrow> (u8 list \<Rightarrow> u16) \<Rightarrow> request \<Rightarrow> u8 list" where
  "request_bytes P g (addr, fn, a, n, rest) = request_adu P g addr fn (reg_bytes P [a, n] @ rest)"

text \<open>The device after the requests, and the bytes of all replies.\<close>

fun device_session ::
  "platform \<Rightarrow> (u8 list \<Rightarrow> u16) \<Rightarrow> request list \<Rightarrow> device \<Rightarrow> (device \<times> u8 list) result" where
  "device_session P g [] sl = Inr (sl, [])"
| "device_session P g (req # reqs) sl =
     rbind (device_exchange P sl (request_bytes P g req)) (\<lambda>sl1.
     rbind (outcome (Inr sl1)) (\<lambda>(r, _).
     rbind (device_session P g reqs (Slave_Reset sl1)) (\<lambda>(sl2, replies).
     Inr (sl2, reply_bytes r @ replies))))"

section \<open>The driver, one request after another\<close>

text \<open>
  A request on the line: the clock at each of its bytes, and at the silent turns after it.
\<close>

type_synonym timed_request = "request \<times> timeval list \<times> timeval list"

fun request_turns ::
  "platform \<Rightarrow> (u8 list \<Rightarrow> u16) \<Rightarrow> timed_request \<Rightarrow> (u8 list \<times> timeval) list" where
  "request_turns P g (req, ts, pause) =
     map (\<lambda>(b, t). ([b], t)) (zip (request_bytes P g req) ts) @ map (\<lambda>t. ([], t)) pause"

fun timed_ok :: "platform \<Rightarrow> (u8 list \<Rightarrow> u16) \<Rightarrow> timed_request \<Rightarrow> bool" where
  "timed_ok P g ((addr, fn, a, n, rest), ts, pause) \<longleftrightarrow>
     request_within P fn a n rest \<and> length ts = length (request_bytes P g (addr, fn, a, n, rest)) \<and> 2 \<le> length pause"

text \<open>The driver between two requests.\<close>

definition line_idle ::
  "('q \<Rightarrow> u8 list) \<Rightarrow> ('p \<Rightarrow> u8 list) \<Rightarrow> (u8 list \<Rightarrow> u16) \<Rightarrow> ('q, 'p) uart_driver \<Rightarrow> bool" where
  "line_idle contents arriving g s \<longleftrightarrow>
     contents (rx_ring (iodev s)) = [] \<and> contents (tx_ring (iodev s)) = [] \<and>
     arriving (connection (iodev s)) = [] \<and> device_wf g (uart_slave s)"

context uart_line
begin

lemma Uart_request:
  assumes P: "platform_ok P" and idle: "line_idle contents arriving g s" and req: "timed_ok P g (req, ts, pause)"
  shows "\<exists>s' sl r. Uart_Runs P (UpdatingRegisterDataStore_ops P) (RegisterDataStore_ops P) R W deliver
      (request_turns P g (req, ts, pause)) s = Some (Inr s') \<and>
    device_exchange P (uart_slave s) (request_bytes P g req) = Inr sl \<and>
    outcome (Inr sl) = Inr (r, holding_store sl, input_store sl) \<and> uart_slave s' = Slave_Reset sl \<and>
    slave_address sl = slave_address (uart_slave s) \<and>
    line (connection (iodev s')) = line (connection (iodev s)) @ reply_bytes r \<and> line_idle contents arriving g s'"
proof -
  obtain addr fn a n rest where r: "req = (addr, fn, a, n, rest)" by (cases req)
  let ?data = "reg_bytes P [a, n] @ rest"
  have within: "request_within P fn a n rest" and pause: "2 \<le> length pause"
    and len: "length ts = length (request_adu P g addr fn ?data)"
    using req by (simp_all only: r timed_ok.simps request_bytes.simps)
  have wf: "device_wf g (uart_slave s)" and empty: "contents (rx_ring (iodev s)) = []"
    "contents (tx_ring (iodev s)) = []" "arriving (connection (iodev s)) = []"
    using idle by (simp_all add: line_idle_def)
  then have l: "listening (uart_slave s)" by (simp add: device_wf_def)
  have good: "good_request fn ?data" using within unfolding request_within_def by blast
  obtain sl x where sl: "device_exchange P (uart_slave s) (request_adu P g addr fn ?data) = Inr sl"
    "device_wf g (Slave_Reset sl)" "slave_address sl = slave_address (uart_slave s)"
    "outcome (Inr sl) = Inr (x, holding_store sl, input_store sl)" "length (reply_bytes x) \<le> 256"
    using device_exchange_within [OF P wf within] .
  let ?bts = "zip (request_adu P g addr fn ?data) ts"
  have bytes: "map fst ?bts = request_adu P g addr fn ?data" using len by simp
  have out: "outcome (exchange P (UpdatingRegisterDataStore_ops P) (RegisterDataStore_ops P) (uart_slave s)
      (request_adu P g addr fn ?data)) = Inr (x, holding_store sl, input_store sl)"
    using sl(1,4) by (simp only: device_exchange_def)
  have small: "length (reply_bytes x) \<le> 1024" using sl(5) by linarith
  from Uart_answer [OF empty l good bytes out small pause]
  show ?thesis
    unfolding r request_turns.simps request_bytes.simps device_exchange_def [symmetric] sl(1) rbind_simps
    using sl(2-4) by (auto simp: line_idle_def)
qed

lemma Uart_session:
  assumes P: "platform_ok P" and "line_idle contents arriving g s" and "list_all (timed_ok P g) reqs"
  shows "\<exists>s' replies. Uart_Runs P (UpdatingRegisterDataStore_ops P) (RegisterDataStore_ops P) R W deliver
      (concat (map (request_turns P g) reqs)) s = Some (Inr s') \<and>
    device_session P g (map fst reqs) (uart_slave s) = Inr (uart_slave s', replies) \<and>
    line (connection (iodev s')) = line (connection (iodev s)) @ replies \<and> line_idle contents arriving g s'"
  using assms(2,3)
proof (induction reqs arbitrary: s)
  case (Cons treq reqs)
  obtain req ts pause where t: "treq = (req, ts, pause)" by (cases treq)
  have req: "timed_ok P g (req, ts, pause)" and reqs: "list_all (timed_ok P g) reqs"
    using Cons.prems(2) t by simp_all
  obtain s1 sl r where s1: "Uart_Runs P (UpdatingRegisterDataStore_ops P) (RegisterDataStore_ops P) R W deliver
        (request_turns P g (req, ts, pause)) s = Some (Inr s1)"
      "device_exchange P (uart_slave s) (request_bytes P g req) = Inr sl"
      "outcome (Inr sl) = Inr (r, holding_store sl, input_store sl)" "uart_slave s1 = Slave_Reset sl"
      "line (connection (iodev s1)) = line (connection (iodev s)) @ reply_bytes r" "line_idle contents arriving g s1"
    using Uart_request [OF P Cons.prems(1) req] by blast
  obtain s2 replies where s2: "Uart_Runs P (UpdatingRegisterDataStore_ops P) (RegisterDataStore_ops P) R W deliver
        (concat (map (request_turns P g) reqs)) s1 = Some (Inr s2)"
      "device_session P g (map fst reqs) (Slave_Reset sl) = Inr (uart_slave s2, replies)"
      "line (connection (iodev s2)) = line (connection (iodev s1)) @ replies" "line_idle contents arriving g s2"
    using Cons.IH [OF s1(6) reqs] s1(4) by auto
  have "device_session P g (map fst (treq # reqs)) (uart_slave s) = Inr (uart_slave s2, reply_bytes r @ replies)"
    by (simp only: t list.map fst_conv device_session.simps s1(2,3) s2(2) rbind_simps prod.case)
  moreover have "line (connection (iodev s2)) = line (connection (iodev s)) @ reply_bytes r @ replies"
    by (simp only: s2(3) s1(5) append_assoc)
  ultimately show ?case
    using s2(1,4) by (simp only: t list.map concat.simps Uart_Runs_append [OF s1(1)]) blast
qed simp

end

section \<open>A session\<close>

text \<open>
  C4: any number of requests, one after another over the serial port, each one byte per turn and
  followed by at least two silent turns, whenever: every turn of the driver returns, and what it
  has written to the port in the end is exactly the replies of the slave to these requests, in
  their order, each request handed to it as a whole after a reset; the registers are those of the
  slave, nothing is left in the buffers, and the driver is ready for the next request.
\<close>

theorem uart_driver_serves_session:
  assumes P: "platform_ok P" and dev: "uart_line R W contents arriving line deliver"
    and idle: "contents (rx_ring (iodev s)) = []" "contents (tx_ring (iodev s)) = []"
      "arriving (connection (iodev s)) = []" and wf: "device_wf g (uart_slave s)"
    and reqs: "list_all (timed_ok P g) reqs"
  shows "\<exists>s' replies. Uart_Runs P (UpdatingRegisterDataStore_ops P) (RegisterDataStore_ops P) R W deliver
      (concat (map (request_turns P g) reqs)) s = Some (Inr s') \<and>
    device_session P g (map fst reqs) (uart_slave s) = Inr (uart_slave s', replies) \<and>
    line (connection (iodev s')) = line (connection (iodev s)) @ replies \<and>
    contents (rx_ring (iodev s')) = [] \<and> contents (tx_ring (iodev s')) = [] \<and>
    arriving (connection (iodev s')) = [] \<and> device_wf g (uart_slave s')"
proof -
  have "line_idle contents arriving g s" using idle wf by (simp add: line_idle_def)
  from uart_line.Uart_session [OF dev P this reqs] show ?thesis
    unfolding line_idle_def by blast
qed

text \<open>One step of the slave's session, from the outcome of its first request.\<close>

lemma device_session_step:
  assumes P: "platform_ok P" and wf: "device_wf g sl" and req: "request_within P fn a n rest"
    and out: "outcome (device_exchange P sl (request_adu P g addr fn (reg_bytes P [a, n] @ rest))) = Inr (r, h, i)"
    and later: "\<And>sl1. device_wf g sl1 \<Longrightarrow> holding_store sl1 = h \<Longrightarrow> input_store sl1 = i \<Longrightarrow>
      slave_address sl1 = slave_address sl \<Longrightarrow>
      \<exists>sl2. device_session P g reqs sl1 = Inr (sl2, replies) \<and> holding_store sl2 = h2"
  shows "\<exists>sl2. device_session P g ((addr, fn, a, n, rest) # reqs) sl = Inr (sl2, reply_bytes r @ replies) \<and>
    holding_store sl2 = h2"
proof -
  obtain sl1 x where sl1: "device_exchange P sl (request_adu P g addr fn (reg_bytes P [a, n] @ rest)) = Inr sl1"
    "device_wf g (Slave_Reset sl1)" "slave_address sl1 = slave_address sl"
    "outcome (Inr sl1) = Inr (x, holding_store sl1, input_store sl1)"
    using device_exchange_within [OF P wf req] .
  have "x = r" "holding_store sl1 = h" "input_store sl1 = i"
    using out sl1(4) by (simp_all only: sl1(1)) auto
  then obtain sl2 where "device_session P g reqs (Slave_Reset sl1) = Inr (sl2, replies)" "holding_store sl2 = h2"
    using later [OF sl1(2)] sl1(3) by auto
  then show ?thesis
    using \<open>x = r\<close> by (simp only: device_session.simps request_bytes.simps sl1(1,4) rbind_simps prod.case) blast
qed

lemma demo_session:
  "\<exists>sl. device_session (msb_platform True) demo_crc
      [(7, kWriteSingleHoldingRegister, 1, 5, []), (7, kReadMultipleHoldingRegisters, 1, 2, [])] demo_device =
    Inr (sl, request_adu (msb_platform True) demo_crc 7 kWriteSingleHoldingRegister (reg_bytes (msb_platform True) [1, 5]) @
      with_crc (msb_platform True) demo_crc [7, 3, 4, 0, 5, 0, 3]) \<and>
    holding_store sl = \<lparr>registers = [1, 5, 3, 4], flags = [False, True, False, False]\<rparr>"
proof -
  let ?P = "msb_platform True"
  have P: "platform_ok ?P" by simp
  let ?h = "\<lparr>registers = [1, 5, 3, 4], flags = [False, True, False, False]\<rparr>"
  let ?w = "request_adu ?P demo_crc 7 kWriteSingleHoldingRegister (reg_bytes ?P [1, 5])"
  let ?r = "with_crc ?P demo_crc [7, 3, 4, 0, 5, 0, 3]"
  have wr: "outcome (device_exchange ?P demo_device (request_adu ?P demo_crc 7 kWriteSingleHoldingRegister
      (reg_bytes ?P [1, 5] @ []))) = Inr (Some ?w, ?h, demo_input)"
    using write_single_outcome [OF P demo_device_wf, of 1 5] by (simp add: demo_holding_def)
  have rd: "outcome (device_exchange ?P sl (request_adu ?P demo_crc 7 kReadMultipleHoldingRegisters
      (reg_bytes ?P [1, 2] @ []))) = Inr (Some ?r, ?h, demo_input)"
    if "device_wf demo_crc sl" "holding_store sl = ?h" "input_store sl = demo_input" "slave_address sl = 7" for sl
    using read_holding_outcome [OF P that(1), of 2 1] that(2-) by (simp add: in_range_def)
  have "\<exists>sl2. device_session ?P demo_crc [(7, kReadMultipleHoldingRegisters, 1, 2, [])] sl =
      Inr (sl2, reply_bytes (Some ?r) @ []) \<and> holding_store sl2 = ?h"
    if "device_wf demo_crc sl" "holding_store sl = ?h" "input_store sl = demo_input"
      "slave_address sl = slave_address demo_device" for sl
    by (rule device_session_step [OF P that(1) _ rd]) (use that in \<open>simp_all add: request_within_def\<close>)
  note rest = this [unfolded option.case append_Nil2]
  have "request_within ?P kWriteSingleHoldingRegister 1 5 []" by (simp add: request_within_def)
  from device_session_step [OF P demo_device_wf this wr rest] show ?thesis unfolding option.case .
qed

theorem uart_driver_serves_session_witness:
  "\<exists>turns s'. Uart_Runs (msb_platform True) (UpdatingRegisterDataStore_ops (msb_platform True)) (RegisterDataStore_ops (msb_platform True)) queue_ring line_port
      line_deliver turns (UartSlave_init (crc16 (msb_platform True) demo_crc) 7 demo_holding demo_input \<lparr>tv_sec = 0, tv_usec = 0\<rparr>
         \<lparr>connection = ([], []), rx_ring = [], tx_ring = []\<rparr>) = Some (Inr s') \<and>
    snd (connection (iodev s')) = request_adu (msb_platform True) demo_crc 7 kWriteSingleHoldingRegister (reg_bytes (msb_platform True) [1, 5]) @
      with_crc (msb_platform True) demo_crc [7, 3, 4, 0, 5, 0, 3] \<and>
    registers (holding_store (uart_slave s')) = [1, 5, 3, 4]"
proof -
  let ?P = "msb_platform True"
  have P: "platform_ok ?P" by simp
  let ?t = "\<lparr>tv_sec = 0, tv_usec = 5\<rparr>"
  let ?s = "UartSlave_init (crc16 ?P demo_crc) 7 demo_holding demo_input \<lparr>tv_sec = 0, tv_usec = 0\<rparr>
      \<lparr>connection = ([], []), rx_ring = [], tx_ring = []\<rparr>"
  define timed where "timed = (\<lambda>req. (req, replicate (length (request_bytes ?P demo_crc req)) ?t, [?t, ?t, ?t]))"
  let ?reqs = "[(7, kWriteSingleHoldingRegister, 1, 5, []), (7, kReadMultipleHoldingRegisters, 1, 2, [])]"
  have dev: "uart_slave ?s = demo_device"
    by (simp add: UartSlave_init_def demo_device_def SetAddress_def ProtocolRtuSlave_init_def)
  have idle: "rx_ring (iodev ?s) = []" "tx_ring (iodev ?s) = []" "fst (connection (iodev ?s)) = []"
    "snd (connection (iodev ?s)) = []"
    by (simp_all add: UartSlave_init_def)
  have wf: "device_wf demo_crc (uart_slave ?s)" unfolding dev by (rule demo_device_wf)
  have reqs: "list_all (timed_ok ?P demo_crc) (map timed ?reqs)" "map fst (map timed ?reqs) = ?reqs"
    by (simp_all add: timed_def request_within_def)
  obtain s' replies where s': "Uart_Runs ?P (UpdatingRegisterDataStore_ops ?P) (RegisterDataStore_ops ?P) queue_ring
      line_port line_deliver (concat (map (request_turns ?P demo_crc) (map timed ?reqs))) ?s = Some (Inr s')"
    "device_session ?P demo_crc ?reqs demo_device = Inr (uart_slave s', replies)" "snd (connection (iodev s')) = replies"
    using uart_driver_serves_session [OF P serial_line.uart_line_axioms idle(1-3) wf reqs(1)]
    unfolding reqs(2) dev idle(4) append_Nil by blast
  moreover from demo_session s'(2)
  have "replies = request_adu ?P demo_crc 7 kWriteSingleHoldingRegister (reg_bytes ?P [1, 5]) @
      with_crc ?P demo_crc [7, 3, 4, 0, 5, 0, 3]" "registers (holding_store (uart_slave s')) = [1, 5, 3, 4]"
    by (auto simp del: device_session.simps)
  ultimately show ?thesis by blast
qed

end
