(* ===== verification/MappedStore.thy ===== *)
theory MappedStore
  imports DataStores
begin

text \<open>
  \<open>include/Modbus/MappedRegisterDataStore.h\<close>: a store whose registers are the fields of a
  struct. The template parameter \<open>T\<close>, the generated wrapper of the struct, is a record of what
  the code uses of it; what such a wrapper promises is the locale \<open>memory_map\<close>, and what the
  store then does with whole fields is proved inside it. The controller of the holding registers
  calls two functions on its store after a write that this class does not have, so its writes
  cannot be instantiated with it; the controller of the input registers can.
\<close>

section \<open>The memory controller\<close>

text \<open>
  \<open>SetField(identifier, data, size)\<close> and \<open>GetField(identifier, data, size)\<close>: pointer and size
  are a view.
\<close>

record 'm memory_controller =
  mc_offsets :: "size_t list"
  mc_end_points :: "size_t list"
  mc_size :: nat
  mc_SetField :: "'m \<Rightarrow> size_t \<Rightarrow> u8 ArrayView \<Rightarrow> 'm result"
  mc_GetField :: "'m \<Rightarrow> size_t \<Rightarrow> u8 ArrayView \<Rightarrow> u8 ArrayView result"

definition Equal_UnaryPredicate :: "'a \<Rightarrow> 'a \<Rightarrow> bool" where
  "Equal_UnaryPredicate d n \<longleftrightarrow> n = d"

text \<open>The index of the first match, the length of the collection if there is none.\<close>

fun get_matching_index_loop :: "'a \<Rightarrow> 'a list \<Rightarrow> nat \<Rightarrow> nat" where
  "get_matching_index_loop v [] i = i"
| "get_matching_index_loop v (x # xs) i =
     (if x = v then i else get_matching_index_loop v xs (Suc i))"

definition get_matching_index :: "'a \<Rightarrow> 'a list \<Rightarrow> nat" where
  "get_matching_index v collection = get_matching_index_loop v collection 0"

definition check_location_valid :: "size_t \<Rightarrow> size_t \<Rightarrow> size_t list \<Rightarrow> size_t list \<Rightarrow> bool" where
  "check_location_valid addr count offsets end_points \<longleftrightarrow>
     list_ex (Equal_UnaryPredicate addr) offsets \<and>
     list_ex (Equal_UnaryPredicate (addr + count - 1)) end_points"

section \<open>MappedRegisterDataStore\<close>

record 'm MappedRegisterDataStore =
  new_data :: bool
  the_controller :: 'm

definition MappedRegisterDataStore_init :: "'m \<Rightarrow> 'm MappedRegisterDataStore" where
  "MappedRegisterDataStore_init mc = \<lparr>new_data = False, the_controller = mc\<rparr>"

definition GetMemoryMapEntryIndex :: "'m memory_controller \<Rightarrow> size_t \<Rightarrow> size_t" where
  "GetMemoryMapEntryIndex T addr =
     (let index = get_matching_index addr (mc_offsets T) in
      word_of_nat (if index = length (mc_offsets T) then 0 else index))"

definition IsNewData :: "'m MappedRegisterDataStore \<Rightarrow> bool" where
  "IsNewData s = new_data s"

definition SetNewData :: "bool \<Rightarrow> 'm MappedRegisterDataStore \<Rightarrow> 'm MappedRegisterDataStore" where
  "SetNewData value s = s\<lparr>new_data := value\<rparr>"

definition Mapped_SetField ::
  "'m memory_controller \<Rightarrow> 'm MappedRegisterDataStore \<Rightarrow> size_t \<Rightarrow> u8 ArrayView \<Rightarrow>
   'm MappedRegisterDataStore result" where
  "Mapped_SetField T s identifier data_view =
     (let s = SetNewData True s in
      rbind (mc_SetField T (the_controller s) identifier data_view) (\<lambda>mc.
      Inr (s\<lparr>the_controller := mc\<rparr>)))"

definition Mapped_GetField ::
  "'m memory_controller \<Rightarrow> 'm MappedRegisterDataStore \<Rightarrow> size_t \<Rightarrow> u8 ArrayView \<Rightarrow> u8 ArrayView result" where
  "Mapped_GetField T s identifier data_view = mc_GetField T (the_controller s) identifier data_view"

definition Mapped_size :: "'m memory_controller \<Rightarrow> nat" where
  "Mapped_size T = mc_size T"

definition Mapped_GetSize :: "'m memory_controller \<Rightarrow> nat" where
  "Mapped_GetSize T = Mapped_size T"

definition GetRegisterByteSize :: nat where
  "GetRegisterByteSize = 2"

definition GetIdentifierFromAddress :: "'m memory_controller \<Rightarrow> size_t \<Rightarrow> size_t" where
  "GetIdentifierFromAddress T addr = GetMemoryMapEntryIndex T addr"

definition Mapped_WriteLocationValid :: "'m memory_controller \<Rightarrow> size_t \<Rightarrow> size_t \<Rightarrow> bool" where
  "Mapped_WriteLocationValid T addr count =
     check_location_valid addr count (mc_offsets T) (mc_end_points T)"

definition Mapped_ReadLocationValid :: "'m memory_controller \<Rightarrow> size_t \<Rightarrow> size_t \<Rightarrow> bool" where
  "Mapped_ReadLocationValid T addr count = Mapped_WriteLocationValid T addr count"

definition SetFieldFromAddress ::
  "'m memory_controller \<Rightarrow> 'm MappedRegisterDataStore \<Rightarrow> size_t \<Rightarrow> u8 ArrayView \<Rightarrow>
   'm MappedRegisterDataStore result" where
  "SetFieldFromAddress T s addr data_view =
     Mapped_SetField T s (GetIdentifierFromAddress T addr) data_view"

definition GetFieldFromAddress ::
  "'m memory_controller \<Rightarrow> 'm MappedRegisterDataStore \<Rightarrow> size_t \<Rightarrow> u8 ArrayView \<Rightarrow> u8 ArrayView result" where
  "GetFieldFromAddress T s addr data_view =
     Mapped_GetField T s (GetIdentifierFromAddress T addr) data_view"

definition Mapped_GetRegisters ::
  "platform \<Rightarrow> 'm memory_controller \<Rightarrow> 'm MappedRegisterDataStore \<Rightarrow> size_t \<Rightarrow> size_t \<Rightarrow> u8 ArrayView \<Rightarrow>
   u8 ArrayView result" where
  "Mapped_GetRegisters P T s addr register_count data_view =
     rbind (c_assert P (Mapped_ReadLocationValid T addr register_count)) (\<lambda>_.
     GetFieldFromAddress T s addr data_view)"

definition Mapped_GetRegister ::
  "platform \<Rightarrow> 'm memory_controller \<Rightarrow> 'm MappedRegisterDataStore \<Rightarrow> size_t \<Rightarrow> u16 result" where
  "Mapped_GetRegister P T s addr =
     rbind (Mapped_GetRegisters P T s addr 1 (view_of [0, 0])) (\<lambda>data_view.
     Make_MSB_uint16_tFromU8Array P data_view)"

definition Mapped_SetRegisters ::
  "platform \<Rightarrow> 'm memory_controller \<Rightarrow> 'm MappedRegisterDataStore \<Rightarrow> size_t \<Rightarrow> size_t \<Rightarrow> u8 ArrayView \<Rightarrow>
   'm MappedRegisterDataStore result" where
  "Mapped_SetRegisters P T s addr register_count data_view =
     rbind (c_assert P (Mapped_WriteLocationValid T addr register_count)) (\<lambda>_.
     SetFieldFromAddress T s addr data_view)"

definition Mapped_SetRegister ::
  "platform \<Rightarrow> 'm memory_controller \<Rightarrow> 'm MappedRegisterDataStore \<Rightarrow> size_t \<Rightarrow> u16 \<Rightarrow>
   'm MappedRegisterDataStore result" where
  "Mapped_SetRegister P T s addr value =
     Mapped_SetRegisters P T s addr 1 (view_of [GetByte P (unat value) 1, GetByte P (unat value) 0])"

text \<open>
  As the store of an \<open>InputRegisterController\<close>.
\<close>

definition Mapped_ops ::
  "platform \<Rightarrow> 'm memory_controller \<Rightarrow> 'm MappedRegisterDataStore readable_store" where
  "Mapped_ops P T = \<lparr>
     op_ReadLocationValid = (\<lambda>_. Mapped_ReadLocationValid T),
     op_GetRegister = Mapped_GetRegister P T,
     op_GetRegisters = Mapped_GetRegisters P T,
     op_SetRegister = Mapped_SetRegister P T\<rparr>"

section \<open>The lookup\<close>

lemma get_matching_index_loop_eq:
  "get_matching_index_loop v xs i = i + get_matching_index_loop v xs 0"
proof (induction xs arbitrary: i)
  case (Cons x xs)
  show ?case by (simp add: Cons.IH [of "Suc i"] Cons.IH [of "Suc 0"])
qed simp

lemma get_matching_index_Cons:
  "get_matching_index v (x # xs) = (if x = v then 0 else Suc (get_matching_index v xs))"
  using get_matching_index_loop_eq [of v xs "Suc 0"] by (simp add: get_matching_index_def)

lemma get_matching_index_Nil [simp]: "get_matching_index v [] = 0"
  by (simp add: get_matching_index_def)

lemma get_matching_index_absent: "v \<notin> set xs \<Longrightarrow> get_matching_index v xs = length xs"
  by (induction xs) (auto simp: get_matching_index_Cons)

lemma get_matching_index_present:
  "v \<in> set xs \<Longrightarrow> get_matching_index v xs < length xs \<and> xs ! get_matching_index v xs = v"
  by (induction xs) (auto simp: get_matching_index_Cons)

lemma get_matching_index_nth: "distinct xs \<Longrightarrow> i < length xs \<Longrightarrow> get_matching_index (xs ! i) xs = i"
  using get_matching_index_present [of "xs ! i" xs] by (auto simp: distinct_conv_nth)

lemma check_location_valid_iff:
  "check_location_valid addr count offsets end_points \<longleftrightarrow>
   addr \<in> set offsets \<and> addr + count - 1 \<in> set end_points"
  by (auto simp: check_location_valid_def Equal_UnaryPredicate_def list_ex_iff)

section \<open>Addresses as sizes\<close>

lemma unat_size_t_small: "n \<le> 65536 \<Longrightarrow> unat (word_of_nat n :: size_t) = n"
  by (simp add: unat_of_nat)

lemma size_t_eq_small:
  "m \<le> 65536 \<Longrightarrow> n \<le> 65536 \<Longrightarrow> (word_of_nat m :: size_t) = word_of_nat n \<longleftrightarrow> m = n"
  by (metis unat_size_t_small)

lemma size_t_eq_ucast:
  "k \<le> 65536 \<Longrightarrow> ucast (a :: u16) = (word_of_nat k :: size_t) \<longleftrightarrow> unat a = k"
  by (simp add: word_unat_eq_iff unat_size_t_small)

lemma size_t_end_point:
  fixes a n :: u16
  assumes "k \<le> 65536" and "0 < k"
  shows "ucast a + ucast n - 1 = (word_of_nat (k - Suc 0) :: size_t) \<longleftrightarrow> unat a + unat n = k"
proof -
  have "(word_of_nat (k - Suc 0) :: size_t) = word_of_nat k - 1"
    using assms(2) by (simp add: of_nat_diff)
  then have "ucast a + ucast n - 1 = (word_of_nat (k - Suc 0) :: size_t) \<longleftrightarrow>
      ucast a + ucast n = (word_of_nat k :: size_t)"
    by simp
  also have "\<dots> \<longleftrightarrow> unat (ucast a + ucast n :: size_t) = k"
    using assms(1) by (simp add: word_unat_eq_iff unat_size_t_small)
  also have "unat (ucast a + ucast n :: size_t) = unat a + unat n"
    using unat_u16_lt [of a] unat_u16_lt [of n] by (simp add: unat_word_ariths del: unat_u16_lt)
  finally show ?thesis .
qed

text \<open>The field a read at register \<open>a\<close> is served from.\<close>

definition mapped_fetch ::
  "'m memory_controller \<Rightarrow> ('m \<Rightarrow> nat \<Rightarrow> u8 list) \<Rightarrow> platform \<Rightarrow> 'm MappedRegisterDataStore \<Rightarrow>
   nat \<Rightarrow> nat \<Rightarrow> u8 list" where
  "mapped_fetch T field P s a n =
     field (the_controller s) (unat (GetMemoryMapEntryIndex T (word_of_nat a)))"

section \<open>What a memory map promises\<close>

text \<open>
  \<open>field m i\<close> is the bytes of field \<open>i\<close> as the wire carries them, \<open>put m i bs\<close> the struct after
  the field took them. A field starts at register \<open>start i\<close> and is \<open>regs i\<close> registers long.
  Nothing is asked of a view that is not as long as the field, but for the \<open>tolerant\<close> fields, whose
  accessors stop at the end of the field: what a longer view has behind it is kept and ignored.
\<close>

locale memory_map =
  fixes T :: "'m memory_controller"
    and inv :: "'m \<Rightarrow> bool"
    and field :: "'m \<Rightarrow> nat \<Rightarrow> u8 list"
    and put :: "'m \<Rightarrow> nat \<Rightarrow> u8 list \<Rightarrow> 'm"
    and entries :: nat
    and start :: "nat \<Rightarrow> nat"
    and regs :: "nat \<Rightarrow> nat"
    and tolerant :: "nat \<Rightarrow> bool"
  assumes offsets: "mc_offsets T = map (\<lambda>i. word_of_nat (start i)) [0..<entries]"
    and end_points: "mc_end_points T = map (\<lambda>i. word_of_nat (start i + regs i - 1)) [0..<entries]"
    and entries_small: "entries < 65536"
    and regs_pos: "i < entries \<Longrightarrow> 0 < regs i"
    and map_small: "i < entries \<Longrightarrow> start i + regs i \<le> 65536"
    and ordered: "i < j \<Longrightarrow> j < entries \<Longrightarrow> start i + regs i \<le> start j"
    and length_field: "inv m \<Longrightarrow> i < entries \<Longrightarrow> length (field m i) = 2 * regs i"
    and GetField_law:
      "inv m \<Longrightarrow> i < entries \<Longrightarrow>
       view_size v = 2 * regs i \<or> tolerant i \<and> 2 * regs i \<le> view_size v \<Longrightarrow> view_wf v \<Longrightarrow>
       mc_GetField T m (word_of_nat i) v =
       Inr (v\<lparr>view_data := overwrite 0 (field m i) (view_data v)\<rparr>)"
    and SetField_law:
      "inv m \<Longrightarrow> i < entries \<Longrightarrow>
       view_size v = 2 * regs i \<or> tolerant i \<and> 2 * regs i \<le> view_size v \<Longrightarrow> view_wf v \<Longrightarrow>
       mc_SetField T m (word_of_nat i) v = Inr (put m i (take (2 * regs i) (view_data v)))"
    and inv_put: "inv m \<Longrightarrow> i < entries \<Longrightarrow> length bs = 2 * regs i \<Longrightarrow> inv (put m i bs)"
    and field_put:
      "inv m \<Longrightarrow> i < entries \<Longrightarrow> length bs = 2 * regs i \<Longrightarrow> j < entries \<Longrightarrow>
       field (put m i bs) j = (if j = i then bs else field m j)"
begin

lemma start_less: "i < entries \<Longrightarrow> start i < 65536"
  using regs_pos [of i] map_small [of i] by simp

lemma start_mono: "i < j \<Longrightarrow> j < entries \<Longrightarrow> start i < start j"
  using ordered [of i j] regs_pos [of i] by simp

lemma start_inj: "i < entries \<Longrightarrow> j < entries \<Longrightarrow> start i = start j \<longleftrightarrow> i = j"
  by (metis linorder_neqE_nat nat_neq_iff start_mono)

lemma length_offsets: "length (mc_offsets T) = entries"
  by (simp add: offsets)

lemma set_offsets: "set (mc_offsets T) = {word_of_nat (start i) |i. i < entries}"
  by (auto simp: offsets)

lemma set_end_points: "set (mc_end_points T) = {word_of_nat (start i + regs i - Suc 0) |i. i < entries}"
  by (auto simp: end_points)

lemma distinct_offsets: "distinct (mc_offsets T)"
  unfolding distinct_conv_nth
  using start_less by (auto simp: offsets size_t_eq_small start_inj less_imp_le)

lemma GetMemoryMapEntryIndex_start:
  assumes "i < entries"
  shows "GetMemoryMapEntryIndex T (word_of_nat (start i)) = word_of_nat i"
  using get_matching_index_nth [OF distinct_offsets, of i] assms
  by (simp add: GetMemoryMapEntryIndex_def offsets)

lemma GetMemoryMapEntryIndex_other:
  assumes "\<And>i. i < entries \<Longrightarrow> addr \<noteq> word_of_nat (start i)"
  shows "GetMemoryMapEntryIndex T addr = 0"
proof -
  have "addr \<notin> set (mc_offsets T)" unfolding set_offsets using assms by blast
  then show ?thesis by (simp add: GetMemoryMapEntryIndex_def get_matching_index_absent)
qed

text \<open>
  A span is valid when it starts with a field and ends with a field; with no registers it is
  valid when it starts right behind a field with the next one.
\<close>

lemma location_valid_iff:
  fixes a n :: u16
  shows "Mapped_ReadLocationValid T (ucast a) (ucast n) \<longleftrightarrow>
    (\<exists>i<entries. \<exists>j<entries. unat a = start i \<and> unat a + unat n = start j + regs j)"
proof -
  have "ucast a + ucast n - 1 = (word_of_nat (start j + regs j - Suc 0) :: size_t) \<longleftrightarrow>
      unat a + unat n = start j + regs j" if "j < entries" for j
    using size_t_end_point [of "start j + regs j" a n] map_small regs_pos that by simp
  then have ends: "ucast a + ucast n - 1 \<in> set (mc_end_points T) \<longleftrightarrow>
      (\<exists>j<entries. unat a + unat n = start j + regs j)"
    unfolding set_end_points by blast
  have "ucast a = (word_of_nat (start i) :: size_t) \<longleftrightarrow> unat a = start i" if "i < entries" for i
    using size_t_eq_ucast [of "start i" a] start_less [OF that] by simp
  then have "ucast a \<in> set (mc_offsets T) \<longleftrightarrow> (\<exists>i<entries. unat a = start i)"
    unfolding set_offsets by blast
  with ends show ?thesis
    by (auto simp: Mapped_ReadLocationValid_def Mapped_WriteLocationValid_def check_location_valid_iff)
qed

lemma valid_span:
  fixes a n :: u16
  assumes "Mapped_ReadLocationValid T (ucast a) (ucast n)" and "n \<noteq> 0"
  obtains i where "i < entries" "unat a = start i" "regs i \<le> unat n"
proof -
  obtain i j where ij: "i < entries" "j < entries" "unat a = start i" "unat a + unat n = start j + regs j"
    using assms(1) by (auto simp: location_valid_iff)
  have "unat n \<noteq> 0" using assms(2) by (simp add: unat_eq_0)
  then have "\<not> j < i" using ordered [of j i] ij by auto
  then have "start i + regs i \<le> start j + regs j"
    using ordered [of i j] ij by (cases "i = j") auto
  then show ?thesis using that ij by simp
qed

lemma single_field_valid:
  fixes a n :: u16
  shows "i < entries \<Longrightarrow> unat a = start i \<Longrightarrow> unat n = regs i \<Longrightarrow>
    Mapped_ReadLocationValid T (ucast a) (ucast n)"
  by (auto simp: location_valid_iff)

lemma fetch_start [simp]:
  "i < entries \<Longrightarrow> mapped_fetch T field P s (start i) n = field (the_controller s) i"
  using entries_small by (simp add: mapped_fetch_def GetMemoryMapEntryIndex_start unat_size_t_small)

text \<open>A view that a field can be moved to or from.\<close>

definition fits :: "nat \<Rightarrow> u8 ArrayView \<Rightarrow> bool" where
  "fits i v \<longleftrightarrow> view_wf v \<and> (view_size v = 2 * regs i \<or> tolerant i \<and> 2 * regs i \<le> view_size v)"

lemma fitsI: "view_wf v \<Longrightarrow> 2 * regs i \<le> view_size v \<Longrightarrow> view_size v = 2 * regs i \<or> tolerant i \<Longrightarrow> fits i v"
  by (auto simp: fits_def)

lemma length_fits: "fits i v \<Longrightarrow> length (take (2 * regs i) (view_data v)) = 2 * regs i"
  by (auto simp: fits_def view_wf_def)

lemma index_at:
  fixes a :: u16
  assumes "i < entries" and "unat a = start i"
  shows "GetMemoryMapEntryIndex T (ucast a) = word_of_nat i"
proof -
  have "ucast a = (word_of_nat (start i) :: size_t)"
    using size_t_eq_ucast [of "start i" a] start_less [OF assms(1)] assms(2) by simp
  then show ?thesis using GetMemoryMapEntryIndex_start [OF assms(1)] by simp
qed

lemma GetRegisters_span:
  fixes a n :: u16
  assumes "inv (the_controller s)" and valid: "Mapped_ReadLocationValid T (ucast a) (ucast n)"
    and i: "i < entries" "unat a = start i" and v: "fits i v"
  shows "Mapped_GetRegisters P T s (ucast a) (ucast n) v =
    Inr (v\<lparr>view_data := overwrite 0 (field (the_controller s) i) (view_data v)\<rparr>)"
  using assms
  by (simp add: Mapped_GetRegisters_def GetFieldFromAddress_def GetIdentifierFromAddress_def
      Mapped_GetField_def index_at [OF i] GetField_law fits_def)

lemma SetFieldFromAddress_start:
  assumes "inv (the_controller s)" and "i < entries" and "fits i v"
  shows "SetFieldFromAddress T s (word_of_nat (start i)) v =
    Inr \<lparr>new_data = True,
      the_controller = put (the_controller s) i (take (2 * regs i) (view_data v))\<rparr>"
  using assms
  by (simp add: SetFieldFromAddress_def GetIdentifierFromAddress_def GetMemoryMapEntryIndex_start
      Mapped_SetField_def SetNewData_def Let_def SetField_law fits_def)

lemma SetRegisters_span:
  fixes a n :: u16
  assumes "inv (the_controller s)" and valid: "Mapped_WriteLocationValid T (ucast a) (ucast n)"
    and i: "i < entries" "unat a = start i" and v: "fits i v"
  shows "Mapped_SetRegisters P T s (ucast a) (ucast n) v =
    Inr \<lparr>new_data = True,
      the_controller = put (the_controller s) i (take (2 * regs i) (view_data v))\<rparr>"
  using assms
  by (simp add: Mapped_SetRegisters_def SetFieldFromAddress_def GetIdentifierFromAddress_def index_at [OF i]
      Mapped_SetField_def SetNewData_def Let_def SetField_law fits_def)

text \<open>
  A span of whole fields that starts with field \<open>i\<close>: what is written goes to this field, and what is
  read back is what was written there.
\<close>

lemma write_then_read_span:
  fixes a n :: u16
  assumes wf: "inv (the_controller s)" and valid: "Mapped_WriteLocationValid T (ucast a) (ucast n)"
    and i: "i < entries" "unat a = start i" and v: "fits i v" and w: "fits i w"
  defines "bs \<equiv> take (2 * regs i) (view_data v)"
  shows "\<exists>s'. Mapped_SetRegisters P T s (ucast a) (ucast n) v = Inr s' \<and> IsNewData s' \<and>
    inv (the_controller s') \<and>
    Mapped_GetRegisters P T s' (ucast a) (ucast n) w = Inr (w\<lparr>view_data := overwrite 0 bs (view_data w)\<rparr>) \<and>
    (\<forall>j<entries. field (the_controller s') j = (if j = i then bs else field (the_controller s) j))"
proof -
  let ?s = "\<lparr>new_data = True, the_controller = put (the_controller s) i bs\<rparr>"
  note len = length_fits [OF v, folded bs_def]
  have inv': "inv (the_controller ?s)" using inv_put [OF wf i(1) len] by simp
  have valid': "Mapped_ReadLocationValid T (ucast a) (ucast n)"
    using valid by (simp add: Mapped_ReadLocationValid_def)
  from GetRegisters_span [OF inv' valid' i w] have
    "Mapped_GetRegisters P T ?s (ucast a) (ucast n) w = Inr (w\<lparr>view_data := overwrite 0 bs (view_data w)\<rparr>)"
    using field_put [OF wf i(1) len i(1)] by simp
  then show ?thesis
    using SetRegisters_span [OF wf valid i v, folded bs_def, of P] inv' field_put [OF wf i(1) len]
    by (simp add: IsNewData_def)
qed

end

section \<open>The store behind an InputRegisterController\<close>

text \<open>
  The controller hands a store a view that is two bytes longer than the registers it was asked for.
  The laws say what a tolerant field does with it, and nothing of the others: the requests they
  cover are those that start with a tolerant field.
\<close>

definition limited_ops ::
  "('st \<Rightarrow> size_t \<Rightarrow> size_t \<Rightarrow> bool) \<Rightarrow> 'st readable_store \<Rightarrow> 'st readable_store" where
  "limited_ops covered ops =
     ops\<lparr>op_ReadLocationValid := \<lambda>s a n. covered s a n \<and> op_ReadLocationValid ops s a n\<rparr>"

definition starts_tolerant ::
  "'m memory_controller \<Rightarrow> (nat \<Rightarrow> bool) \<Rightarrow> 'm MappedRegisterDataStore \<Rightarrow> size_t \<Rightarrow> size_t \<Rightarrow> bool" where
  "starts_tolerant T tolerant s a n \<longleftrightarrow> tolerant (unat (GetMemoryMapEntryIndex T a))"

text \<open>
  On these the store is one that an \<open>InputRegisterController\<close> can serve from: all that is known of
  slaves over readable stores holds of it.
\<close>

context memory_map
begin

lemma starts_tolerant_at:
  fixes a :: u16
  shows "i < entries \<Longrightarrow> unat a = start i \<Longrightarrow> starts_tolerant T tolerant s (ucast a) n \<longleftrightarrow> tolerant i"
  using entries_small by (simp add: starts_tolerant_def index_at unat_size_t_small)

end

sublocale memory_map \<subseteq> readable_register_store "\<lambda>P. limited_ops (starts_tolerant T tolerant) (Mapped_ops P T)"
    "\<lambda>s. inv (the_controller s)" "mapped_fetch T field"
proof unfold_locales
  fix s and P and a n :: u16 and v :: "u8 ArrayView"
  let ?ops = "limited_ops (starts_tolerant T tolerant) (Mapped_ops P T)"
  assume s: "inv (the_controller s)" and valid: "op_ReadLocationValid ?ops s (ucast a) (ucast n)" and n: "n \<noteq> 0"
  then have valid': "Mapped_ReadLocationValid T (ucast a) (ucast n)"
    and tol: "starts_tolerant T tolerant s (ucast a) (ucast n)"
    by (simp_all add: limited_ops_def Mapped_ops_def)
  obtain i where i: "i < entries" "unat a = start i" "regs i \<le> unat n" using valid_span [OF valid' n] .
  have fetch: "mapped_fetch T field P s (unat a) (unat n) = field (the_controller s) i" using i by simp
  show "length (mapped_fetch T field P s (unat a) (unat n)) \<le> 2 * unat n"
    using length_field [OF s i(1)] i(3) by (simp only: fetch)
  assume "2 * unat n \<le> view_size v" and "view_wf v"
  then have "fits i v" using tol i by (intro fitsI) (simp_all add: starts_tolerant_at)
  from GetRegisters_span [OF s valid' i(1,2) this] show "op_GetRegisters ?ops s (ucast a) (ucast n) v =
      Inr (v\<lparr>view_data := overwrite 0 (mapped_fetch T field P s (unat a) (unat n)) (view_data v)\<rparr>)"
    unfolding fetch by (simp add: limited_ops_def Mapped_ops_def)
qed

context memory_map
begin

lemma mapped_store_readable:
  "readable_register_store (\<lambda>P. limited_ops (starts_tolerant T tolerant) (Mapped_ops P T))
    (\<lambda>s. inv (the_controller s)) (mapped_fetch T field)"
  by unfold_locales

end

end
