(* ===== verification/Conversions.thy ===== *)
theory Conversions
  imports MappedStore RtuProtocol
begin

text \<open>
  Numbers and bytes in the generated register maps of \<open>examples/ConnectedDevice/common\<close>: the
  conversions of the library \<open>CppUtilities\<close> as parameters, the copy loops of the wrappers, and
  the casts of an index to an enumeration.
\<close>

section \<open>The conversions of the library\<close>

text \<open>
  \<open>Make_MSB_Integer k bs\<close> is \<open>Make_MSB_IntegerTypeFromArray<T>\<close> on the bytes \<open>bs\<close> for a \<open>T\<close> of \<open>k\<close>
  bytes, \<open>MakeMSBU8Array k v\<close> is \<open>MakeMSBU8Array<T>(v)\<close>; both name the byte order. What the first does
  with bytes that are not as many as the number has is not documented: \<open>conversions_ok\<close> says nothing
  about it, and it may fail. A signed value enters as the unsigned number with the same bits.
\<close>

record conversions =
  Make_MSB_Integer :: "nat \<Rightarrow> u8 list \<Rightarrow> nat result"
  MakeMSBU8Array :: "nat \<Rightarrow> nat \<Rightarrow> u8 list"

fun msb_bytes :: "nat \<Rightarrow> nat \<Rightarrow> u8 list" where
  "msb_bytes 0 v = []"
| "msb_bytes (Suc k) v = msb_bytes k (v div 256) @ [word_of_nat v]"

definition msb_value :: "u8 list \<Rightarrow> nat" where
  "msb_value bs = foldl (\<lambda>v b. 256 * v + unat b) 0 bs"

definition conversions_ok :: "conversions \<Rightarrow> bool" where
  "conversions_ok L \<longleftrightarrow>
     (\<forall>k v. MakeMSBU8Array L k v = msb_bytes k v) \<and>
     (\<forall>k bs. length bs = k \<longrightarrow> Make_MSB_Integer L k bs = Inr (msb_value bs))"

definition msb_conversions :: conversions where
  "msb_conversions = \<lparr>Make_MSB_Integer = (\<lambda>k bs. if length bs = k then Inr (msb_value bs) else Inl OutOfBounds),
     MakeMSBU8Array = msb_bytes\<rparr>"

lemma msb_conversions_ok [simp]: "conversions_ok msb_conversions"
  by (simp add: conversions_ok_def msb_conversions_def)

lemma conversions_okD:
  "conversions_ok L \<Longrightarrow> MakeMSBU8Array L k v = msb_bytes k v"
  "conversions_ok L \<Longrightarrow> length bs = k \<Longrightarrow> Make_MSB_Integer L k bs = Inr (msb_value bs)"
  by (auto simp: conversions_ok_def)

lemma length_msb_bytes [simp]: "length (msb_bytes k v) = k"
  by (induction k arbitrary: v) simp_all

lemma msb_bytes_2: "msb_bytes 2 v = [word_of_nat (v div 256), word_of_nat v]"
  by (simp add: numeral_2_eq_2)

lemma msb_value_simps [simp]:
  "msb_value [] = 0"
  "msb_value (bs @ [b]) = 256 * msb_value bs + unat b"
  by (simp_all add: msb_value_def)

lemma msb_value_bytes: "msb_value (msb_bytes k v) = v mod 256 ^ k"
proof (induction k arbitrary: v)
  case (Suc k)
  then show ?case by (simp add: mod_mult2_eq)
qed simp

lemma word_of_nat_low_byte: "word_of_nat (256 * m + unat b) = (b :: u8)"
  by (simp only: word_unat_eq_iff unat_word_of_nat_u8) simp

lemma msb_bytes_value: "msb_bytes (length bs) (msb_value bs) = bs"
proof (induction bs rule: rev_induct)
  case (snoc b bs)
  then show ?case
    by (simp only: length_append_singleton msb_value_simps msb_bytes.simps word_of_nat_low_byte) simp
qed simp

lemma msb_value_less: "msb_value bs < 256 ^ length bs"
proof (induction bs rule: rev_induct)
  case (snoc b bs)
  then have "256 * msb_value bs + unat b < 256 * (msb_value bs + 1)"
    using unat_u8_lt [of b] by (simp del: unat_u8_lt)
  also have "\<dots> \<le> 256 * 256 ^ length bs" using snoc by (intro mult_le_mono) simp_all
  finally show ?case by simp
qed simp

lemma msb_word_roundtrip:
  fixes w :: "'a::len word"
  assumes "LENGTH('a) = 8 * k"
  shows "word_of_nat (msb_value (msb_bytes k (unat w))) = w"
proof -
  have "unat w < 256 ^ k"
    using unsigned_less [of w] assms by (simp add: power_mult [of 2 8 k, simplified] flip: power_mult)
  then show ?thesis by (simp add: msb_value_bytes)
qed

lemma msb_bytes_inject:
  fixes w :: "'a::len word"
  assumes "LENGTH('a) = 8 * k"
  shows "msb_bytes k (unat w) = msb_bytes k (unat w') \<longleftrightarrow> w = w'"
  using msb_word_roundtrip [OF assms, of w] msb_word_roundtrip [OF assms, of w'] by metis

lemma msb_bytes_roundtrip:
  assumes "LENGTH('a::len) = 8 * k" and "length bs = k"
  shows "msb_bytes k (unat (word_of_nat (msb_value bs) :: 'a word)) = bs"
proof -
  have "msb_value bs < 2 ^ LENGTH('a)"
    using msb_value_less [of bs] assms by (simp add: power_mult)
  then have "unat (word_of_nat (msb_value bs) :: 'a word) = msb_value bs"
    by (simp add: unat_of_nat)
  then show ?thesis using msb_bytes_value [of bs] assms(2) by simp
qed

section \<open>The copy loops\<close>

text \<open>\<open>for (i = 0; i < n; i++) field[i] = data[i]\<close>\<close>

function load_bytes_loop :: "nat \<Rightarrow> nat \<Rightarrow> u8 ArrayView \<Rightarrow> u8 list \<Rightarrow> u8 list result" where
  "load_bytes_loop n i data field =
     (if i < n
      then rbind (view_get data i) (\<lambda>b. rbind (array_set i b field) (\<lambda>field.
           load_bytes_loop n (Suc i) data field))
      else Inr field)"
  by pat_completeness auto
termination by (relation "measure (\<lambda>(n, i, _). n - i)") auto

text \<open>\<open>for (i = 0; i < n; i++) data[i] = field[i]\<close>\<close>

function store_bytes_loop :: "nat \<Rightarrow> nat \<Rightarrow> u8 list \<Rightarrow> u8 ArrayView \<Rightarrow> u8 ArrayView result" where
  "store_bytes_loop n i field data =
     (if i < n
      then rbind (if i < length field then view_set data i (field ! i) else Inl OutOfBounds)
             (\<lambda>data. store_bytes_loop n (Suc i) field data)
      else Inr data)"
  by pat_completeness auto
termination by (relation "measure (\<lambda>(n, i, _). n - i)") auto

declare load_bytes_loop.simps [simp del] store_bytes_loop.simps [simp del]

lemma load_bytes_loop_spec:
  assumes "n \<le> view_size data" and "view_wf data" and "n \<le> length field" and "i \<le> n"
  shows "load_bytes_loop n i data field =
    Inr (overwrite i (take (n - i) (drop i (view_data data))) field)"
  using assms
proof (induction n i data field rule: load_bytes_loop.induct)
  case (1 n i data field)
  show ?case
  proof (cases "i < n")
    case True
    have wf: "i < length (view_data data)" using 1 True by (simp add: view_wf_def)
    have "take (n - i) (drop i (view_data data)) =
        view_data data ! i # take (n - Suc i) (drop (Suc i) (view_data data))"
      using True wf by (simp add: Cons_nth_drop_Suc [symmetric] Suc_diff_Suc [symmetric])
    then show ?thesis
      using 1 True wf by (subst load_bytes_loop.simps) (simp add: array_set_def overwrite_Cons)
  next
    case False
    then show ?thesis using 1 by (subst load_bytes_loop.simps) simp
  qed
qed

lemma store_bytes_loop_spec:
  assumes "n \<le> view_size data" and "view_wf data" and "n \<le> length field" and "i \<le> n"
  shows "store_bytes_loop n i field data =
    Inr (data\<lparr>view_data := overwrite i (take (n - i) (drop i field)) (view_data data)\<rparr>)"
  using assms
proof (induction n i field data rule: store_bytes_loop.induct)
  case (1 n i field data)
  show ?case
  proof (cases "i < n")
    case True
    have wf: "i < length (view_data data)" using 1 True by (simp add: view_wf_def)
    have "take (n - i) (drop i field) = field ! i # take (n - Suc i) (drop (Suc i) field)"
      using True 1 by (simp add: Cons_nth_drop_Suc [symmetric] Suc_diff_Suc [symmetric])
    then show ?thesis
      using 1 True wf by (subst store_bytes_loop.simps) (simp add: overwrite_Cons view_wf_def)
  next
    case False
    then show ?thesis using 1 by (subst store_bytes_loop.simps) simp
  qed
qed

section \<open>Fields of a struct\<close>

text \<open>An array field: \<open>std::min(sizeof(field), size)\<close> bytes are copied.\<close>

definition load_array :: "nat \<Rightarrow> u8 ArrayView \<Rightarrow> u8 list \<Rightarrow> u8 list result" where
  "load_array k data field = load_bytes_loop (min k (view_size data)) 0 data field"

definition store_array :: "nat \<Rightarrow> u8 list \<Rightarrow> u8 ArrayView \<Rightarrow> u8 ArrayView result" where
  "store_array k field data = store_bytes_loop (min k (view_size data)) 0 field data"

text \<open>A number: the library makes it from the \<open>size\<close> bytes at \<open>data\<close>, or takes it apart.\<close>

definition load_number :: "conversions \<Rightarrow> nat \<Rightarrow> u8 ArrayView \<Rightarrow> nat result" where
  "load_number L k data = rbind (view_elems data) (Make_MSB_Integer L k)"

definition store_number :: "conversions \<Rightarrow> nat \<Rightarrow> nat \<Rightarrow> u8 ArrayView \<Rightarrow> u8 ArrayView result" where
  "store_number L k v data =
     (let array = MakeMSBU8Array L k v in
      store_bytes_loop (min (length array) (view_size data)) 0 array data)"

lemma load_array_spec:
  "view_wf data \<Longrightarrow> length field = k \<Longrightarrow>
   load_array k data field =
     Inr (overwrite 0 (take (min k (view_size data)) (view_data data)) field)"
  by (simp add: load_array_def load_bytes_loop_spec)

lemma store_array_spec:
  "view_wf data \<Longrightarrow> length field = k \<Longrightarrow>
   store_array k field data =
     Inr (data\<lparr>view_data := overwrite 0 (take (view_size data) field) (view_data data)\<rparr>)"
  by (simp add: store_array_def store_bytes_loop_spec min_def)

lemma load_number_spec:
  "conversions_ok L \<Longrightarrow> view_wf data \<Longrightarrow> view_size data = k \<Longrightarrow>
   load_number L k data = Inr (msb_value (take k (view_data data)))"
  by (simp add: load_number_def view_elems_def conversions_okD view_wf_def)

lemma store_number_spec:
  "conversions_ok L \<Longrightarrow> view_wf data \<Longrightarrow>
   store_number L k v data =
     Inr (data\<lparr>view_data := overwrite 0 (take (view_size data) (msb_bytes k v)) (view_data data)\<rparr>)"
  by (simp add: store_number_def conversions_okD store_bytes_loop_spec min_def Let_def)

text \<open>
  Loading and storing never leave the buffers: the loops stop at the shorter of field and data.
\<close>

lemma load_array_ok:
  assumes "view_wf data" and "length field = k"
  shows "\<exists>x. load_array k data field = Inr x \<and> length x = k"
  using assms by (simp add: load_array_spec view_wf_def)

lemma store_array_ok:
  assumes "view_wf data" and "length field = k"
  shows "\<exists>data'. store_array k field data = Inr data' \<and> view_wf data' \<and> view_size data' = view_size data"
  using assms by (simp add: store_array_spec view_wf_def)

lemma store_number_ok:
  assumes "view_wf data"
  shows "\<exists>data'. store_number L k v data = Inr data' \<and> view_wf data' \<and> view_size data' = view_size data"
  using assms by (simp add: store_number_def Let_def store_bytes_loop_spec view_wf_def)

text \<open>\<open>static_cast\<close> of a \<open>size_t\<close> to an enumeration over \<open>int\<close>: \<open>None\<close> for a value without a name.\<close>

definition enum_of_index :: "'e list \<Rightarrow> size_t \<Rightarrow> 'e option" where
  "enum_of_index names index =
     (let k = unat (ucast index :: u32) in if k < length names then Some (names ! k) else None)"

lemma enum_of_index_small [simp]:
  "k < length names \<Longrightarrow> length names < 65536 \<Longrightarrow> enum_of_index names (word_of_nat k) = Some (names ! k)"
  by (simp add: enum_of_index_def unsigned_ucast_eq unat_of_nat take_bit_eq_mod)

end
