(* ===== verification/RegisterMap.thy ===== *)
theory RegisterMap
  imports Conversions
begin

text \<open>
  The generated register map of the tests, \<open>tests/source/TestHoldingRegisterMappedDataStore.h\<close>, and,
  in another namespace, \<open>TestInputRegisterMappedDataStore.h\<close>: the struct, its tables and the class
  \<open>Wrapper\<close>, which is what \<open>MappedRegisterDataStore\<close> takes as its memory controller. The wrapper's
  pointer to the struct is the struct itself.
\<close>

section \<open>The conversions of the library\<close>

text \<open>
  \<open>ArrayFromBytes(data, field, size, width)\<close> and \<open>ArrayToBytes(field, data, size, width)\<close> on an array of
  elements of \<open>width\<close> bytes, \<open>ConvertToType<T>(data, &field, size)\<close> and
  \<open>ConvertToBytes(field, data, size)\<close> on a number of \<open>width\<close> bytes are functions of the library
  CppUtilities, and parameters here. A pointer to data comes with the view it points into.
\<close>

record map_conversions =
  ArrayFromBytes :: "u8 ArrayView \<Rightarrow> u8 list \<Rightarrow> nat \<Rightarrow> nat \<Rightarrow> u8 list result"
  ArrayToBytes :: "u8 list \<Rightarrow> u8 ArrayView \<Rightarrow> nat \<Rightarrow> nat \<Rightarrow> u8 ArrayView result"
  ConvertToType :: "nat \<Rightarrow> u8 ArrayView \<Rightarrow> nat \<Rightarrow> nat \<Rightarrow> nat result"
  ConvertToBytes :: "nat \<Rightarrow> nat \<Rightarrow> u8 ArrayView \<Rightarrow> nat \<Rightarrow> u8 ArrayView result"

text \<open>
  What is relied on is that a field can be written out and read back: \<open>wire\<close> and \<open>value\<close> are inverse
  on arrays and on numbers, in whatever byte order, and the functions apply them when \<open>size\<close> is the
  size of the field. Nothing is said of any other size.
\<close>

record wire_format =
  array_wire :: "u8 list \<Rightarrow> u8 list"
  array_value :: "u8 list \<Rightarrow> u8 list"
  number_wire :: "nat \<Rightarrow> nat \<Rightarrow> u8 list"
  number_value :: "nat \<Rightarrow> u8 list \<Rightarrow> nat"

definition wire_format_ok :: "wire_format \<Rightarrow> bool" where
  "wire_format_ok F \<longleftrightarrow>
     (\<forall>xs. length (array_wire F xs) = length xs \<and> array_value F (array_wire F xs) = xs) \<and>
     (\<forall>bs. length (array_value F bs) = length bs \<and> array_wire F (array_value F bs) = bs) \<and>
     (\<forall>k \<in> {4, 8}. \<forall>v < 256 ^ k. length (number_wire F k v) = k \<and> number_value F k (number_wire F k v) = v) \<and>
     (\<forall>k \<in> {4, 8}. \<forall>bs. length bs = k \<longrightarrow> number_value F k bs < 256 ^ k \<and> number_wire F k (number_value F k bs) = bs)"

definition map_conversions_ok :: "wire_format \<Rightarrow> map_conversions \<Rightarrow> bool" where
  "map_conversions_ok F L \<longleftrightarrow> wire_format_ok F \<and>
     (\<forall>data field. view_wf data \<and> length field = view_size data \<longrightarrow>
        ArrayFromBytes L data field (view_size data) 1 = Inr (array_value F (take (view_size data) (view_data data)))) \<and>
     (\<forall>field data. view_wf data \<and> length field = view_size data \<longrightarrow>
        ArrayToBytes L field data (view_size data) 1 =
          Inr (data\<lparr>view_data := overwrite 0 (array_wire F field) (view_data data)\<rparr>)) \<and>
     (\<forall>k \<in> {4, 8}. \<forall>data old. view_wf data \<and> k \<le> view_size data \<longrightarrow>
        ConvertToType L k data old k = Inr (number_value F k (take k (view_data data)))) \<and>
     (\<forall>k \<in> {4, 8}. \<forall>v < 256 ^ k. \<forall>data. view_wf data \<and> k \<le> view_size data \<longrightarrow>
        ConvertToBytes L k v data k =
          Inr (data\<lparr>view_data := overwrite 0 (number_wire F k v) (view_data data)\<rparr>))"

text \<open>One such library: arrays as they are, numbers with the most significant byte first.\<close>

definition msb_format :: wire_format where
  "msb_format = \<lparr>array_wire = (\<lambda>xs. xs), array_value = (\<lambda>bs. bs),
     number_wire = msb_bytes, number_value = (\<lambda>_. msb_value)\<rparr>"

definition msb_map_conversions :: map_conversions where
  "msb_map_conversions = \<lparr>
     ArrayFromBytes = (\<lambda>data field size _.
       if size = length field then Inr (take size (view_data data)) else Inl OutOfBounds),
     ArrayToBytes = (\<lambda>field data size _.
       if size = length field then Inr (data\<lparr>view_data := overwrite 0 field (view_data data)\<rparr>) else Inl OutOfBounds),
     ConvertToType = (\<lambda>width data _ size.
       if size = width then Inr (msb_value (take size (view_data data))) else Inl OutOfBounds),
     ConvertToBytes = (\<lambda>width v data size.
       if size = width then Inr (data\<lparr>view_data := overwrite 0 (msb_bytes width v) (view_data data)\<rparr>)
       else Inl OutOfBounds)\<rparr>"

lemma msb_map_conversions_ok: "map_conversions_ok msb_format msb_map_conversions"
proof -
  have val: "\<forall>bs. length bs = k \<longrightarrow> msb_value bs < 256 ^ k \<and> msb_bytes k (msb_value bs) = bs" for k
    using msb_value_less msb_bytes_value by auto
  have bytes: "\<forall>v<256 ^ k. msb_value (msb_bytes k v) = v" for k
    by (simp add: msb_value_bytes)
  show ?thesis
    using val [of 4] val [of 8] bytes [of 4] bytes [of 8]
    unfolding map_conversions_ok_def wire_format_ok_def msb_format_def msb_map_conversions_def by simp
qed

lemma wire_formatD:
  assumes "wire_format_ok F"
  shows "length (array_wire F xs) = length xs" "length (array_value F xs) = length xs"
    "array_value F (array_wire F xs) = xs" "array_wire F (array_value F xs) = xs"
    "k \<in> {4, 8} \<Longrightarrow> v < 256 ^ k \<Longrightarrow> length (number_wire F k v) = k"
    "k \<in> {4, 8} \<Longrightarrow> length bs = k \<Longrightarrow> number_value F k bs < 256 ^ k"
    "k \<in> {4, 8} \<Longrightarrow> length bs = k \<Longrightarrow> number_wire F k (number_value F k bs) = bs"
  using assms unfolding wire_format_ok_def by blast+

lemma map_conversionsD:
  assumes "map_conversions_ok F L" and "view_wf data"
  shows "length field = view_size data \<Longrightarrow>
      ArrayFromBytes L data field (view_size data) 1 = Inr (array_value F (take (view_size data) (view_data data)))"
    "length field = view_size data \<Longrightarrow>
      ArrayToBytes L field data (view_size data) 1 =
        Inr (data\<lparr>view_data := overwrite 0 (array_wire F field) (view_data data)\<rparr>)"
    "k \<in> {4, 8} \<Longrightarrow> k \<le> view_size data \<Longrightarrow>
      ConvertToType L k data old k = Inr (number_value F k (take k (view_data data)))"
    "k \<in> {4, 8} \<Longrightarrow> v < 256 ^ k \<Longrightarrow> k \<le> view_size data \<Longrightarrow>
      ConvertToBytes L k v data k = Inr (data\<lparr>view_data := overwrite 0 (number_wire F k v) (view_data data)\<rparr>)"
  using assms unfolding map_conversions_ok_def by blast+

lemma map_conversions_format: "map_conversions_ok F L \<Longrightarrow> wire_format_ok F"
  by (simp add: map_conversions_ok_def)

section \<open>The struct and its tables\<close>

datatype EntryIdentifier =
    Entry_str20
  | Entry_str
  | Entry_int16
  | Entry_int32
  | Entry_int641
  | Entry_int642
  | Entry_int643
  | Entry_int644
  | Entry_int645
  | Entry_int646
  | Entry_int647
  | Entry_int648
  | Entry_int649
  | Entry_int640
  | Entry_int6411
  | Entry_int6412
  | Entry_int6413
  | Entry_int6422
  | Entry_unknown

definition EntryIdentifier_names :: "EntryIdentifier list" where
  "EntryIdentifier_names =
     [Entry_str20,
      Entry_str,
      Entry_int16,
      Entry_int32,
      Entry_int641,
      Entry_int642,
      Entry_int643,
      Entry_int644,
      Entry_int645,
      Entry_int646,
      Entry_int647,
      Entry_int648,
      Entry_int649,
      Entry_int640,
      Entry_int6411,
      Entry_int6412,
      Entry_int6413,
      Entry_int6422,
      Entry_unknown]"

fun get_enum_of_offset_loop :: "size_t \<Rightarrow> size_t list \<Rightarrow> nat \<Rightarrow> EntryIdentifier" where
  "get_enum_of_offset_loop offset [] i = Entry_unknown"
| "get_enum_of_offset_loop offset (x # xs) i =
     (if x = offset then EntryIdentifier_names ! i else get_enum_of_offset_loop offset xs (Suc i))"

definition get_enum_of_offset :: "size_t \<Rightarrow> size_t list \<Rightarrow> EntryIdentifier" where
  "get_enum_of_offset offset offsets = get_enum_of_offset_loop offset offsets 0"

type_synonym u64 = "64 word"

record holding_register =
  wreg_str20 :: "u8 list"
  wreg_str :: "u8 list"
  wreg_int16 :: "u32"
  wreg_int32 :: "u32"
  wreg_int641 :: "u64"
  wreg_int642 :: "u64"
  wreg_int643 :: "u64"
  wreg_int644 :: "u64"
  wreg_int645 :: "u64"
  wreg_int646 :: "u64"
  wreg_int647 :: "u64"
  wreg_int648 :: "u64"
  wreg_int649 :: "u64"
  wreg_int640 :: "u64"
  wreg_int6411 :: "u64"
  wreg_int6412 :: "u64"
  wreg_int6413 :: "u64"
  wreg_int6422 :: "u64"

definition holding_register_init :: holding_register where
  "holding_register_init = \<lparr>wreg_str20 = replicate 20 0,
     wreg_str = replicate 4 0,
     wreg_int16 = 0,
     wreg_int32 = 0,
     wreg_int641 = 0,
     wreg_int642 = 0,
     wreg_int643 = 0,
     wreg_int644 = 0,
     wreg_int645 = 0,
     wreg_int646 = 0,
     wreg_int647 = 0,
     wreg_int648 = 0,
     wreg_int649 = 0,
     wreg_int640 = 0,
     wreg_int6411 = 0,
     wreg_int6412 = 0,
     wreg_int6413 = 0,
     wreg_int6422 = 0\<rparr>"

definition Wrapper_entries :: nat where
  "Wrapper_entries = 18"

definition Wrapper_offsets :: "size_t list" where
  "Wrapper_offsets = [2, 12, 14, 16, 18, 22, 26, 30, 34, 38, 42, 46, 50, 54, 58, 62, 66, 70]"

definition Wrapper_end_points :: "size_t list" where
  "Wrapper_end_points =
     [2 + 10 - 1, 12 + 2 - 1, 14 + 2 - 1, 16 + 2 - 1, 18 + 4 - 1, 22 + 4 - 1,
      26 + 4 - 1, 30 + 4 - 1, 34 + 4 - 1, 38 + 4 - 1, 42 + 4 - 1, 46 + 4 - 1,
      50 + 4 - 1, 54 + 4 - 1, 58 + 4 - 1, 62 + 4 - 1, 66 + 4 - 1, 70 + 4 - 1]"

definition Wrapper_names :: "string list" where
  "Wrapper_names =
     [''str20'', ''str'', ''int16'', ''int32'', ''int641'', ''int642'',
      ''int643'', ''int644'', ''int645'', ''int646'', ''int647'', ''int648'',
      ''int649'', ''int640'', ''int6411'', ''int6412'', ''int6413'', ''int6422'']"

text \<open>\<open>sizeof(holding_register)\<close>: the numbers are aligned to their size, and no padding is needed.\<close>

definition Wrapper_size :: nat where
  "Wrapper_size = 144"

section \<open>SetField and GetField\<close>

text \<open>\<open>max_write_bytes\<close> is the smaller of the size of the data and the size of the number.\<close>

definition set_number :: "map_conversions \<Rightarrow> nat \<Rightarrow> u8 ArrayView \<Rightarrow> 'a::len word \<Rightarrow> 'a word result" where
  "set_number L width data field =
     (let max_write_bytes = min (view_size data) width in
      rbind (ConvertToType L width data (unat field) max_write_bytes) (\<lambda>v. Inr (word_of_nat v)))"

definition get_number :: "map_conversions \<Rightarrow> nat \<Rightarrow> 'a::len word \<Rightarrow> u8 ArrayView \<Rightarrow> u8 ArrayView result" where
  "get_number L width field data =
     (let max_write_bytes = min (view_size data) width in
      ConvertToBytes L width (unat field) data max_write_bytes)"

definition Wrapper_SetField ::
  "map_conversions \<Rightarrow> holding_register \<Rightarrow> size_t \<Rightarrow> u8 ArrayView \<Rightarrow> holding_register result" where
  "Wrapper_SetField L m index data =
     (case enum_of_index EntryIdentifier_names index of
        None \<Rightarrow> Inr m
      | Some identifier \<Rightarrow> (case identifier of
          Entry_unknown \<Rightarrow> Inr m
        | Entry_str20 \<Rightarrow>
            rbind (ArrayFromBytes L data (wreg_str20 m) (view_size data) 1) (\<lambda>x. Inr (m\<lparr>wreg_str20 := x\<rparr>))
        | Entry_str \<Rightarrow>
            rbind (ArrayFromBytes L data (wreg_str m) (view_size data) 1) (\<lambda>x. Inr (m\<lparr>wreg_str := x\<rparr>))
        | Entry_int16 \<Rightarrow>
            rbind (set_number L 4 data (wreg_int16 m)) (\<lambda>x. Inr (m\<lparr>wreg_int16 := x\<rparr>))
        | Entry_int32 \<Rightarrow>
            rbind (set_number L 4 data (wreg_int32 m)) (\<lambda>x. Inr (m\<lparr>wreg_int32 := x\<rparr>))
        | Entry_int641 \<Rightarrow>
            rbind (set_number L 8 data (wreg_int641 m)) (\<lambda>x. Inr (m\<lparr>wreg_int641 := x\<rparr>))
        | Entry_int642 \<Rightarrow>
            rbind (set_number L 8 data (wreg_int642 m)) (\<lambda>x. Inr (m\<lparr>wreg_int642 := x\<rparr>))
        | Entry_int643 \<Rightarrow>
            rbind (set_number L 8 data (wreg_int643 m)) (\<lambda>x. Inr (m\<lparr>wreg_int643 := x\<rparr>))
        | Entry_int644 \<Rightarrow>
            rbind (set_number L 8 data (wreg_int644 m)) (\<lambda>x. Inr (m\<lparr>wreg_int644 := x\<rparr>))
        | Entry_int645 \<Rightarrow>
            rbind (set_number L 8 data (wreg_int645 m)) (\<lambda>x. Inr (m\<lparr>wreg_int645 := x\<rparr>))
        | Entry_int646 \<Rightarrow>
            rbind (set_number L 8 data (wreg_int646 m)) (\<lambda>x. Inr (m\<lparr>wreg_int646 := x\<rparr>))
        | Entry_int647 \<Rightarrow>
            rbind (set_number L 8 data (wreg_int647 m)) (\<lambda>x. Inr (m\<lparr>wreg_int647 := x\<rparr>))
        | Entry_int648 \<Rightarrow>
            rbind (set_number L 8 data (wreg_int648 m)) (\<lambda>x. Inr (m\<lparr>wreg_int648 := x\<rparr>))
        | Entry_int649 \<Rightarrow>
            rbind (set_number L 8 data (wreg_int649 m)) (\<lambda>x. Inr (m\<lparr>wreg_int649 := x\<rparr>))
        | Entry_int640 \<Rightarrow>
            rbind (set_number L 8 data (wreg_int640 m)) (\<lambda>x. Inr (m\<lparr>wreg_int640 := x\<rparr>))
        | Entry_int6411 \<Rightarrow>
            rbind (set_number L 8 data (wreg_int6411 m)) (\<lambda>x. Inr (m\<lparr>wreg_int6411 := x\<rparr>))
        | Entry_int6412 \<Rightarrow>
            rbind (set_number L 8 data (wreg_int6412 m)) (\<lambda>x. Inr (m\<lparr>wreg_int6412 := x\<rparr>))
        | Entry_int6413 \<Rightarrow>
            rbind (set_number L 8 data (wreg_int6413 m)) (\<lambda>x. Inr (m\<lparr>wreg_int6413 := x\<rparr>))
        | Entry_int6422 \<Rightarrow>
            rbind (set_number L 8 data (wreg_int6422 m)) (\<lambda>x. Inr (m\<lparr>wreg_int6422 := x\<rparr>))))"

definition Wrapper_GetField ::
  "map_conversions \<Rightarrow> holding_register \<Rightarrow> size_t \<Rightarrow> u8 ArrayView \<Rightarrow> u8 ArrayView result" where
  "Wrapper_GetField L m index data =
     (case enum_of_index EntryIdentifier_names index of
        None \<Rightarrow> Inr data
      | Some identifier \<Rightarrow> (case identifier of
          Entry_unknown \<Rightarrow> Inr data
        | Entry_str20 \<Rightarrow> ArrayToBytes L (wreg_str20 m) data (view_size data) 1
        | Entry_str \<Rightarrow> ArrayToBytes L (wreg_str m) data (view_size data) 1
        | Entry_int16 \<Rightarrow> get_number L 4 (wreg_int16 m) data
        | Entry_int32 \<Rightarrow> get_number L 4 (wreg_int32 m) data
        | Entry_int641 \<Rightarrow> get_number L 8 (wreg_int641 m) data
        | Entry_int642 \<Rightarrow> get_number L 8 (wreg_int642 m) data
        | Entry_int643 \<Rightarrow> get_number L 8 (wreg_int643 m) data
        | Entry_int644 \<Rightarrow> get_number L 8 (wreg_int644 m) data
        | Entry_int645 \<Rightarrow> get_number L 8 (wreg_int645 m) data
        | Entry_int646 \<Rightarrow> get_number L 8 (wreg_int646 m) data
        | Entry_int647 \<Rightarrow> get_number L 8 (wreg_int647 m) data
        | Entry_int648 \<Rightarrow> get_number L 8 (wreg_int648 m) data
        | Entry_int649 \<Rightarrow> get_number L 8 (wreg_int649 m) data
        | Entry_int640 \<Rightarrow> get_number L 8 (wreg_int640 m) data
        | Entry_int6411 \<Rightarrow> get_number L 8 (wreg_int6411 m) data
        | Entry_int6412 \<Rightarrow> get_number L 8 (wreg_int6412 m) data
        | Entry_int6413 \<Rightarrow> get_number L 8 (wreg_int6413 m) data
        | Entry_int6422 \<Rightarrow> get_number L 8 (wreg_int6422 m) data))"

section \<open>Getters and setters\<close>

text \<open>The setter of an array copies as many bytes as it is told to, whatever the array holds.\<close>

definition Wrapper_get_str20 :: "holding_register \<Rightarrow> u8 ArrayView" where
  "Wrapper_get_str20 m = \<lparr>view_size = 20, view_data = wreg_str20 m\<rparr>"

definition Wrapper_set_str20 :: "u8 ArrayView \<Rightarrow> nat \<Rightarrow> holding_register \<Rightarrow> holding_register result" where
  "Wrapper_set_str20 value len m = rbind (load_bytes_loop len 0 value (wreg_str20 m)) (\<lambda>x. Inr (m\<lparr>wreg_str20 := x\<rparr>))"

definition Wrapper_get_str :: "holding_register \<Rightarrow> u8 ArrayView" where
  "Wrapper_get_str m = \<lparr>view_size = 4, view_data = wreg_str m\<rparr>"

definition Wrapper_set_str :: "u8 ArrayView \<Rightarrow> nat \<Rightarrow> holding_register \<Rightarrow> holding_register result" where
  "Wrapper_set_str value len m = rbind (load_bytes_loop len 0 value (wreg_str m)) (\<lambda>x. Inr (m\<lparr>wreg_str := x\<rparr>))"

definition Wrapper_get_int16 :: "holding_register \<Rightarrow> u32" where "Wrapper_get_int16 m = wreg_int16 m"
definition Wrapper_set_int16 :: "u32 \<Rightarrow> holding_register \<Rightarrow> holding_register" where "Wrapper_set_int16 value m = m\<lparr>wreg_int16 := value\<rparr>"

definition Wrapper_get_int32 :: "holding_register \<Rightarrow> u32" where "Wrapper_get_int32 m = wreg_int32 m"
definition Wrapper_set_int32 :: "u32 \<Rightarrow> holding_register \<Rightarrow> holding_register" where "Wrapper_set_int32 value m = m\<lparr>wreg_int32 := value\<rparr>"

definition Wrapper_get_int641 :: "holding_register \<Rightarrow> u64" where "Wrapper_get_int641 m = wreg_int641 m"
definition Wrapper_set_int641 :: "u64 \<Rightarrow> holding_register \<Rightarrow> holding_register" where "Wrapper_set_int641 value m = m\<lparr>wreg_int641 := value\<rparr>"

definition Wrapper_get_int642 :: "holding_register \<Rightarrow> u64" where "Wrapper_get_int642 m = wreg_int642 m"
definition Wrapper_set_int642 :: "u64 \<Rightarrow> holding_register \<Rightarrow> holding_register" where "Wrapper_set_int642 value m = m\<lparr>wreg_int642 := value\<rparr>"

definition Wrapper_get_int643 :: "holding_register \<Rightarrow> u64" where "Wrapper_get_int643 m = wreg_int643 m"
definition Wrapper_set_int643 :: "u64 \<Rightarrow> holding_register \<Rightarrow> holding_register" where "Wrapper_set_int643 value m = m\<lparr>wreg_int643 := value\<rparr>"

definition Wrapper_get_int644 :: "holding_register \<Rightarrow> u64" where "Wrapper_get_int644 m = wreg_int644 m"
definition Wrapper_set_int644 :: "u64 \<Rightarrow> holding_register \<Rightarrow> holding_register" where "Wrapper_set_int644 value m = m\<lparr>wreg_int644 := value\<rparr>"

definition Wrapper_get_int645 :: "holding_register \<Rightarrow> u64" where "Wrapper_get_int645 m = wreg_int645 m"
definition Wrapper_set_int645 :: "u64 \<Rightarrow> holding_register \<Rightarrow> holding_register" where "Wrapper_set_int645 value m = m\<lparr>wreg_int645 := value\<rparr>"

definition Wrapper_get_int646 :: "holding_register \<Rightarrow> u64" where "Wrapper_get_int646 m = wreg_int646 m"
definition Wrapper_set_int646 :: "u64 \<Rightarrow> holding_register \<Rightarrow> holding_register" where "Wrapper_set_int646 value m = m\<lparr>wreg_int646 := value\<rparr>"

definition Wrapper_get_int647 :: "holding_register \<Rightarrow> u64" where "Wrapper_get_int647 m = wreg_int647 m"
definition Wrapper_set_int647 :: "u64 \<Rightarrow> holding_register \<Rightarrow> holding_register" where "Wrapper_set_int647 value m = m\<lparr>wreg_int647 := value\<rparr>"

definition Wrapper_get_int648 :: "holding_register \<Rightarrow> u64" where "Wrapper_get_int648 m = wreg_int648 m"
definition Wrapper_set_int648 :: "u64 \<Rightarrow> holding_register \<Rightarrow> holding_register" where "Wrapper_set_int648 value m = m\<lparr>wreg_int648 := value\<rparr>"

definition Wrapper_get_int649 :: "holding_register \<Rightarrow> u64" where "Wrapper_get_int649 m = wreg_int649 m"
definition Wrapper_set_int649 :: "u64 \<Rightarrow> holding_register \<Rightarrow> holding_register" where "Wrapper_set_int649 value m = m\<lparr>wreg_int649 := value\<rparr>"

definition Wrapper_get_int640 :: "holding_register \<Rightarrow> u64" where "Wrapper_get_int640 m = wreg_int640 m"
definition Wrapper_set_int640 :: "u64 \<Rightarrow> holding_register \<Rightarrow> holding_register" where "Wrapper_set_int640 value m = m\<lparr>wreg_int640 := value\<rparr>"

definition Wrapper_get_int6411 :: "holding_register \<Rightarrow> u64" where "Wrapper_get_int6411 m = wreg_int6411 m"
definition Wrapper_set_int6411 :: "u64 \<Rightarrow> holding_register \<Rightarrow> holding_register" where "Wrapper_set_int6411 value m = m\<lparr>wreg_int6411 := value\<rparr>"

definition Wrapper_get_int6412 :: "holding_register \<Rightarrow> u64" where "Wrapper_get_int6412 m = wreg_int6412 m"
definition Wrapper_set_int6412 :: "u64 \<Rightarrow> holding_register \<Rightarrow> holding_register" where "Wrapper_set_int6412 value m = m\<lparr>wreg_int6412 := value\<rparr>"

definition Wrapper_get_int6413 :: "holding_register \<Rightarrow> u64" where "Wrapper_get_int6413 m = wreg_int6413 m"
definition Wrapper_set_int6413 :: "u64 \<Rightarrow> holding_register \<Rightarrow> holding_register" where "Wrapper_set_int6413 value m = m\<lparr>wreg_int6413 := value\<rparr>"

definition Wrapper_get_int6422 :: "holding_register \<Rightarrow> u64" where "Wrapper_get_int6422 m = wreg_int6422 m"
definition Wrapper_set_int6422 :: "u64 \<Rightarrow> holding_register \<Rightarrow> holding_register" where "Wrapper_set_int6422 value m = m\<lparr>wreg_int6422 := value\<rparr>"

section \<open>The map as fields\<close>

text \<open>
  The layout, from the struct alone: the sizes of its members in bytes, two bytes to a register, the
  first member at register 2.
\<close>

definition wreg_sizes :: "nat list" where
  "wreg_sizes = [20, 4, 4, 4, 8, 8, 8, 8, 8, 8, 8, 8, 8, 8, 8, 8, 8, 8]"

definition wreg_regs :: "nat \<Rightarrow> nat" where
  "wreg_regs i = wreg_sizes ! i div 2"

definition wreg_start :: "nat \<Rightarrow> nat" where
  "wreg_start i = 2 + sum_list (take i wreg_sizes) div 2"

text \<open>The fields as the wire carries them, and the struct after field \<open>i\<close> took bytes from the wire.\<close>

definition wreg_fields :: "wire_format \<Rightarrow> holding_register \<Rightarrow> u8 list list" where
  "wreg_fields F m =
     [array_wire F (wreg_str20 m),
      array_wire F (wreg_str m),
      number_wire F 4 (unat (wreg_int16 m)),
      number_wire F 4 (unat (wreg_int32 m)),
      number_wire F 8 (unat (wreg_int641 m)),
      number_wire F 8 (unat (wreg_int642 m)),
      number_wire F 8 (unat (wreg_int643 m)),
      number_wire F 8 (unat (wreg_int644 m)),
      number_wire F 8 (unat (wreg_int645 m)),
      number_wire F 8 (unat (wreg_int646 m)),
      number_wire F 8 (unat (wreg_int647 m)),
      number_wire F 8 (unat (wreg_int648 m)),
      number_wire F 8 (unat (wreg_int649 m)),
      number_wire F 8 (unat (wreg_int640 m)),
      number_wire F 8 (unat (wreg_int6411 m)),
      number_wire F 8 (unat (wreg_int6412 m)),
      number_wire F 8 (unat (wreg_int6413 m)),
      number_wire F 8 (unat (wreg_int6422 m))]"

definition wreg_put :: "wire_format \<Rightarrow> holding_register \<Rightarrow> nat \<Rightarrow> u8 list \<Rightarrow> holding_register" where
  "wreg_put F m i bs =
     [m\<lparr>wreg_str20 := array_value F bs\<rparr>,
      m\<lparr>wreg_str := array_value F bs\<rparr>,
      m\<lparr>wreg_int16 := word_of_nat (number_value F 4 bs)\<rparr>,
      m\<lparr>wreg_int32 := word_of_nat (number_value F 4 bs)\<rparr>,
      m\<lparr>wreg_int641 := word_of_nat (number_value F 8 bs)\<rparr>,
      m\<lparr>wreg_int642 := word_of_nat (number_value F 8 bs)\<rparr>,
      m\<lparr>wreg_int643 := word_of_nat (number_value F 8 bs)\<rparr>,
      m\<lparr>wreg_int644 := word_of_nat (number_value F 8 bs)\<rparr>,
      m\<lparr>wreg_int645 := word_of_nat (number_value F 8 bs)\<rparr>,
      m\<lparr>wreg_int646 := word_of_nat (number_value F 8 bs)\<rparr>,
      m\<lparr>wreg_int647 := word_of_nat (number_value F 8 bs)\<rparr>,
      m\<lparr>wreg_int648 := word_of_nat (number_value F 8 bs)\<rparr>,
      m\<lparr>wreg_int649 := word_of_nat (number_value F 8 bs)\<rparr>,
      m\<lparr>wreg_int640 := word_of_nat (number_value F 8 bs)\<rparr>,
      m\<lparr>wreg_int6411 := word_of_nat (number_value F 8 bs)\<rparr>,
      m\<lparr>wreg_int6412 := word_of_nat (number_value F 8 bs)\<rparr>,
      m\<lparr>wreg_int6413 := word_of_nat (number_value F 8 bs)\<rparr>,
      m\<lparr>wreg_int6422 := word_of_nat (number_value F 8 bs)\<rparr>] ! i"

definition wreg_wf :: "holding_register \<Rightarrow> bool" where
  "wreg_wf m \<longleftrightarrow> length (wreg_str20 m) = 20 \<and> length (wreg_str m) = 4"

lemma wreg_cases:
  "i < (18::nat) \<Longrightarrow> i = 17 \<or> i = 16 \<or> i = 15 \<or> i = 14 \<or> i = 13 \<or> i = 12 \<or> i = 11 \<or> i = 10 \<or> i = 9 \<or> i = 8 \<or> i = 7 \<or> i = 6 \<or> i = 5 \<or> i = 4 \<or> i = 3 \<or> i = 2 \<or> i = 1 \<or> i = 0"
  by presburger

lemma wreg_starts: "map wreg_start [0..<19] = [2, 12, 14, 16, 18, 22, 26, 30, 34, 38, 42, 46, 50, 54, 58, 62, 66, 70, 74]"
  by (simp add: upt_rec wreg_start_def wreg_sizes_def)

lemma wreg_registers: "map wreg_regs [0..<18] = [10, 2, 2, 2, 4, 4, 4, 4, 4, 4, 4, 4, 4, 4, 4, 4, 4, 4]"
  by (simp add: upt_rec wreg_regs_def wreg_sizes_def)

lemma wreg_start_nth:
  "i < 19 \<Longrightarrow> wreg_start i = [2, 12, 14, 16, 18, 22, 26, 30, 34, 38, 42, 46, 50, 54, 58, 62, 66, 70, 74] ! i"
  using arg_cong [OF wreg_starts, of "\<lambda>xs. xs ! i"] by simp

lemma wreg_regs_nth:
  "i < 18 \<Longrightarrow> wreg_regs i = [10, 2, 2, 2, 4, 4, 4, 4, 4, 4, 4, 4, 4, 4, 4, 4, 4, 4] ! i"
  using arg_cong [OF wreg_registers, of "\<lambda>xs. xs ! i"] by simp

lemma wreg_start_Suc: "i < 18 \<Longrightarrow> wreg_start i + wreg_regs i = wreg_start (Suc i)"
  using wreg_cases [of i] by (auto simp: wreg_start_nth wreg_regs_nth)

lemma wreg_start_less: "i < j \<Longrightarrow> j \<le> 18 \<Longrightarrow> wreg_start i < wreg_start j"
proof -
  assume "i < j" "j \<le> 18"
  moreover have "sorted_wrt (<) (map wreg_start [0..<19])" unfolding wreg_starts by simp
  ultimately show ?thesis using sorted_wrt_nth_less [of "(<)" "map wreg_start [0..<19]" i j] by simp
qed

lemma wreg_start_le: "i \<le> j \<Longrightarrow> j \<le> 18 \<Longrightarrow> wreg_start i \<le> wreg_start j"
  using wreg_start_less [of i j] by (cases "i = j") simp_all

lemma wreg_regs_pos: "i < 18 \<Longrightarrow> 0 < wreg_regs i"
  using wreg_start_Suc [of i] wreg_start_less [of i "Suc i"] by simp

lemma wreg_names_nth:
  "i < 18 \<Longrightarrow> enum_of_index EntryIdentifier_names (word_of_nat i) = Some (EntryIdentifier_names ! i)"
  by (rule enum_of_index_small) (simp_all add: EntryIdentifier_names_def)

lemma length_wreg_fields [simp]: "length (wreg_fields F m) = 18"
  by (simp add: wreg_fields_def)

text \<open>A view that a field can be moved to or from: as long as the field, or longer for a number.\<close>

definition wreg_fits :: "nat \<Rightarrow> u8 ArrayView \<Rightarrow> bool" where
  "wreg_fits i v \<longleftrightarrow> view_wf v \<and> (view_size v = 2 * wreg_regs i \<or> 2 \<le> i \<and> 2 * wreg_regs i \<le> view_size v)"

lemma unat_number [simp]: "unat (w :: u32) < 4294967296" "unat (w' :: u64) < 18446744073709551616"
  using unsigned_less [of w] unsigned_less [of w'] by simp_all

lemma number_moves:
  assumes L: "map_conversions_ok F L" and v: "view_wf v"
  shows "4 \<le> view_size v \<Longrightarrow>
      set_number L 4 v (w :: u32) = Inr (word_of_nat (number_value F 4 (take 4 (view_data v))))"
    "8 \<le> view_size v \<Longrightarrow>
      set_number L 8 v (w' :: u64) = Inr (word_of_nat (number_value F 8 (take 8 (view_data v))))"
    "4 \<le> view_size v \<Longrightarrow>
      get_number L 4 w v = Inr (v\<lparr>view_data := overwrite 0 (number_wire F 4 (unat w)) (view_data v)\<rparr>)"
    "8 \<le> view_size v \<Longrightarrow>
      get_number L 8 w' v = Inr (v\<lparr>view_data := overwrite 0 (number_wire F 8 (unat w')) (view_data v)\<rparr>)"
  using map_conversionsD(3) [OF L v, of 4] map_conversionsD(3) [OF L v, of 8]
    map_conversionsD(4) [OF L v, of 4 "unat w"] map_conversionsD(4) [OF L v, of 8 "unat w'"]
  by (simp_all add: set_number_def get_number_def min_def)

lemma array_moves:
  assumes L: "map_conversions_ok F L" and v: "view_wf v" and k: "length xs = k" "view_size v = k"
  shows "ArrayFromBytes L v xs k 1 = Inr (array_value F (take k (view_data v)))"
    "ArrayToBytes L xs v k 1 = Inr (v\<lparr>view_data := overwrite 0 (array_wire F xs) (view_data v)\<rparr>)"
  using map_conversionsD(1,2) [OF L v, of xs] k by simp_all

lemma number_wire_words:
  assumes F: "wire_format_ok F"
  shows "length (number_wire F 4 (unat (w :: u32))) = 4" "length (number_wire F 8 (unat (w' :: u64))) = 8"
    "length bs = 4 \<Longrightarrow> number_wire F 4 (unat (word_of_nat (number_value F 4 bs) :: u32)) = bs"
    "length bs = 8 \<Longrightarrow> number_wire F 8 (unat (word_of_nat (number_value F 8 bs) :: u64)) = bs"
  using wire_formatD(5) [OF F, of 4 "unat w"] wire_formatD(5) [OF F, of 8 "unat w'"]
    wire_formatD(6,7) [OF F, of 4 bs] wire_formatD(6,7) [OF F, of 8 bs]
  by (simp_all add: unat_of_nat)

lemma length_wreg_field:
  assumes F: "wire_format_ok F" and m: "wreg_wf m" and i: "i < 18"
  shows "length (wreg_fields F m ! i) = 2 * wreg_regs i"
  using wreg_cases [OF i] m wire_formatD(1) [OF F]
  by (elim disjE) (simp_all add: wreg_fields_def wreg_wf_def wreg_regs_nth number_wire_words [OF F])

lemma wreg_GetField:
  assumes L: "map_conversions_ok F L" and m: "wreg_wf m" and i: "i < 18" and v: "wreg_fits i v"
  shows "Wrapper_GetField L m (word_of_nat i) v =
    Inr (v\<lparr>view_data := overwrite 0 (wreg_fields F m ! i) (view_data v)\<rparr>)"
proof -
  have wf: "view_wf v" and le: "2 * wreg_regs i \<le> view_size v" and eq: "i < 2 \<Longrightarrow> view_size v = 2 * wreg_regs i"
    using v by (auto simp: wreg_fits_def)
  show ?thesis
    using wreg_cases [OF i] m le eq unfolding Wrapper_GetField_def wreg_names_nth [OF i]
    by (elim disjE) (simp_all add: EntryIdentifier_names_def wreg_fields_def wreg_wf_def wreg_regs_nth
        array_moves [OF L wf, unfolded One_nat_def] number_moves [OF L wf])
qed

lemma wreg_SetField:
  assumes L: "map_conversions_ok F L" and m: "wreg_wf m" and i: "i < 18" and v: "wreg_fits i v"
  shows "Wrapper_SetField L m (word_of_nat i) v = Inr (wreg_put F m i (take (2 * wreg_regs i) (view_data v)))"
proof -
  have wf: "view_wf v" and le: "2 * wreg_regs i \<le> view_size v" and eq: "i < 2 \<Longrightarrow> view_size v = 2 * wreg_regs i"
    using v by (auto simp: wreg_fits_def)
  show ?thesis
    using wreg_cases [OF i] m le eq unfolding Wrapper_SetField_def wreg_names_nth [OF i]
    by (elim disjE) (simp_all add: EntryIdentifier_names_def wreg_put_def wreg_wf_def wreg_regs_nth
        array_moves [OF L wf, unfolded One_nat_def] number_moves [OF L wf])
qed

lemma wreg_fields_put:
  assumes F: "wire_format_ok F" and i: "i < 18" and bs: "length bs = 2 * wreg_regs i"
  shows "wreg_fields F (wreg_put F m i bs) = (wreg_fields F m)[i := bs]"
  using wreg_cases [OF i] bs wire_formatD(4) [OF F]
  by (elim disjE) (simp_all add: wreg_fields_def wreg_put_def wreg_regs_nth number_wire_words [OF F])

lemma wreg_wf_put:
  assumes F: "wire_format_ok F" and m: "wreg_wf m" and i: "i < 18" and bs: "length bs = 2 * wreg_regs i"
  shows "wreg_wf (wreg_put F m i bs)"
  using wreg_cases [OF i] m bs wire_formatD(2) [OF F]
  by (elim disjE) (simp_all add: wreg_wf_def wreg_put_def wreg_regs_nth)

lemma wreg_init_wf: "wreg_wf holding_register_init"
  by (simp add: wreg_wf_def holding_register_init_def)

section \<open>The wrapper as a memory controller\<close>

definition Wrapper_controller :: "map_conversions \<Rightarrow> holding_register memory_controller" where
  "Wrapper_controller L = \<lparr>
     mc_offsets = Wrapper_offsets, mc_end_points = Wrapper_end_points, mc_size = Wrapper_size,
     mc_SetField = Wrapper_SetField L, mc_GetField = Wrapper_GetField L\<rparr>"

text \<open>\<open>get_enum_of_offset\<close> on the table of offsets finds the field that starts there.\<close>

lemma get_enum_of_offset_start:
  "i < 18 \<Longrightarrow> get_enum_of_offset (word_of_nat (wreg_start i)) Wrapper_offsets = EntryIdentifier_names ! i"
  by (drule wreg_cases, elim disjE) (simp_all add: get_enum_of_offset_def Wrapper_offsets_def wreg_start_nth
      EntryIdentifier_names_def)

lemma Wrapper_tables:
  "Wrapper_offsets = map (\<lambda>i. word_of_nat (wreg_start i)) [0..<18]"
  "Wrapper_end_points = map (\<lambda>i. word_of_nat (wreg_start i + wreg_regs i - 1)) [0..<18]"
  by (simp_all add: Wrapper_offsets_def Wrapper_end_points_def wreg_start_nth wreg_regs_nth upt_rec)

lemma wrapper_memory_map:
  assumes L: "map_conversions_ok F L"
  shows "memory_map (Wrapper_controller L) wreg_wf (\<lambda>m i. wreg_fields F m ! i) (wreg_put F)
    18 wreg_start wreg_regs ((\<le>) 2)"
proof unfold_locales
  note F = map_conversions_format [OF L]
  show "mc_offsets (Wrapper_controller L) = map (\<lambda>i. word_of_nat (wreg_start i)) [0..<18]"
    "mc_end_points (Wrapper_controller L) = map (\<lambda>i. word_of_nat (wreg_start i + wreg_regs i - 1)) [0..<18]"
    by (simp_all only: Wrapper_controller_def memory_controller.simps Wrapper_tables)
  fix i j assume "i < j" "j < (18 :: nat)"
  then show "wreg_start i + wreg_regs i \<le> wreg_start j"
    using wreg_start_Suc [of i] wreg_start_le [of "Suc i" j] by simp
next
  fix i assume i: "i < (18 :: nat)"
  show "0 < wreg_regs i" using wreg_regs_pos [OF i] .
  show "wreg_start i + wreg_regs i \<le> 65536"
    using wreg_start_Suc [OF i] wreg_start_le [of "Suc i" 18] i by (simp add: wreg_start_nth)
next
  fix m i and v :: "u8 ArrayView"
  assume m: "wreg_wf m" "i < (18 :: nat)" "view_wf v"
    and v: "view_size v = 2 * wreg_regs i \<or> 2 \<le> i \<and> 2 * wreg_regs i \<le> view_size v"
  then have fit: "wreg_fits i v" by (simp add: wreg_fits_def)
  from wreg_GetField [OF L m(1,2) fit] show "mc_GetField (Wrapper_controller L) m (word_of_nat i) v =
      Inr (v\<lparr>view_data := overwrite 0 (wreg_fields F m ! i) (view_data v)\<rparr>)"
    by (simp add: Wrapper_controller_def)
  from wreg_SetField [OF L m(1,2) fit] show "mc_SetField (Wrapper_controller L) m (word_of_nat i) v =
      Inr (wreg_put F m i (take (2 * wreg_regs i) (view_data v)))"
    by (simp add: Wrapper_controller_def)
qed (simp_all add: length_wreg_field wreg_wf_put wreg_fields_put map_conversions_format [OF L])

interpretation wrapper_map: memory_map "Wrapper_controller msb_map_conversions" wreg_wf
    "\<lambda>m i. wreg_fields msb_format m ! i" "wreg_put msb_format" 18 wreg_start wreg_regs "(\<le>) 2"
  by (rule wrapper_memory_map [OF msb_map_conversions_ok])

end
