(* ===== verification/MappedSlave.thy ===== *)
theory MappedSlave
  imports MappedStore StoreRequests
begin

text \<open>
  A slave whose input registers are the fields of a struct: \<open>InputRegisterController\<close> over
  \<open>MappedRegisterDataStore\<close>. The laws of a memory map cover the requests that start with a tolerant
  field; a slave over the store limited to these answers them, and those that the store refuses,
  as the slave over the store itself.
\<close>

section \<open>A limited store\<close>

lemma limited_ops_simps [simp]:
  "op_ReadLocationValid (limited_ops covered T) s a n \<longleftrightarrow> covered s a n \<and> op_ReadLocationValid T s a n"
  "op_GetRegisters (limited_ops covered T) = op_GetRegisters T"
  by (simp_all add: limited_ops_def)

definition request_covered ::
  "('st \<Rightarrow> size_t \<Rightarrow> size_t \<Rightarrow> bool) \<Rightarrow> 'st readable_store \<Rightarrow> 'st \<Rightarrow> u16 \<Rightarrow> u16 \<Rightarrow> bool" where
  "request_covered covered T s a n \<longleftrightarrow>
     (op_ReadLocationValid T s (ucast a) (ucast n) \<longrightarrow> covered s (ucast a) (ucast n))"

lemma Input_controller_limited:
  assumes f: "has_bytes 4 f" and c: "request_covered covered T s (req_address P f) (req_word P f)"
  shows "Input_ValidateFrame P (limited_ops covered T) s f = Input_ValidateFrame P T s f"
    and "Input_ReadFrame P (limited_ops covered T) s f r = Input_ReadFrame P T s f r"
proof -
  have v: "Input_ReadLocationValid (limited_ops covered T) s (ucast (req_address P f)) (ucast (req_word P f)) \<longleftrightarrow>
      Input_ReadLocationValid T s (ucast (req_address P f)) (ucast (req_word P f))"
    using c by (auto simp: Input_ReadLocationValid_def request_covered_def)
  show "Input_ValidateFrame P (limited_ops covered T) s f = Input_ValidateFrame P T s f"
    using f by (simp add: Input_ValidateFrame_def Input_ValidateReadRegisters_def v)
  show "Input_ReadFrame P (limited_ops covered T) s f r = Input_ReadFrame P T s f r"
    using f by (simp add: Input_ReadFrame_def RunReadInputRegisters_def Input_ReadRegisters_def v Let_def)
qed

lemma ProcessMessage_limited:
  assumes "has_bytes 4 (GetFrameIn sl)"
    and "request_covered covered TI (input_store sl) (req_address P (GetFrameIn sl)) (req_word P (GetFrameIn sl))"
  shows "ProcessMessage P TH (limited_ops covered TI) filter_address sl = ProcessMessage P TH TI filter_address sl"
  unfolding ProcessMessage_def ValidateMessage_def RunCommand_def Input_controller_limited [OF assms] Let_def ..

lemma exchange_limited:
  assumes P: "platform_ok P" and l: "listening sl" and c: "request_covered covered TI (input_store sl) a n"
  shows "exchange P TH (limited_ops covered TI) sl (request_adu P g addr kReadInputRegisters (reg_bytes P [a, n])) =
    exchange P TH TI sl (request_adu P g addr kReadInputRegisters (reg_bytes P [a, n]))"
proof -
  let ?body = "reg_bytes P [a, n] @ reg_bytes P [g (addr # Function_code kReadInputRegisters # reg_bytes P [a, n])]"
  let ?d = "delivered addr kReadInputRegisters ?body sl"
  have feed: "Slave_ProcessCharacters P sl (request_adu P g addr kReadInputRegisters (reg_bytes P [a, n])) = Inr ?d"
    by (rule feed_request_adu [OF l]) simp
  have f: "has_bytes 4 (GetFrameIn ?d)"
    using delivered_bytes(1,2) [OF l, of ?body addr kReadInputRegisters] by (simp add: has_bytes_def)
  have "request_covered covered TI (input_store ?d) (req_address P (GetFrameIn ?d)) (req_word P (GetFrameIn ?d))"
    using c request_fields(1,2) [OF P l _ refl, of "[]"] by simp
  from ProcessMessage_limited [OF f this] show ?thesis unfolding exchange_def feed by simp
qed

section \<open>Reading the fields of the struct\<close>

context memory_map
begin

text \<open>
  A request that the store refuses gets exception 2; a span of whole fields that starts with a
  tolerant field gets the bytes of this field, and zeros for the rest.
\<close>

lemma mapped_read_answer:
  assumes H: "writable_register_store TH hinv hfetch hupdate" and P: "platform_ok P"
    and wf: "ready hinv (\<lambda>s. inv (the_controller s)) g sl" and n: "1 \<le> unat n" "unat n \<le> 125"
    and covered: "Mapped_ReadLocationValid T (ucast a) (ucast n) \<Longrightarrow> i < entries \<and> unat a = start i \<and> tolerant i"
  shows "outcome (exchange P (TH P) (Mapped_ops P T) sl
      (request_adu P g (slave_address sl) kReadInputRegisters (reg_bytes P [a, n]))) =
    Inr (if Mapped_ReadLocationValid T (ucast a) (ucast n)
         then (Some (with_crc P g ([slave_address sl, 4, word_of_nat (2 * unat n)] @
                 padded (2 * unat n) (field (the_controller (input_store sl)) i))),
               holding_store sl, input_store sl)
         else (Some (with_crc P g [slave_address sl, 0x84, 2]), holding_store sl, input_store sl))"
proof -
  let ?c = "starts_tolerant T tolerant"
  have valid: "op_ReadLocationValid (limited_ops ?c (Mapped_ops P T)) (input_store sl) (ucast a) (ucast n) \<longleftrightarrow>
      Mapped_ReadLocationValid T (ucast a) (ucast n)"
    using covered starts_tolerant_at by (auto simp: Mapped_ops_def)
  have "request_covered ?c (Mapped_ops P T) (input_store sl) a n"
    using valid by (auto simp: request_covered_def Mapped_ops_def)
  note same = exchange_limited [OF P readyD(3) [OF wf] this]
  have "Mapped_ReadLocationValid T (ucast a) (ucast n) \<Longrightarrow>
      mapped_fetch T field P (input_store sl) (unat a) (unat n) = field (the_controller (input_store sl)) i"
    using covered by simp
  with slave_stores.answer_read_input [OF slave_stores.intro [OF H mapped_store_readable] P wf n, of a]
  show ?thesis unfolding same valid by auto
qed

end

end
