(* ===== verification/MappedDevice.thy ===== *)
theory MappedDevice
  imports RegisterMap MappedSlave UartDriver Device
begin

text \<open>
  \<open>MappedRegisterDataStore<Wrapper>\<close> on the generated register map of the theory \<open>RegisterMap\<close>: which
  requests it takes, what it stores and gives back, and what a slave with such input registers
  answers, alone and in its driver on a serial port.
\<close>

section \<open>Which requests are accepted\<close>

lemma wrapper_valid_iff:
  "Mapped_ReadLocationValid (Wrapper_controller L) (ucast (a :: u16)) (ucast (n :: u16)) \<longleftrightarrow>
   (\<exists>i<18. \<exists>j<18. unat a = wreg_start i \<and> unat a + unat n = wreg_start (Suc j))"
proof -
  have "Mapped_ReadLocationValid (Wrapper_controller L) (ucast a) (ucast n) \<longleftrightarrow>
      (\<exists>i<18. \<exists>j<18. unat a = wreg_start i \<and> unat a + unat n = wreg_start j + wreg_regs j)"
    using wrapper_map.location_valid_iff [of a n]
    by (simp add: Mapped_ReadLocationValid_def Mapped_WriteLocationValid_def Wrapper_controller_def)
  then show ?thesis by (simp add: wreg_start_Suc cong: conj_cong)
qed

text \<open>
  C32: the mapped store over the generated register map accepts an address and a count exactly when
  they are whole fields of the struct: the span starts at one member and ends where that or a later
  member ends, with the members laid out one behind the other from register 2 on. A span of no
  registers is accepted too, at the start of every member but the first.
\<close>

theorem wrapper_location_valid:
  "Mapped_WriteLocationValid (Wrapper_controller L) (ucast (a :: u16)) (ucast (n :: u16)) \<longleftrightarrow>
   (\<exists>i<18. \<exists>j\<le>18. i \<le> j \<and> 1 \<le> j \<and> unat a = wreg_start i \<and> unat a + unat n = wreg_start j)"
proof -
  have valid: "Mapped_WriteLocationValid (Wrapper_controller L) (ucast a) (ucast n) \<longleftrightarrow>
      (\<exists>i<18. \<exists>j<18. unat a = wreg_start i \<and> unat a + unat n = wreg_start (Suc j))"
    using wrapper_valid_iff [of L a n] by (simp add: Mapped_ReadLocationValid_def)
  show ?thesis unfolding valid
  proof (intro iffI; elim exE conjE)
    fix i j
    assume i: "i < 18" "unat a = wreg_start i" and j: "j < 18" "unat a + unat n = wreg_start (Suc j)"
    then have "i \<le> Suc j" using wreg_start_less [of "Suc j" i] by linarith
    then show "\<exists>i<18. \<exists>j\<le>18. i \<le> j \<and> 1 \<le> j \<and> unat a = wreg_start i \<and> unat a + unat n = wreg_start j"
      using i j by (intro exI [of _ i] conjI exI [of _ "Suc j"]) simp_all
  next
    fix i j
    assume "i < 18" "unat a = wreg_start i" "j \<le> 18" "1 \<le> j" "unat a + unat n = wreg_start j"
    then show "\<exists>i<18. \<exists>j<18. unat a = wreg_start i \<and> unat a + unat n = wreg_start (Suc j)"
      by (intro exI [of _ i] conjI exI [of _ "j - 1"]) simp_all
  qed
qed

text \<open>A span that starts with field \<open>i\<close> and ends before field \<open>j\<close>.\<close>

lemma wrapper_span_valid:
  assumes "i < j" "j \<le> 18" "unat (a :: u16) = wreg_start i" "unat a + unat (n :: u16) = wreg_start j"
  shows "Mapped_ReadLocationValid (Wrapper_controller L) (ucast a) (ucast n)"
    and "Mapped_WriteLocationValid (Wrapper_controller L) (ucast a) (ucast n)"
    and "i < 18" and "wreg_regs i \<le> unat n"
proof -
  show i: "i < 18" using assms by simp
  have "\<exists>i<18. \<exists>k<18. unat a = wreg_start i \<and> unat a + unat n = wreg_start (Suc k)"
    using assms i by (intro exI [of _ i] conjI exI [of _ "j - 1"]) simp_all
  then show "Mapped_ReadLocationValid (Wrapper_controller L) (ucast a) (ucast n)"
    "Mapped_WriteLocationValid (Wrapper_controller L) (ucast a) (ucast n)"
    using wrapper_valid_iff [of L a n] by (simp_all add: Mapped_ReadLocationValid_def)
  show "wreg_regs i \<le> unat n"
    using wreg_start_le [of "Suc i" j] wreg_start_Suc [OF i] assms by linarith
qed

section \<open>Writing and reading through the store\<close>

text \<open>
  C16: \<open>SetRegisters\<close> and \<open>GetRegisters\<close> of the mapped store over the generated register map. A span of
  whole fields that is written is accepted, marks the data as new, and changes the first of these
  fields to the first bytes of the data and no other field, also when the span covers more; reading
  the span gives the bytes of its first field and leaves the rest of the view as it was. For the two
  byte arrays the span is the one field, as the conversions are only known for data of their size.
\<close>

theorem mapped_span_roundtrip:
  assumes L: "map_conversions_ok F L" and m: "wreg_wf (the_controller s)"
    and span: "i < j" "j \<le> 18" "unat a = wreg_start i" "unat a + unat n = wreg_start j"
    and arrays: "2 \<le> i \<or> j = Suc i"
    and v: "view_wf v" "view_size v = 2 * unat n" and w: "view_wf w" "view_size w = 2 * unat n"
  defines "bs \<equiv> take (2 * wreg_regs i) (view_data v)"
  shows "\<exists>s'. Mapped_SetRegisters P (Wrapper_controller L) s (ucast (a :: u16)) (ucast (n :: u16)) v = Inr s' \<and>
    IsNewData s' \<and> wreg_wf (the_controller s') \<and>
    wreg_fields F (the_controller s') = (wreg_fields F (the_controller s))[i := bs] \<and>
    Mapped_GetRegisters P (Wrapper_controller L) s' (ucast a) (ucast n) w =
      Inr (w\<lparr>view_data := overwrite 0 bs (view_data w)\<rparr>)"
proof -
  note valid = wrapper_span_valid [OF span] and map = wrapper_memory_map [OF L]
  have "2 \<le> i \<or> unat n = wreg_regs i" using arrays span wreg_start_Suc [OF valid(3)] by auto
  then have fits: "memory_map.fits wreg_regs ((\<le>) 2) i u" if "view_wf u" "view_size u = 2 * unat n" for u
    using that valid(4) by (intro memory_map.fitsI [OF map]) auto
  from memory_map.write_then_read_span [OF map m valid(2,3) span(3) fits [OF v] fits [OF w], of P]
  obtain s' where s': "Mapped_SetRegisters P (Wrapper_controller L) s (ucast a) (ucast n) v = Inr s'"
    "IsNewData s'" "wreg_wf (the_controller s')"
    "Mapped_GetRegisters P (Wrapper_controller L) s' (ucast a) (ucast n) w =
      Inr (w\<lparr>view_data := overwrite 0 bs (view_data w)\<rparr>)"
    "\<forall>k<18. wreg_fields F (the_controller s') ! k = (if k = i then bs else wreg_fields F (the_controller s) ! k)"
    unfolding bs_def by blast
  from s'(5) have "wreg_fields F (the_controller s') = (wreg_fields F (the_controller s))[i := bs]"
    by (intro nth_equalityI) (simp_all add: nth_list_update)
  with s'(1-4) show ?thesis by blast
qed

theorem mapped_span_roundtrip_witness:
  "\<exists>s'. Mapped_SetRegisters (msb_platform True) (Wrapper_controller msb_map_conversions)
      (MappedRegisterDataStore_init holding_register_init) 14 4 (view_of [0, 0, 4, 2, 9, 9, 9, 9]) = Inr s' \<and>
    wreg_fields msb_format (the_controller s') =
      (wreg_fields msb_format holding_register_init)[2 := [0, 0, 4, 2]] \<and>
    Mapped_GetRegisters (msb_platform True) (Wrapper_controller msb_map_conversions) s' 14 4 (view_of [1, 1, 1, 1, 1, 1, 1, 1]) =
      Inr (view_of [0, 0, 4, 2, 1, 1, 1, 1])"
proof -
  let ?s = "MappedRegisterDataStore_init holding_register_init"
  have s: "the_controller ?s = holding_register_init" by (simp add: MappedRegisterDataStore_init_def)
  have m: "wreg_wf (the_controller ?s)" unfolding s by (rule wreg_init_wf)
  have span: "(2 :: nat) < 4" "(4 :: nat) \<le> 18" "unat (14 :: u16) = wreg_start 2"
    "unat (14 :: u16) + unat (4 :: u16) = wreg_start 4" by (simp_all add: wreg_start_nth)
  have arrays: "(2 :: nat) \<le> 2 \<or> (4 :: nat) = Suc 2" by simp
  have v: "view_wf (view_of [0, 0, 4, 2, 9, 9, 9, 9])" "view_size (view_of [0, 0, 4, 2, 9, 9, 9, 9]) = 2 * unat (4 :: u16)"
    and w: "view_wf (view_of [1, 1, 1, 1, 1, 1, 1, 1])" "view_size (view_of [1, 1, 1, 1, 1, 1, 1, 1]) = 2 * unat (4 :: u16)"
    by (simp_all add: view_of_def view_wf_def)
  have moved: "take (2 * wreg_regs 2) (view_data (view_of [0, 0, 4, 2, 9, 9, 9, 9])) = [0, 0, 4, 2 :: u8]"
    "(view_of [1, 1, 1, 1, 1, 1, 1, 1 :: u8])\<lparr>view_data := overwrite 0 [0, 0, 4, 2]
      (view_data (view_of [1, 1, 1, 1, 1, 1, 1, 1]))\<rparr> = view_of [0, 0, 4, 2, 1, 1, 1, 1]"
    by (simp_all add: wreg_regs_nth view_of_def overwrite_def)
  have "ucast (14 :: u16) = (14 :: size_t)" "ucast (4 :: u16) = (4 :: size_t)" by simp_all
  with mapped_span_roundtrip [OF msb_map_conversions_ok m span arrays v w, of "msb_platform True"]
  show ?thesis unfolding s moved by (simp only:) blast
qed

section \<open>A slave with mapped input registers\<close>

text \<open>
  \<open>ProtocolRtuSlave\<close> with \<open>UpdatingRegisterDataStore\<close> behind its holding registers and the generated
  register map behind its input registers.
\<close>

type_synonym mapped_device =
  "(UpdatingRegisterDataStore, holding_register MappedRegisterDataStore) ProtocolRtuSlave"

definition mapped_exchange :: "platform \<Rightarrow> map_conversions \<Rightarrow> mapped_device \<Rightarrow> u8 list \<Rightarrow> mapped_device result" where
  "mapped_exchange P L = exchange P (UpdatingRegisterDataStore_ops P) (Mapped_ops P (Wrapper_controller L))"

definition mapped_wf :: "(u8 list \<Rightarrow> u16) \<Rightarrow> mapped_device \<Rightarrow> bool" where
  "mapped_wf = ready updating_wf (\<lambda>s. wreg_wf (the_controller s))"

lemma mapped_outcome:
  assumes P: "platform_ok P" and L: "map_conversions_ok F L" and wf: "mapped_wf g sl"
    and n: "1 \<le> unat n" "unat n \<le> 125"
    and covered: "Mapped_ReadLocationValid (Wrapper_controller L) (ucast a) (ucast n) \<Longrightarrow>
      i < 18 \<and> unat a = wreg_start i \<and> 2 \<le> i"
  shows "outcome (mapped_exchange P L sl
      (request_adu P g (slave_address sl) kReadInputRegisters (reg_bytes P [a, n]))) =
    Inr (if Mapped_ReadLocationValid (Wrapper_controller L) (ucast a) (ucast n)
         then (Some (with_crc P g ([slave_address sl, 4, word_of_nat (2 * unat n)] @
                 padded (2 * unat n) (wreg_fields F (the_controller (input_store sl)) ! i))),
               holding_store sl, input_store sl)
         else (Some (with_crc P g [slave_address sl, 0x84, 2]), holding_store sl, input_store sl))"
  unfolding mapped_exchange_def
  by (rule memory_map.mapped_read_answer [OF wrapper_memory_map [OF L]
      updating_store.writable_register_store_axioms P wf [unfolded mapped_wf_def] n covered])

lemma mapped_field_length:
  assumes "map_conversions_ok F L" and "mapped_wf g sl" and "i < 18"
  shows "length (wreg_fields F (the_controller (input_store sl)) ! i) = 2 * wreg_regs i"
  using length_wreg_field [OF map_conversions_format [OF assms(1)] _ assms(3)]
    readyD(2) [OF assms(2) [unfolded mapped_wf_def]] by (simp add: slave_wf_def)

text \<open>
  C15: Read Input Registers, for 1 to 125 registers, on a slave whose input registers are the
  generated register map. A request for whole fields that starts with a number gets the bytes of
  this number and zeros for the other registers it asks for. A request that is not for whole
  fields gets exception 2. Neither changes a register. (A request that starts with one of the two
  byte arrays is not covered: the slave hands the library a buffer longer than the array.)
\<close>

theorem mapped_input_read_answer:
  assumes P: "platform_ok P" and L: "map_conversions_ok F L" and wf: "mapped_wf g sl"
    and n: "1 \<le> unat n" "unat n \<le> 125"
  shows "(\<forall>i j. 2 \<le> i \<and> i < j \<and> j \<le> 18 \<and> unat a = wreg_start i \<and> unat a + unat n = wreg_start j \<longrightarrow>
      outcome (mapped_exchange P L sl (request_adu P g (slave_address sl) kReadInputRegisters (reg_bytes P [a, n]))) =
      Inr (Some (with_crc P g ([slave_address sl, 4, word_of_nat (2 * unat n)] @
             wreg_fields F (the_controller (input_store sl)) ! i @ replicate (2 * unat n - 2 * wreg_regs i) 0)),
           holding_store sl, input_store sl)) \<and>
    ((\<nexists>i j. i < j \<and> j \<le> 18 \<and> unat a = wreg_start i \<and> unat a + unat n = wreg_start j) \<longrightarrow>
      outcome (mapped_exchange P L sl (request_adu P g (slave_address sl) kReadInputRegisters (reg_bytes P [a, n]))) =
      Inr (Some (with_crc P g [slave_address sl, 0x84, 2]), holding_store sl, input_store sl))"
proof (intro conjI allI impI; (elim conjE)?)
  fix i j
  assume i: "2 \<le> i" and span: "i < j" "j \<le> 18" "unat a = wreg_start i" "unat a + unat n = wreg_start j"
  note valid = wrapper_span_valid [OF span]
  have "i < 18 \<and> unat a = wreg_start i \<and> 2 \<le> i" using valid(3) span(3) i by simp
  from mapped_outcome [OF P L wf n this] valid(1)
  show "outcome (mapped_exchange P L sl (request_adu P g (slave_address sl) kReadInputRegisters (reg_bytes P [a, n]))) =
      Inr (Some (with_crc P g ([slave_address sl, 4, word_of_nat (2 * unat n)] @
             wreg_fields F (the_controller (input_store sl)) ! i @ replicate (2 * unat n - 2 * wreg_regs i) 0)),
           holding_store sl, input_store sl)"
    by (simp add: padded_def mapped_field_length [OF L wf valid(3)])
next
  assume none: "\<nexists>i j. i < j \<and> j \<le> 18 \<and> unat a = wreg_start i \<and> unat a + unat n = wreg_start j"
  have invalid: "\<not> Mapped_ReadLocationValid (Wrapper_controller L) (ucast a) (ucast n)"
  proof
    assume "Mapped_ReadLocationValid (Wrapper_controller L) (ucast a) (ucast n)"
    then obtain i j where ij: "i < 18" "j < 18" "unat a = wreg_start i" "unat a + unat n = wreg_start (Suc j)"
      by (auto simp: wrapper_valid_iff)
    then have "i < Suc j" using wreg_start_le [of "Suc j" i] n(1) by linarith
    then show False using none ij by (metis Suc_leI)
  qed
  then show "outcome (mapped_exchange P L sl (request_adu P g (slave_address sl) kReadInputRegisters (reg_bytes P [a, n]))) =
      Inr (Some (with_crc P g [slave_address sl, 0x84, 2]), holding_store sl, input_store sl)"
    using mapped_outcome [OF P L wf n, of a 0] by simp
qed

text \<open>A slave to evaluate the theorems on.\<close>

definition demo_map :: holding_register where
  "demo_map = holding_register_init\<lparr>wreg_int16 := 1026, wreg_int645 := 1000026\<rparr>"

definition demo_mapped :: mapped_device where
  "demo_mapped = ProtocolRtuSlave_init (crc16 (msb_platform True) demo_crc) 7 demo_holding
     (MappedRegisterDataStore_init demo_map)"

lemma msb_bytes_4: "msb_bytes 4 v = [word_of_nat (v div 16777216), word_of_nat (v div 65536), word_of_nat (v div 256), word_of_nat v]"
proof -
  have four: "(4 :: nat) = Suc (Suc (Suc (Suc 0)))" by simp
  show ?thesis unfolding four by (simp add: div_mult2_eq [symmetric])
qed

lemma demo_mapped_simps:
  "slave_address demo_mapped = 7" "holding_store demo_mapped = demo_holding"
  "input_store demo_mapped = MappedRegisterDataStore_init demo_map"
  "the_controller (MappedRegisterDataStore_init m) = m"
  "wreg_fields msb_format demo_map ! 2 = [0, 0, 4, 2]"
  by (simp_all add: demo_mapped_def ProtocolRtuSlave_init_def MappedRegisterDataStore_init_def demo_map_def
      wreg_fields_def msb_format_def msb_bytes_4)

lemma demo_mapped_wf: "mapped_wf demo_crc demo_mapped"
  unfolding mapped_wf_def demo_mapped_def
  by (rule ProtocolRtuSlave_init_ready)
    (simp_all add: demo_holding_def updating_wf_def store_wf_def demo_map_def holding_register_init_def wreg_wf_def
      MappedRegisterDataStore_init_def)

theorem mapped_input_read_answer_witness:
  "outcome (mapped_exchange (msb_platform True) msb_map_conversions demo_mapped
      (request_adu (msb_platform True) demo_crc 7 kReadInputRegisters (reg_bytes (msb_platform True) [14, 4]))) =
    Inr (Some (with_crc (msb_platform True) demo_crc [7, 4, 8, 0, 0, 4, 2, 0, 0, 0, 0]),
      demo_holding, MappedRegisterDataStore_init demo_map)"
proof -
  have n: "1 \<le> unat (4 :: u16)" "unat (4 :: u16) \<le> 125" by simp_all
  have span: "2 \<le> (2 :: nat) \<and> (2 :: nat) < 4 \<and> (4 :: nat) \<le> 18 \<and> unat (14 :: u16) = wreg_start 2 \<and>
      unat (14 :: u16) + unat (4 :: u16) = wreg_start 4" by (simp add: wreg_start_nth)
  have four': "2 * unat (4 :: u16) - 2 * wreg_regs 2 = Suc (Suc (Suc (Suc 0)))" by (simp add: wreg_regs_nth)
  have tail: "replicate (2 * unat (4 :: u16) - 2 * wreg_regs 2) 0 = [0, 0, 0, 0 :: u8]"
    "[word_of_nat (2 * unat (4 :: u16))] = [8 :: u8]"
    by (simp_all only: four' replicate.simps) simp
  from mapped_input_read_answer [OF msb_platform_ok msb_map_conversions_ok demo_mapped_wf n,
      THEN conjunct1, rule_format, OF span]
  show ?thesis by (simp only: tail demo_mapped_simps append_Cons append_Nil list.inject)
qed

section \<open>The slave in its driver\<close>

text \<open>
  C12: a master that asks the running driver, over its serial port, for one number of the generated
  register map, one byte per turn and whenever, finds the bytes of that number in the reply on the
  port two turns after its last byte: every turn returns, and the registers stay what they were.
\<close>

theorem uart_driver_serves_field:
  assumes P: "platform_ok P" and L: "map_conversions_ok F L" and dev: "uart_line R W contents arriving line deliver"
    and wf: "mapped_wf g (uart_slave s)"
    and idle: "contents (rx_ring (iodev s)) = []" "contents (tx_ring (iodev s)) = []"
      "arriving (connection (iodev s)) = []"
    and i: "2 \<le> i" "i < 18" "unat a = wreg_start i" "unat n = wreg_regs i"
    and bytes: "map fst bts =
      request_adu P g (slave_address (uart_slave s)) kReadInputRegisters (reg_bytes P [a, n])"
  shows "\<exists>s'. Uart_Runs P (UpdatingRegisterDataStore_ops P) (Mapped_ops P (Wrapper_controller L)) R W deliver
      (map (\<lambda>(b, t). ([b], t)) bts @ [([], t1), ([], t2)]) s = Some (Inr s') \<and>
    line (connection (iodev s')) = line (connection (iodev s)) @
      with_crc P g ([slave_address (uart_slave s), 4, word_of_nat (2 * wreg_regs i)] @
        wreg_fields F (the_controller (input_store (uart_slave s))) ! i) \<and>
    holding_store (uart_slave s') = holding_store (uart_slave s) \<and>
    input_store (uart_slave s') = input_store (uart_slave s)"
proof -
  let ?m = "the_controller (input_store (uart_slave s))"
  have l: "listening (uart_slave s)" using readyD(3) [OF wf [unfolded mapped_wf_def]] .
  have regs: "1 \<le> unat n" "unat n \<le> 125"
    using wreg_cases [OF i(2)] by (auto simp: i(4) wreg_regs_nth)
  note len = mapped_field_length [OF L wf i(2)]
  have valid: "Mapped_ReadLocationValid (Wrapper_controller L) (ucast a) (ucast n)"
    using wrapper_span_valid(1) [of i "Suc i" a n L] i wreg_start_Suc [OF i(2)] by simp
  have "i < 18 \<and> unat a = wreg_start i \<and> 2 \<le> i" using i by simp
  from mapped_outcome [OF P L wf regs this] have out: "outcome (exchange P (UpdatingRegisterDataStore_ops P)
      (Mapped_ops P (Wrapper_controller L)) (uart_slave s)
      (request_adu P g (slave_address (uart_slave s)) kReadInputRegisters (reg_bytes P [a, n]))) =
    Inr (Some (with_crc P g ([slave_address (uart_slave s), 4, word_of_nat (2 * wreg_regs i)] @ wreg_fields F ?m ! i)),
      holding_store (uart_slave s), input_store (uart_slave s))"
    using valid len by (simp add: mapped_exchange_def padded_def i(4))
  have small: "length (reply_bytes (Some (with_crc P g ([slave_address (uart_slave s), 4, word_of_nat (2 * wreg_regs i)] @
      wreg_fields F ?m ! i)))) \<le> 1024"
    using len regs by (simp add: i(4))
  have good: "good_request kReadInputRegisters (reg_bytes P [a, n])" by simp
  from uart_line.Uart_answer [OF dev idle l good bytes out small, of "[t1, t2]"] show ?thesis by simp blast
qed

theorem uart_driver_serves_field_witness:
  "\<exists>bts s'. Uart_Runs (msb_platform True) (UpdatingRegisterDataStore_ops (msb_platform True))
        (Mapped_ops (msb_platform True) (Wrapper_controller msb_map_conversions)) queue_ring line_port line_deliver
      (map (\<lambda>(b, t). ([b], t)) bts @ [([], \<lparr>tv_sec = 1, tv_usec = 0\<rparr>), ([], \<lparr>tv_sec = 2, tv_usec = 0\<rparr>)])
      (UartSlave_init (crc16 (msb_platform True) demo_crc) 7 demo_holding (MappedRegisterDataStore_init demo_map)
         \<lparr>tv_sec = 0, tv_usec = 0\<rparr> \<lparr>connection = ([], []), rx_ring = [], tx_ring = []\<rparr>) = Some (Inr s') \<and>
    snd (connection (iodev s')) = with_crc (msb_platform True) demo_crc [7, 4, 4, 0, 0, 4, 2]"
proof -
  let ?P = "msb_platform True" and ?t = "\<lparr>tv_sec = 0, tv_usec = 5\<rparr>"
  define s where "s = UartSlave_init (crc16 ?P demo_crc) 7 demo_holding (MappedRegisterDataStore_init demo_map)
    \<lparr>tv_sec = 0, tv_usec = 0\<rparr>
    \<lparr>connection = ([], []) :: u8 list \<times> u8 list, rx_ring = [] :: u8 list, tx_ring = []\<rparr>"
  have "uart_slave s = demo_mapped"
    by (simp add: s_def UartSlave_init_def demo_mapped_def SetAddress_def ProtocolRtuSlave_init_def)
  note sl = this and idle = demo_mapped_wf [folded this]
  have s: "rx_ring (iodev s) = []" "tx_ring (iodev s) = []" "fst (connection (iodev s)) = []"
    "snd (connection (iodev s)) = []"
    by (simp_all add: s_def UartSlave_init_def)
  have i: "2 \<le> (2 :: nat)" "(2 :: nat) < 18" "unat (14 :: u16) = wreg_start 2" "unat (2 :: u16) = wreg_regs 2"
    by (simp_all add: wreg_start_nth wreg_regs_nth)
  have two: "[word_of_nat (2 * wreg_regs 2)] = [4 :: u8]" by (simp add: wreg_regs_nth)
  let ?adu = "request_adu ?P demo_crc (slave_address (uart_slave s)) kReadInputRegisters (reg_bytes ?P [14, 2])"
  have "map fst (map (\<lambda>b. (b, ?t)) ?adu) = ?adu" by (simp add: comp_def)
  from uart_driver_serves_field [OF msb_platform_ok msb_map_conversions_ok serial_line.uart_line_axioms idle s(1-3) i this,
      of "\<lparr>tv_sec = 1, tv_usec = 0\<rparr>" "\<lparr>tv_sec = 2, tv_usec = 0\<rparr>"]
  show ?thesis
    unfolding s_def [symmetric] s(4) sl demo_mapped_simps
    by (auto simp only: two append_Nil append_Cons list.inject)
qed

end
