(* ===== verification/SerialSnooper.thy ===== *)
theory SerialSnooper
  imports LinuxSlave
begin

text \<open>
  The driver of \<open>examples/SerialSnooper/source\<close>: \<open>LinuxSlave.h\<close>, which listens to a line and
  prints the packets it sees without answering them. It has the members of the polling driver,
  and so its record, but another loop: a packet ends when the line has been silent for one frame
  delay. The loop reads the clock up to twice in a turn, so a step takes two times.
\<close>

section \<open>The driver\<close>

definition Snooper_RunIO :: "u8 list \<Rightarrow> ('h, 'i) LinuxSlave \<Rightarrow> ('h, 'i) LinuxSlave" where
  "Snooper_RunIO arrived s = ReadIntoRxBuff arrived (SendTxBuff s)"

definition Snooper_Reset :: "('h, 'i) LinuxSlave \<Rightarrow> ('h, 'i) LinuxSlave" where
  "Snooper_Reset s = s\<lparr>slave := Slave_Reset (slave s)\<rparr>"

definition Snooper_ProcessPacket ::
  "platform \<Rightarrow> ('h, 'x) writable_store_scheme \<Rightarrow> ('i, 'y) readable_store_scheme \<Rightarrow>
   ('h, 'i) LinuxSlave \<Rightarrow> ('h, 'i) LinuxSlave result" where
  "Snooper_ProcessPacket P TH TI s =
     rbind (ProcessMessage P TH TI True (slave s)) (\<lambda>sl.
     Inr (Snooper_Reset (s\<lparr>slave := sl\<rparr>)))"

definition PacketIsReady :: "('h, 'i) LinuxSlave \<Rightarrow> timeval \<Rightarrow> bool" where
  "PacketIsReady s timestamp \<longleftrightarrow>
     GetMicroSecondsSince (last_character_time s) timestamp \<ge> kFrameDelay_us"

definition CheckForCompletedPacket ::
  "platform \<Rightarrow> ('h, 'x) writable_store_scheme \<Rightarrow> ('i, 'y) readable_store_scheme \<Rightarrow>
   timeval \<Rightarrow> ('h, 'i) LinuxSlave \<Rightarrow> ('h, 'i) LinuxSlave result" where
  "CheckForCompletedPacket P TH TI timestamp s =
     (if PacketIsReady s timestamp
      then let sl = slave s in
        rbind (if ctx_state (slave_ctx (base sl)) = kData
               then rbind (FrameCrcIsValid P (slave_crc (base sl)) (GetFrameIn sl)) (\<lambda>valid.
                    if valid
                    then rbind (PrintPacketData P (GetFrameIn sl)) (\<lambda>text.
                         Snooper_ProcessPacket P TH TI (s\<lparr>printed := printed s @ text\<rparr>))
                    else Inr s)
               else Inr s)
          (\<lambda>s. Inr (Snooper_Reset s))
      else Inr s)"

text \<open>\<open>now\<close> is the time of the check for a completed packet, \<open>later\<close> that of the next character.\<close>

definition Snooper_Run ::
  "platform \<Rightarrow> ('h, 'x) writable_store_scheme \<Rightarrow> ('i, 'y) readable_store_scheme \<Rightarrow>
   u8 list \<Rightarrow> timeval \<Rightarrow> timeval \<Rightarrow> ('h, 'i) LinuxSlave \<Rightarrow> ('h, 'i) LinuxSlave result" where
  "Snooper_Run P TH TI arrived now later s =
     rbind (CheckForCompletedPacket P TH TI now (Snooper_RunIO arrived s)) (\<lambda>s.
     case rxbuff s of
       data # rest \<Rightarrow>
         rbind (Slave_ProcessCharacter P (slave s) data) (\<lambda>sl.
         Inr (s\<lparr>last_character_time := later, rxbuff := rest, slave := sl\<rparr>))
     | [] \<Rightarrow> Inr s)"

fun Snooper_Runs ::
  "platform \<Rightarrow> ('h, 'x) writable_store_scheme \<Rightarrow> ('i, 'y) readable_store_scheme \<Rightarrow>
   (u8 list \<times> timeval \<times> timeval) list \<Rightarrow> ('h, 'i) LinuxSlave \<Rightarrow> ('h, 'i) LinuxSlave result" where
  "Snooper_Runs P TH TI [] s = Inr s"
| "Snooper_Runs P TH TI ((arrived, now, later) # turns) s =
     rbind (Snooper_Run P TH TI arrived now later s) (\<lambda>s. Snooper_Runs P TH TI turns s)"

section \<open>A request on the line\<close>

text \<open>Every turn comes less than a frame delay after the previous character.\<close>

fun steady :: "timeval \<Rightarrow> (timeval \<times> timeval) list \<Rightarrow> bool" where
  "steady previous [] \<longleftrightarrow> True"
| "steady previous ((now, later) # ts) \<longleftrightarrow> GetMicroSecondsSince previous now < kFrameDelay_us \<and> steady later ts"

lemma Snooper_Run_byte:
  assumes "rxbuff s = []" and "txbuff s = []"
    and "GetMicroSecondsSince (last_character_time s) now < kFrameDelay_us"
  shows "Snooper_Run P TH TI [b] now later s =
    rbind (Slave_ProcessCharacter P (slave s) b) (\<lambda>sl.
    Inr (s\<lparr>last_character_time := later, slave := sl\<rparr>))"
proof -
  have io: "Snooper_RunIO [b] s = s\<lparr>rxbuff := [b]\<rparr>"
    using assms(1,2) by (simp add: Snooper_RunIO_def no_pending ReadIntoRxBuff_def)
  have keep: "s\<lparr>last_character_time := later, rxbuff := [], slave := sl\<rparr> =
      s\<lparr>last_character_time := later, slave := sl\<rparr>" for sl
    using assms(1) by (cases "s") simp
  show ?thesis
    using assms(3) by (simp add: Snooper_Run_def io CheckForCompletedPacket_def PacketIsReady_def keep del: rbind_eq_Inr)
qed

lemma Snooper_feed:
  assumes "rxbuff s = []" and "txbuff s = []"
    and "steady (last_character_time s) (map snd turns)"
    and "Slave_ProcessCharacters P (slave s) (map fst turns) = Inr sl'"
  shows "\<exists>t. Snooper_Runs P TH TI (map (\<lambda>(b, ts). ([b], ts)) turns) s =
    Inr (s\<lparr>slave := sl', last_character_time := t\<rparr>)"
  using assms
proof (induction turns arbitrary: s)
  case Nil
  then show ?case by (intro exI [of _ "last_character_time s"]) simp
next
  case (Cons turn turns)
  obtain b now later where turn: "turn = (b, now, later)" by (cases turn)
  obtain sl where sl: "Slave_ProcessCharacter P (slave s) b = Inr sl"
    "Slave_ProcessCharacters P sl (map fst turns) = Inr sl'"
    using Cons.prems(4) turn by auto
  let ?s = "s\<lparr>last_character_time := later, slave := sl\<rparr>"
  have run: "Snooper_Run P TH TI [b] now later s = Inr ?s"
    using Snooper_Run_byte [OF Cons.prems(1,2), of now P TH TI b later] Cons.prems(3) sl(1) turn by simp
  obtain t where "Snooper_Runs P TH TI (map (\<lambda>(b, ts). ([b], ts)) turns) ?s =
      Inr (?s\<lparr>slave := sl', last_character_time := t\<rparr>)"
    using Cons.IH [of ?s] Cons.prems sl(2) turn by auto
  then show ?case using run turn by (auto simp del: rbind_eq_Inr)
qed

text \<open>In a frame that is complete nothing is looked at: silence only resets the reader.\<close>

lemma Snooper_Run_silent:
  assumes "rxbuff s = []" and "txbuff s = []"
    and "ctx_state (slave_ctx (base (slave s))) \<noteq> kData"
    and "kFrameDelay_us \<le> GetMicroSecondsSince (last_character_time s) now"
  shows "Snooper_Run P TH TI [] now later s = Inr (Snooper_Reset s)"
  using assms
  by (simp add: Snooper_Run_def Snooper_RunIO_def no_pending no_arrival CheckForCompletedPacket_def PacketIsReady_def
      Snooper_Reset_def Let_def)

text \<open>
  C34: what the snooper does with a complete request, whose bytes come one per turn and closer
  together than a frame delay. Silence afterwards discards it: it is neither printed nor
  executed nor answered, because only a frame the reader believes incomplete is looked at; and
  in a build with assertions a byte that follows the request at once stops the program.
\<close>

theorem snooper_after_request:
  assumes idle: "rxbuff s = []" "txbuff s = []" and l: "listening (slave s)"
    and good: "good_request fn data" and bytes: "map fst turns = request_adu P g addr fn data"
    and times: "steady (last_character_time s) (map snd turns)"
  shows "\<exists>s1. Snooper_Runs P TH TI (map (\<lambda>(b, ts). ([b], ts)) turns) s = Inr s1 \<and>
    PacketReceived (slave_ctx (base (slave s1))) \<and>
    (\<forall>now later. 3281 \<le> GetMicroSecondsSince (last_character_time s1) now \<longrightarrow>
      (\<exists>s2. Snooper_Run P TH TI [] now later s1 = Inr s2 \<and> listening (slave s2) \<and>
        holding_store (slave s2) = holding_store (slave s) \<and>
        input_store (slave s2) = input_store (slave s) \<and>
        printed s2 = printed s \<and> sent s2 = sent s \<and> txbuff s2 = [])) \<and>
    (\<forall>now later b. GetMicroSecondsSince (last_character_time s1) now < 3281 \<longrightarrow> \<not> ndebug P \<longrightarrow>
      Snooper_Run P TH TI [b] now later s1 = Inl AssertFailed)"
proof -
  let ?body = "data @ reg_bytes P [g (addr # Function_code fn # data)]"
  let ?d = "delivered addr fn ?body (slave s)"
  have feed: "Slave_ProcessCharacters P (slave s) (map fst turns) = Inr ?d"
    unfolding bytes by (rule feed_request_adu [OF l good])
  obtain t where fed: "Snooper_Runs P TH TI (map (\<lambda>(b, ts). ([b], ts)) turns) s =
      Inr (s\<lparr>slave := ?d, last_character_time := t\<rparr>)"
    using Snooper_feed [OF idle times feed] by blast
  let ?s1 = "s\<lparr>slave := ?d, last_character_time := t\<rparr>"
  have at_end: "slave_ctx (base ?d) = \<lparr>ctx_state = kDone, bytes_to_read = 0\<rparr>"
    by (simp add: delivered_def)
  have stores: "holding_store ?d = holding_store (slave s)" "input_store ?d = input_store (slave s)"
    by (simp_all add: delivered_def)
  have "length ?body \<le> 256"
    using good_request_body(2) [OF good, where P = P and w = "g (addr # Function_code fn # data)"] by linarith
  then have "listening (Slave_Reset ?d)"
    using l by (intro Slave_Reset_listening) (simp_all add: listening_def delivered_def GetFrameIn_def frame_after_def)
  moreover have "Snooper_Run P TH TI [] now later ?s1 = Inr (Snooper_Reset ?s1)"
    if "3281 \<le> GetMicroSecondsSince t now" for now later
    using that idle at_end by (intro Snooper_Run_silent) (simp_all add: kFrameDelay_us_value)
  moreover have "Snooper_Run P TH TI [b] now later ?s1 = Inl AssertFailed"
    if "GetMicroSecondsSince t now < 3281" "\<not> ndebug P" for b now later
    using that idle at_end Snooper_Run_byte [of ?s1 now P TH TI b later]
    by (simp add: kFrameDelay_us_value Slave_ProcessCharacter_def Base_ProcessCharacter_def ProcessCharacter_def
        c_assert_def Let_def)
  ultimately show ?thesis
    using fed idle at_end stores by (auto simp: PacketReceived_def Snooper_Reset_def)
qed

theorem snooper_after_request_witness:
  "\<exists>turns s1. map fst turns = request_adu (msb_platform False) demo_crc 7 kReadMultipleHoldingRegisters
      (reg_bytes (msb_platform False) [1, 2]) \<and>
     Snooper_Runs (msb_platform False) (UpdatingRegisterDataStore_ops (msb_platform False))
      (RegisterDataStore_ops (msb_platform False)) (map (\<lambda>(b, ts). ([b], ts)) turns)
      demo_driver = Inr s1 \<and>
     PacketReceived (slave_ctx (base (slave s1)))"
proof -
  let ?P = "msb_platform False" and ?t = "\<lparr>tv_sec = 0, tv_usec = 5\<rparr>"
  let ?adu = "request_adu ?P demo_crc 7 kReadMultipleHoldingRegisters (reg_bytes ?P [1, 2])"
  let ?turns = "map (\<lambda>b. (b, ?t, ?t)) ?adu" and ?s = "demo_driver"
  have steady: "steady ?t (map snd (map (\<lambda>b. (b, ?t, ?t)) bs))" for bs :: "u8 list"
    by (induction bs) (simp_all add: GetMicroSecondsSince_def kFrameDelay_us_value)
  have "steady \<lparr>tv_sec = 0, tv_usec = 0\<rparr> (map snd (map (\<lambda>b. (b, ?t, ?t)) bs))" for bs :: "u8 list"
    using steady by (cases bs) (simp_all add: GetMicroSecondsSince_def kFrameDelay_us_value)
  then have times: "steady (last_character_time ?s) (map snd ?turns)"
    by (simp add: demo_driver_def LinuxSlave_init_def)
  have bytes: "map fst ?turns = ?adu" by (simp add: comp_def)
  have idle: "rxbuff ?s = []" "txbuff ?s = []"
    by (simp_all add: demo_driver_def LinuxSlave_init_def)
  have l: "listening (slave ?s)"
    using demo_device_wf by (simp add: slave_demo_driver device_wf_def)
  have good: "good_request kReadMultipleHoldingRegisters (reg_bytes ?P [1, 2])" by simp
  show ?thesis
    using snooper_after_request [OF idle l good bytes times] bytes by blast
qed

end
