(* ===== verification/SnooperUart.thy ===== *)
theory SnooperUart
  imports SerialSnooper UartDriver
begin

text \<open>
  The snooper of \<open>examples/SerialSnooper/source/LinuxSlave.h\<close> on its \<open>UartController\<close>, and the proof
  that its turns are those of the theory \<open>SerialSnooper\<close>, where the device is two queues.
\<close>

section \<open>The snooper on the controller\<close>

definition Uart_RunIO ::
  "'q ring_ops \<Rightarrow> 'p port_ops \<Rightarrow> ('h, 'i, 'q, 'p) UartSlave \<Rightarrow> ('h, 'i, 'q, 'p) UartSlave option" where
  "Uart_RunIO R W s =
     Option.bind (Uart_SendTxBuff R W (iodev s)) (\<lambda>(_, dev).
     Option.bind (Uart_ReadIntoRxBuff R W dev) (\<lambda>(_, dev). Some (s\<lparr>iodev := dev\<rparr>)))"

definition Uart_Reset :: "('h, 'i, 'q, 'p) UartSlave \<Rightarrow> ('h, 'i, 'q, 'p) UartSlave" where
  "Uart_Reset s = s\<lparr>uart_slave := Slave_Reset (uart_slave s)\<rparr>"

definition Uart_Snooper_ProcessPacket ::
  "platform \<Rightarrow> ('h, 'x) writable_store_scheme \<Rightarrow> ('i, 'y) readable_store_scheme \<Rightarrow>
   ('h, 'i, 'q, 'p) UartSlave \<Rightarrow> ('h, 'i, 'q, 'p) UartSlave result" where
  "Uart_Snooper_ProcessPacket P TH TI s =
     rbind (ProcessMessage P TH TI True (uart_slave s)) (\<lambda>sl. Inr (Uart_Reset (s\<lparr>uart_slave := sl\<rparr>)))"

definition Uart_CheckForCompletedPacket ::
  "platform \<Rightarrow> ('h, 'x) writable_store_scheme \<Rightarrow> ('i, 'y) readable_store_scheme \<Rightarrow>
   timeval \<Rightarrow> ('h, 'i, 'q, 'p) UartSlave \<Rightarrow> ('h, 'i, 'q, 'p) UartSlave result" where
  "Uart_CheckForCompletedPacket P TH TI timestamp s =
     (if GetMicroSecondsSince (uart_time s) timestamp \<ge> kFrameDelay_us
      then let sl = uart_slave s in
        rbind (if ctx_state (slave_ctx (base sl)) = kData
               then rbind (FrameCrcIsValid P (slave_crc (base sl)) (GetFrameIn sl)) (\<lambda>valid.
                    if valid
                    then rbind (PrintPacketData P (GetFrameIn sl)) (\<lambda>shown.
                         Uart_Snooper_ProcessPacket P TH TI (s\<lparr>uart_printed := uart_printed s @ shown\<rparr>))
                    else Inr s)
               else Inr s)
          (\<lambda>s. Inr (Uart_Reset s))
      else Inr s)"

definition Uart_Snooper_Run ::
  "platform \<Rightarrow> ('h, 'x) writable_store_scheme \<Rightarrow> ('i, 'y) readable_store_scheme \<Rightarrow>
   'q ring_ops \<Rightarrow> 'p port_ops \<Rightarrow> timeval \<Rightarrow> timeval \<Rightarrow> ('h, 'i, 'q, 'p) UartSlave \<Rightarrow>
   ('h, 'i, 'q, 'p) UartSlave result option" where
  "Uart_Snooper_Run P TH TI R W now later s =
     Option.bind (Uart_RunIO R W s) (\<lambda>s.
     Some (rbind (Uart_CheckForCompletedPacket P TH TI now s) (\<lambda>s.
       if \<not> rxEmpty R (iodev s)
       then case Uart_read R (iodev s) of (data, dev) \<Rightarrow>
         rbind (Slave_ProcessCharacter P (uart_slave s) data) (\<lambda>sl.
         Inr (s\<lparr>uart_time := later, iodev := dev, uart_slave := sl\<rparr>))
       else Inr s)))"

section \<open>Its turns\<close>

lemma Uart_CheckForCompletedPacket_view:
  "CheckForCompletedPacket P TH TI now (queue_view contents line s) =
   rbind (Uart_CheckForCompletedPacket P TH TI now s) (\<lambda>s. Inr (queue_view contents line s))"
  by (auto simp: CheckForCompletedPacket_def Uart_CheckForCompletedPacket_def PacketIsReady_def
      Snooper_ProcessPacket_def Uart_Snooper_ProcessPacket_def Snooper_Reset_def Uart_Reset_def queue_view_def
      rbind_def Let_def split: sum.splits)

context uart_device
begin

lemma RunIO_refines:
  assumes "rx_room contents arriving s"
  shows "\<exists>s'. Uart_RunIO R W s = Some s' \<and> arriving (connection (iodev s')) = [] \<and>
    Snooper_RunIO (arriving (connection (iodev s))) (queue_view contents line s) = queue_view contents line s'"
proof -
  obtain n u where u: "Uart_SendTxBuff R W (iodev s) = Some (n, u)" "contents (tx_ring u) = []"
    "rx_ring u = rx_ring (iodev s)" "line (connection u) = line (connection (iodev s)) @ contents (tx_ring (iodev s))"
    "arriving (connection u) = arriving (connection (iodev s))"
    using SendTxBuff_flushes [of "iodev s"] by blast
  obtain m v where "Uart_ReadIntoRxBuff R W u = Some (m, v)"
    "contents (rx_ring v) = contents (rx_ring (iodev s)) @ arriving (connection (iodev s))" "tx_ring v = tx_ring u"
    "line (connection v) = line (connection u)" "arriving (connection v) = []"
    using ReadIntoRxBuff_fills [of u] assms u(3,5) by (auto simp: rx_room_def)
  then show ?thesis
    using u by (simp add: Uart_RunIO_def Snooper_RunIO_def ReadIntoRxBuff_def SendTxBuff_def queue_view_def)
qed

text \<open>Every turn of the snooper returns and is the turn on queues, also one that faults.\<close>

lemma Snooper_Run_refines:
  assumes "rx_room contents arriving s"
  shows "\<exists>r. Uart_Snooper_Run P TH TI R W now later s = Some r \<and>
    Snooper_Run P TH TI (arriving (connection (iodev s))) now later (queue_view contents line s) =
      rbind r (\<lambda>s. Inr (queue_view contents line s))"
proof -
  obtain s0 where s0: "Uart_RunIO R W s = Some s0"
    "Snooper_RunIO (arriving (connection (iodev s))) (queue_view contents line s) = queue_view contents line s0"
    using RunIO_refines [OF assms] by blast
  show ?thesis
  proof (cases "Uart_CheckForCompletedPacket P TH TI now s0")
    case (Inl e)
    then show ?thesis
      by (simp add: Uart_Snooper_Run_def Snooper_Run_def s0 Uart_CheckForCompletedPacket_view del: rbind_eq_Inr)
  next
    case (Inr s1)
    show ?thesis
    proof (cases "contents (rx_ring (iodev s1))")
      case Nil
      then show ?thesis
        using Inr by (simp add: Uart_Snooper_Run_def Snooper_Run_def s0 Uart_CheckForCompletedPacket_view
            rxEmpty_def isEmpty del: rbind_eq_Inr)
    next
      case (Cons b bs)
      obtain q where q: "ring_pop R (rx_ring (iodev s1)) = (Some b, q)" "contents q = bs"
        using pop [OF Cons] by (cases "ring_pop R (rx_ring (iodev s1))") auto
      have "(queue_view contents line s1)\<lparr>last_character_time := later, rxbuff := bs, slave := sl\<rparr> =
          queue_view contents line (s1\<lparr>uart_time := later, iodev := (iodev s1)\<lparr>rx_ring := q\<rparr>, uart_slave := sl\<rparr>)" for sl
        using q(2) by (simp add: queue_view_def)
      then show ?thesis
        using Inr Cons q(1)
        by (cases "Slave_ProcessCharacter P (uart_slave s1) b")
          (simp_all add: Uart_Snooper_Run_def Snooper_Run_def s0 Uart_CheckForCompletedPacket_view
            rxEmpty_def isEmpty Uart_read_def del: rbind_eq_Inr)
    qed
  qed
qed

end

end
