(* ===== verification/HoldingMap.thy ===== *)
theory HoldingMap
  imports Conversions
begin

text \<open>
  The holding registers of the connected device,
  \<open>examples/ConnectedDevice/common/HoldingRegisterMappedDataStore.h\<close>: the struct, its entries and
  \<open>HoldingRegistersWrapper\<close>. The wrapper's pointer to the struct is the struct itself.
\<close>

section \<open>The struct\<close>

record HoldingRegisters =
  hreg_analog_output0 :: "u32"
  hreg_analog_output1 :: "u32"
  hreg_isp_mode :: "u32"
  hreg_slave_address_unlock :: "u32"
  hreg_slave_address :: "u16"
  hreg_clear_faults :: "u32"
  hreg_start_data_read :: "u32"

definition HoldingRegisters_init :: HoldingRegisters where
  "HoldingRegisters_init = \<lparr>hreg_analog_output0 = 0,
     hreg_analog_output1 = 0,
     hreg_isp_mode = 0,
     hreg_slave_address_unlock = 0,
     hreg_slave_address = 0,
     hreg_clear_faults = 0,
     hreg_start_data_read = 0\<rparr>"

datatype HoldingRegistersEntryIdentifier =
    Holding_analog_output0
  | Holding_analog_output1
  | Holding_isp_mode
  | Holding_slave_address_unlock
  | Holding_slave_address
  | Holding_clear_faults
  | Holding_start_data_read
  | Holding_unknown

definition HoldingRegisters_names :: "HoldingRegistersEntryIdentifier list" where
  "HoldingRegisters_names =
     [Holding_analog_output0,
      Holding_analog_output1,
      Holding_isp_mode,
      Holding_slave_address_unlock,
      Holding_slave_address,
      Holding_clear_faults,
      Holding_start_data_read,
      Holding_unknown]"

text \<open>
  \<open>entry_positions_\<close>: identifier, \<open>offsetof\<close> and \<open>sizeof\<close>. The offsets are those of a struct
  whose numbers are aligned to their size.
\<close>

definition HoldingRegisters_entry_positions :: "(HoldingRegistersEntryIdentifier \<times> nat \<times> nat) list" where
  "HoldingRegisters_entry_positions =
     [(Holding_analog_output0, 0, 4),
      (Holding_analog_output1, 4, 4),
      (Holding_isp_mode, 8, 4),
      (Holding_slave_address_unlock, 12, 4),
      (Holding_slave_address, 16, 2),
      (Holding_clear_faults, 20, 4),
      (Holding_start_data_read, 24, 4)]"

definition HoldingRegistersWrapper_size :: nat where
  "HoldingRegistersWrapper_size = 28"

section \<open>SetField and GetField\<close>

definition HoldingRegistersWrapper_SetField ::
  "conversions \<Rightarrow> HoldingRegisters \<Rightarrow> size_t \<Rightarrow> u8 ArrayView \<Rightarrow> HoldingRegisters result" where
  "HoldingRegistersWrapper_SetField L m index data =
     (case enum_of_index HoldingRegisters_names index of
        None \<Rightarrow> Inr m
      | Some identifier \<Rightarrow> (case identifier of
          Holding_unknown \<Rightarrow> Inr m
        | Holding_analog_output0 \<Rightarrow>
            rbind (load_number L 4 data) (\<lambda>v. Inr (m\<lparr>hreg_analog_output0 := word_of_nat v\<rparr>))
        | Holding_analog_output1 \<Rightarrow>
            rbind (load_number L 4 data) (\<lambda>v. Inr (m\<lparr>hreg_analog_output1 := word_of_nat v\<rparr>))
        | Holding_isp_mode \<Rightarrow>
            rbind (load_number L 4 data) (\<lambda>v. Inr (m\<lparr>hreg_isp_mode := word_of_nat v\<rparr>))
        | Holding_slave_address_unlock \<Rightarrow>
            rbind (load_number L 4 data) (\<lambda>v. Inr (m\<lparr>hreg_slave_address_unlock := word_of_nat v\<rparr>))
        | Holding_slave_address \<Rightarrow>
            rbind (load_number L 2 data) (\<lambda>v. Inr (m\<lparr>hreg_slave_address := word_of_nat v\<rparr>))
        | Holding_clear_faults \<Rightarrow>
            rbind (load_number L 4 data) (\<lambda>v. Inr (m\<lparr>hreg_clear_faults := word_of_nat v\<rparr>))
        | Holding_start_data_read \<Rightarrow>
            rbind (load_number L 4 data) (\<lambda>v. Inr (m\<lparr>hreg_start_data_read := word_of_nat v\<rparr>))))"

definition HoldingRegistersWrapper_GetField ::
  "conversions \<Rightarrow> HoldingRegisters \<Rightarrow> size_t \<Rightarrow> u8 ArrayView \<Rightarrow> u8 ArrayView result" where
  "HoldingRegistersWrapper_GetField L m index data =
     (case enum_of_index HoldingRegisters_names index of
        None \<Rightarrow> Inr data
      | Some identifier \<Rightarrow> (case identifier of
          Holding_unknown \<Rightarrow> Inr data
        | Holding_analog_output0 \<Rightarrow> store_number L 4 (unat (hreg_analog_output0 m)) data
        | Holding_analog_output1 \<Rightarrow> store_number L 4 (unat (hreg_analog_output1 m)) data
        | Holding_isp_mode \<Rightarrow> store_number L 4 (unat (hreg_isp_mode m)) data
        | Holding_slave_address_unlock \<Rightarrow> store_number L 4 (unat (hreg_slave_address_unlock m)) data
        | Holding_slave_address \<Rightarrow> store_number L 2 (unat (hreg_slave_address m)) data
        | Holding_clear_faults \<Rightarrow> store_number L 4 (unat (hreg_clear_faults m)) data
        | Holding_start_data_read \<Rightarrow> store_number L 4 (unat (hreg_start_data_read m)) data))"

section \<open>Getters and setters\<close>

named_theorems hreg_accessors

definition hreg_get_analog_output0 :: "HoldingRegisters \<Rightarrow> u32" where [hreg_accessors]: "hreg_get_analog_output0 m = hreg_analog_output0 m"
definition hreg_set_analog_output0 :: "u32 \<Rightarrow> HoldingRegisters \<Rightarrow> HoldingRegisters" where [hreg_accessors]: "hreg_set_analog_output0 value m = m\<lparr>hreg_analog_output0 := value\<rparr>"

definition hreg_get_analog_output1 :: "HoldingRegisters \<Rightarrow> u32" where [hreg_accessors]: "hreg_get_analog_output1 m = hreg_analog_output1 m"
definition hreg_set_analog_output1 :: "u32 \<Rightarrow> HoldingRegisters \<Rightarrow> HoldingRegisters" where [hreg_accessors]: "hreg_set_analog_output1 value m = m\<lparr>hreg_analog_output1 := value\<rparr>"

definition hreg_get_isp_mode :: "HoldingRegisters \<Rightarrow> u32" where [hreg_accessors]: "hreg_get_isp_mode m = hreg_isp_mode m"
definition hreg_set_isp_mode :: "u32 \<Rightarrow> HoldingRegisters \<Rightarrow> HoldingRegisters" where [hreg_accessors]: "hreg_set_isp_mode value m = m\<lparr>hreg_isp_mode := value\<rparr>"

definition hreg_get_slave_address_unlock :: "HoldingRegisters \<Rightarrow> u32" where [hreg_accessors]: "hreg_get_slave_address_unlock m = hreg_slave_address_unlock m"
definition hreg_set_slave_address_unlock :: "u32 \<Rightarrow> HoldingRegisters \<Rightarrow> HoldingRegisters" where [hreg_accessors]: "hreg_set_slave_address_unlock value m = m\<lparr>hreg_slave_address_unlock := value\<rparr>"

definition hreg_get_slave_address :: "HoldingRegisters \<Rightarrow> u16" where [hreg_accessors]: "hreg_get_slave_address m = hreg_slave_address m"
definition hreg_set_slave_address :: "u16 \<Rightarrow> HoldingRegisters \<Rightarrow> HoldingRegisters" where [hreg_accessors]: "hreg_set_slave_address value m = m\<lparr>hreg_slave_address := value\<rparr>"

definition hreg_get_clear_faults :: "HoldingRegisters \<Rightarrow> u32" where [hreg_accessors]: "hreg_get_clear_faults m = hreg_clear_faults m"
definition hreg_set_clear_faults :: "u32 \<Rightarrow> HoldingRegisters \<Rightarrow> HoldingRegisters" where [hreg_accessors]: "hreg_set_clear_faults value m = m\<lparr>hreg_clear_faults := value\<rparr>"

definition hreg_get_start_data_read :: "HoldingRegisters \<Rightarrow> u32" where [hreg_accessors]: "hreg_get_start_data_read m = hreg_start_data_read m"
definition hreg_set_start_data_read :: "u32 \<Rightarrow> HoldingRegisters \<Rightarrow> HoldingRegisters" where [hreg_accessors]: "hreg_set_start_data_read value m = m\<lparr>hreg_start_data_read := value\<rparr>"

section \<open>The map as fields\<close>

text \<open>The fields as the wire carries them, and the struct after field \<open>i\<close> took bytes from the wire.\<close>

definition hreg_fields :: "HoldingRegisters \<Rightarrow> u8 list list" where
  "hreg_fields m =
     [msb_bytes 4 (unat (hreg_analog_output0 m)),
      msb_bytes 4 (unat (hreg_analog_output1 m)),
      msb_bytes 4 (unat (hreg_isp_mode m)),
      msb_bytes 4 (unat (hreg_slave_address_unlock m)),
      msb_bytes 2 (unat (hreg_slave_address m)),
      msb_bytes 4 (unat (hreg_clear_faults m)),
      msb_bytes 4 (unat (hreg_start_data_read m))]"

definition hreg_put :: "HoldingRegisters \<Rightarrow> nat \<Rightarrow> u8 list \<Rightarrow> HoldingRegisters" where
  "hreg_put m i bs =
     [m\<lparr>hreg_analog_output0 := word_of_nat (msb_value bs)\<rparr>,
      m\<lparr>hreg_analog_output1 := word_of_nat (msb_value bs)\<rparr>,
      m\<lparr>hreg_isp_mode := word_of_nat (msb_value bs)\<rparr>,
      m\<lparr>hreg_slave_address_unlock := word_of_nat (msb_value bs)\<rparr>,
      m\<lparr>hreg_slave_address := word_of_nat (msb_value bs)\<rparr>,
      m\<lparr>hreg_clear_faults := word_of_nat (msb_value bs)\<rparr>,
      m\<lparr>hreg_start_data_read := word_of_nat (msb_value bs)\<rparr>] ! i"

definition hreg_wf :: "HoldingRegisters \<Rightarrow> bool" where
  "hreg_wf m \<longleftrightarrow> True"

definition hreg_start :: "nat \<Rightarrow> nat" where
  "hreg_start i = (case HoldingRegisters_entry_positions ! i of (_, off, width) \<Rightarrow> off div 2)"

definition hreg_regs :: "nat \<Rightarrow> nat" where
  "hreg_regs i = (case HoldingRegisters_entry_positions ! i of (_, off, width) \<Rightarrow> width div 2)"

lemma hreg_cases:
  "i < (7::nat) \<Longrightarrow> i = 6 \<or> i = 5 \<or> i = 4 \<or> i = 3 \<or> i = 2 \<or> i = 1 \<or> i = 0"
  by presburger

lemma hreg_table:
  "map hreg_start [0..<7] = [0, 2, 4, 6, 8, 10, 12]"
  "map hreg_regs [0..<7] = [2, 2, 2, 2, 1, 2, 2]"
  by (simp_all add: upt_rec hreg_start_def hreg_regs_def HoldingRegisters_entry_positions_def)

lemma hreg_start_nth: "i < 7 \<Longrightarrow> hreg_start i = [0, 2, 4, 6, 8, 10, 12] ! i"
  using arg_cong [OF hreg_table(1), of "\<lambda>xs. xs ! i"] by simp

lemma hreg_regs_nth: "i < 7 \<Longrightarrow> hreg_regs i = [2, 2, 2, 2, 1, 2, 2] ! i"
  using arg_cong [OF hreg_table(2), of "\<lambda>xs. xs ! i"] by simp

lemma hreg_bounds:
  assumes "i < 7"
  shows "0 < hreg_regs i" and "hreg_start i + hreg_regs i \<le> 14"
  using hreg_cases [OF assms] by (auto simp: hreg_start_nth hreg_regs_nth)

lemma hreg_ordered: "i < j \<Longrightarrow> j < 7 \<Longrightarrow> hreg_start i + hreg_regs i \<le> hreg_start j"
proof -
  have "\<forall>j<7. \<forall>i<j. [0, 2, 4, 6, 8, 10, 12] ! i + [2, 2, 2, 2, 1, 2, 2] ! i \<le>
      ([0, 2, 4, 6, 8, 10, 12] ! j :: nat)"
    by (simp add: All_less_Suc numeral_eq_Suc)
  then show "i < j \<Longrightarrow> j < 7 \<Longrightarrow> hreg_start i + hreg_regs i \<le> hreg_start j"
    by (simp add: hreg_start_nth hreg_regs_nth)
qed

lemma length_hreg_entries [simp]: "length HoldingRegisters_entry_positions = 7"
  by (simp add: HoldingRegisters_entry_positions_def)

lemma length_hreg_fields [simp]: "length (hreg_fields m) = 7"
  by (simp add: hreg_fields_def)

lemma hreg_names_nth:
  "i < 7 \<Longrightarrow> enum_of_index HoldingRegisters_names (word_of_nat i) = Some (HoldingRegisters_names ! i)"
  by (rule enum_of_index_small) (simp_all add: HoldingRegisters_names_def)

lemma length_hreg_field:
  assumes "hreg_wf m" and "i < 7"
  shows "length (hreg_fields m ! i) = 2 * hreg_regs i"
  using assms hreg_cases [OF assms(2)]
  by (elim disjE) (simp_all add: hreg_fields_def hreg_wf_def hreg_regs_nth)

lemma hreg_GetField:
  assumes L: "conversions_ok L" and m: "hreg_wf m" and i: "i < 7" and v: "view_wf v"
  shows "HoldingRegistersWrapper_GetField L m (word_of_nat i) v =
    Inr (v\<lparr>view_data := overwrite 0 (take (view_size v) (hreg_fields m ! i)) (view_data v)\<rparr>)"
  using hreg_cases [OF i] L m v unfolding HoldingRegistersWrapper_GetField_def hreg_names_nth [OF i]
  by (elim disjE) (simp_all add: HoldingRegisters_names_def hreg_fields_def hreg_wf_def
      store_array_spec store_number_spec)

lemma hreg_SetField:
  assumes L: "conversions_ok L" and m: "hreg_wf m" and i: "i < 7"
    and v: "view_wf v" "view_size v = 2 * hreg_regs i"
  shows "HoldingRegistersWrapper_SetField L m (word_of_nat i) v =
    Inr (hreg_put m i (take (2 * hreg_regs i) (view_data v)))"
proof -
  have "length (take (2 * hreg_regs i) (view_data v)) = 2 * hreg_regs i"
    using v by (simp add: view_wf_def)
  then show ?thesis
    using hreg_cases [OF i] L m v unfolding HoldingRegistersWrapper_SetField_def hreg_names_nth [OF i]
    by (elim disjE) (simp_all add: HoldingRegisters_names_def hreg_put_def hreg_wf_def hreg_regs_nth
        load_array_spec load_number_spec overwrite_0)
qed

lemma hreg_fields_put:
  assumes "i < 7" and "length bs = 2 * hreg_regs i"
  shows "hreg_fields (hreg_put m i bs) = (hreg_fields m)[i := bs]"
  using hreg_cases [OF assms(1)] assms(2)
  by (elim disjE) (simp_all add: hreg_fields_def hreg_put_def hreg_regs_nth msb_bytes_roundtrip
      del: unat_word_of_nat_u16)

lemma hreg_fields_inject:
  assumes "hreg_fields m = hreg_fields m'"
  shows "m = m'"
  using assms by (intro HoldingRegisters.equality) (simp_all add: hreg_fields_def msb_bytes_inject)

lemma hreg_wf_put:
  assumes "hreg_wf m" and "i < 7" and "length bs = 2 * hreg_regs i"
  shows "hreg_wf (hreg_put m i bs)"
  using hreg_cases [OF assms(2)] assms(1,3)
  by (elim disjE) (simp_all add: hreg_wf_def hreg_put_def hreg_regs_nth)

end
