(* ===== verification/InputMap.thy ===== *)
theory InputMap
  imports Conversions
begin

text \<open>
  The input registers of the connected device,
  \<open>examples/ConnectedDevice/common/InputRegisterMappedDataStore.h\<close>: the struct, its entries and
  \<open>InputRegistersWrapper\<close>. The wrapper's pointer to the struct is the struct itself.
\<close>

section \<open>The struct\<close>

record InputRegisters =
  ireg_version :: "u8 list"
  ireg_firmware_version :: "u8 list"
  ireg_compile_date :: "u8 list"
  ireg_compile_time :: "u8 list"
  ireg_serial_number :: "u8 list"
  ireg_fault_status :: "u16"
  ireg_p5_micro_volts :: "u32"
  ireg_p5_reading :: "u32"
  ireg_p23_micro_volts :: "u32"
  ireg_p23_reading :: "u32"
  ireg_vlo_micro_volts :: "u32"
  ireg_vlo_reading :: "u32"
  ireg_thermistor_temp_spi :: "u32"
  ireg_thermistor_temp_mcu :: "u32"
  ireg_data_frequency :: "u32"
  ireg_p3_3_micro_volts :: "u32"
  ireg_p3_3_reading :: "u32"

definition InputRegisters_init :: InputRegisters where
  "InputRegisters_init = \<lparr>ireg_version = replicate 64 0,
     ireg_firmware_version = replicate 64 0,
     ireg_compile_date = replicate 64 0,
     ireg_compile_time = replicate 64 0,
     ireg_serial_number = replicate 40 0,
     ireg_fault_status = 0,
     ireg_p5_micro_volts = 0,
     ireg_p5_reading = 0,
     ireg_p23_micro_volts = 0,
     ireg_p23_reading = 0,
     ireg_vlo_micro_volts = 0,
     ireg_vlo_reading = 0,
     ireg_thermistor_temp_spi = 0,
     ireg_thermistor_temp_mcu = 0,
     ireg_data_frequency = 0,
     ireg_p3_3_micro_volts = 0,
     ireg_p3_3_reading = 0\<rparr>"

datatype InputRegistersEntryIdentifier =
    Input_version
  | Input_firmware_version
  | Input_compile_date
  | Input_compile_time
  | Input_serial_number
  | Input_fault_status
  | Input_p5_micro_volts
  | Input_p5_reading
  | Input_p23_micro_volts
  | Input_p23_reading
  | Input_vlo_micro_volts
  | Input_vlo_reading
  | Input_thermistor_temp_spi
  | Input_thermistor_temp_mcu
  | Input_data_frequency
  | Input_p3_3_micro_volts
  | Input_p3_3_reading
  | Input_unknown

definition InputRegisters_names :: "InputRegistersEntryIdentifier list" where
  "InputRegisters_names =
     [Input_version,
      Input_firmware_version,
      Input_compile_date,
      Input_compile_time,
      Input_serial_number,
      Input_fault_status,
      Input_p5_micro_volts,
      Input_p5_reading,
      Input_p23_micro_volts,
      Input_p23_reading,
      Input_vlo_micro_volts,
      Input_vlo_reading,
      Input_thermistor_temp_spi,
      Input_thermistor_temp_mcu,
      Input_data_frequency,
      Input_p3_3_micro_volts,
      Input_p3_3_reading,
      Input_unknown]"

text \<open>
  \<open>entry_positions_\<close>: identifier, \<open>offsetof\<close> and \<open>sizeof\<close>. The offsets are those of a struct
  whose numbers are aligned to their size.
\<close>

definition InputRegisters_entry_positions :: "(InputRegistersEntryIdentifier \<times> nat \<times> nat) list" where
  "InputRegisters_entry_positions =
     [(Input_version, 0, 64),
      (Input_firmware_version, 64, 64),
      (Input_compile_date, 128, 64),
      (Input_compile_time, 192, 64),
      (Input_serial_number, 256, 40),
      (Input_fault_status, 296, 2),
      (Input_p5_micro_volts, 300, 4),
      (Input_p5_reading, 304, 4),
      (Input_p23_micro_volts, 308, 4),
      (Input_p23_reading, 312, 4),
      (Input_vlo_micro_volts, 316, 4),
      (Input_vlo_reading, 320, 4),
      (Input_thermistor_temp_spi, 324, 4),
      (Input_thermistor_temp_mcu, 328, 4),
      (Input_data_frequency, 332, 4),
      (Input_p3_3_micro_volts, 336, 4),
      (Input_p3_3_reading, 340, 4)]"

definition InputRegistersWrapper_size :: nat where
  "InputRegistersWrapper_size = 344"

section \<open>SetField and GetField\<close>

definition InputRegistersWrapper_SetField ::
  "conversions \<Rightarrow> InputRegisters \<Rightarrow> size_t \<Rightarrow> u8 ArrayView \<Rightarrow> InputRegisters result" where
  "InputRegistersWrapper_SetField L m index data =
     (case enum_of_index InputRegisters_names index of
        None \<Rightarrow> Inr m
      | Some identifier \<Rightarrow> (case identifier of
          Input_unknown \<Rightarrow> Inr m
        | Input_version \<Rightarrow>
            rbind (load_array 64 data (ireg_version m)) (\<lambda>x. Inr (m\<lparr>ireg_version := x\<rparr>))
        | Input_firmware_version \<Rightarrow>
            rbind (load_array 64 data (ireg_firmware_version m)) (\<lambda>x. Inr (m\<lparr>ireg_firmware_version := x\<rparr>))
        | Input_compile_date \<Rightarrow>
            rbind (load_array 64 data (ireg_compile_date m)) (\<lambda>x. Inr (m\<lparr>ireg_compile_date := x\<rparr>))
        | Input_compile_time \<Rightarrow>
            rbind (load_array 64 data (ireg_compile_time m)) (\<lambda>x. Inr (m\<lparr>ireg_compile_time := x\<rparr>))
        | Input_serial_number \<Rightarrow>
            rbind (load_array 40 data (ireg_serial_number m)) (\<lambda>x. Inr (m\<lparr>ireg_serial_number := x\<rparr>))
        | Input_fault_status \<Rightarrow>
            rbind (load_number L 2 data) (\<lambda>v. Inr (m\<lparr>ireg_fault_status := word_of_nat v\<rparr>))
        | Input_p5_micro_volts \<Rightarrow>
            rbind (load_number L 4 data) (\<lambda>v. Inr (m\<lparr>ireg_p5_micro_volts := word_of_nat v\<rparr>))
        | Input_p5_reading \<Rightarrow>
            rbind (load_number L 4 data) (\<lambda>v. Inr (m\<lparr>ireg_p5_reading := word_of_nat v\<rparr>))
        | Input_p23_micro_volts \<Rightarrow>
            rbind (load_number L 4 data) (\<lambda>v. Inr (m\<lparr>ireg_p23_micro_volts := word_of_nat v\<rparr>))
        | Input_p23_reading \<Rightarrow>
            rbind (load_number L 4 data) (\<lambda>v. Inr (m\<lparr>ireg_p23_reading := word_of_nat v\<rparr>))
        | Input_vlo_micro_volts \<Rightarrow>
            rbind (load_number L 4 data) (\<lambda>v. Inr (m\<lparr>ireg_vlo_micro_volts := word_of_nat v\<rparr>))
        | Input_vlo_reading \<Rightarrow>
            rbind (load_number L 4 data) (\<lambda>v. Inr (m\<lparr>ireg_vlo_reading := word_of_nat v\<rparr>))
        | Input_thermistor_temp_spi \<Rightarrow>
            rbind (load_number L 4 data) (\<lambda>v. Inr (m\<lparr>ireg_thermistor_temp_spi := word_of_nat v\<rparr>))
        | Input_thermistor_temp_mcu \<Rightarrow>
            rbind (load_number L 4 data) (\<lambda>v. Inr (m\<lparr>ireg_thermistor_temp_mcu := word_of_nat v\<rparr>))
        | Input_data_frequency \<Rightarrow>
            rbind (load_number L 4 data) (\<lambda>v. Inr (m\<lparr>ireg_data_frequency := word_of_nat v\<rparr>))
        | Input_p3_3_micro_volts \<Rightarrow>
            rbind (load_number L 4 data) (\<lambda>v. Inr (m\<lparr>ireg_p3_3_micro_volts := word_of_nat v\<rparr>))
        | Input_p3_3_reading \<Rightarrow>
            rbind (load_number L 4 data) (\<lambda>v. Inr (m\<lparr>ireg_p3_3_reading := word_of_nat v\<rparr>))))"

definition InputRegistersWrapper_GetField ::
  "conversions \<Rightarrow> InputRegisters \<Rightarrow> size_t \<Rightarrow> u8 ArrayView \<Rightarrow> u8 ArrayView result" where
  "InputRegistersWrapper_GetField L m index data =
     (case enum_of_index InputRegisters_names index of
        None \<Rightarrow> Inr data
      | Some identifier \<Rightarrow> (case identifier of
          Input_unknown \<Rightarrow> Inr data
        | Input_version \<Rightarrow> store_array 64 (ireg_version m) data
        | Input_firmware_version \<Rightarrow> store_array 64 (ireg_firmware_version m) data
        | Input_compile_date \<Rightarrow> store_array 64 (ireg_compile_date m) data
        | Input_compile_time \<Rightarrow> store_array 64 (ireg_compile_time m) data
        | Input_serial_number \<Rightarrow> store_array 40 (ireg_serial_number m) data
        | Input_fault_status \<Rightarrow> store_number L 2 (unat (ireg_fault_status m)) data
        | Input_p5_micro_volts \<Rightarrow> store_number L 4 (unat (ireg_p5_micro_volts m)) data
        | Input_p5_reading \<Rightarrow> store_number L 4 (unat (ireg_p5_reading m)) data
        | Input_p23_micro_volts \<Rightarrow> store_number L 4 (unat (ireg_p23_micro_volts m)) data
        | Input_p23_reading \<Rightarrow> store_number L 4 (unat (ireg_p23_reading m)) data
        | Input_vlo_micro_volts \<Rightarrow> store_number L 4 (unat (ireg_vlo_micro_volts m)) data
        | Input_vlo_reading \<Rightarrow> store_number L 4 (unat (ireg_vlo_reading m)) data
        | Input_thermistor_temp_spi \<Rightarrow> store_number L 4 (unat (ireg_thermistor_temp_spi m)) data
        | Input_thermistor_temp_mcu \<Rightarrow> store_number L 4 (unat (ireg_thermistor_temp_mcu m)) data
        | Input_data_frequency \<Rightarrow> store_number L 4 (unat (ireg_data_frequency m)) data
        | Input_p3_3_micro_volts \<Rightarrow> store_number L 4 (unat (ireg_p3_3_micro_volts m)) data
        | Input_p3_3_reading \<Rightarrow> store_number L 4 (unat (ireg_p3_3_reading m)) data))"

section \<open>Getters and setters\<close>

named_theorems ireg_accessors

definition ireg_get_version :: "InputRegisters \<Rightarrow> u8 ArrayView" where [ireg_accessors]:
  "ireg_get_version m = \<lparr>view_size = 64, view_data = ireg_version m\<rparr>"

definition ireg_set_version :: "u8 ArrayView \<Rightarrow> nat \<Rightarrow> InputRegisters \<Rightarrow> InputRegisters result" where [ireg_accessors]:
  "ireg_set_version value len m = rbind (load_bytes_loop len 0 value (ireg_version m)) (\<lambda>x. Inr (m\<lparr>ireg_version := x\<rparr>))"

definition ireg_get_firmware_version :: "InputRegisters \<Rightarrow> u8 ArrayView" where [ireg_accessors]:
  "ireg_get_firmware_version m = \<lparr>view_size = 64, view_data = ireg_firmware_version m\<rparr>"

definition ireg_set_firmware_version :: "u8 ArrayView \<Rightarrow> nat \<Rightarrow> InputRegisters \<Rightarrow> InputRegisters result" where [ireg_accessors]:
  "ireg_set_firmware_version value len m = rbind (load_bytes_loop len 0 value (ireg_firmware_version m)) (\<lambda>x. Inr (m\<lparr>ireg_firmware_version := x\<rparr>))"

definition ireg_get_compile_date :: "InputRegisters \<Rightarrow> u8 ArrayView" where [ireg_accessors]:
  "ireg_get_compile_date m = \<lparr>view_size = 64, view_data = ireg_compile_date m\<rparr>"

definition ireg_set_compile_date :: "u8 ArrayView \<Rightarrow> nat \<Rightarrow> InputRegisters \<Rightarrow> InputRegisters result" where [ireg_accessors]:
  "ireg_set_compile_date value len m = rbind (load_bytes_loop len 0 value (ireg_compile_date m)) (\<lambda>x. Inr (m\<lparr>ireg_compile_date := x\<rparr>))"

definition ireg_get_compile_time :: "InputRegisters \<Rightarrow> u8 ArrayView" where [ireg_accessors]:
  "ireg_get_compile_time m = \<lparr>view_size = 64, view_data = ireg_compile_time m\<rparr>"

definition ireg_set_compile_time :: "u8 ArrayView \<Rightarrow> nat \<Rightarrow> InputRegisters \<Rightarrow> InputRegisters result" where [ireg_accessors]:
  "ireg_set_compile_time value len m = rbind (load_bytes_loop len 0 value (ireg_compile_time m)) (\<lambda>x. Inr (m\<lparr>ireg_compile_time := x\<rparr>))"

definition ireg_get_serial_number :: "InputRegisters \<Rightarrow> u8 ArrayView" where [ireg_accessors]:
  "ireg_get_serial_number m = \<lparr>view_size = 40, view_data = ireg_serial_number m\<rparr>"

definition ireg_set_serial_number :: "u8 ArrayView \<Rightarrow> nat \<Rightarrow> InputRegisters \<Rightarrow> InputRegisters result" where [ireg_accessors]:
  "ireg_set_serial_number value len m = rbind (load_bytes_loop len 0 value (ireg_serial_number m)) (\<lambda>x. Inr (m\<lparr>ireg_serial_number := x\<rparr>))"

definition ireg_get_fault_status :: "InputRegisters \<Rightarrow> u16" where [ireg_accessors]: "ireg_get_fault_status m = ireg_fault_status m"
definition ireg_set_fault_status :: "u16 \<Rightarrow> InputRegisters \<Rightarrow> InputRegisters" where [ireg_accessors]: "ireg_set_fault_status value m = m\<lparr>ireg_fault_status := value\<rparr>"

definition ireg_get_p5_micro_volts :: "InputRegisters \<Rightarrow> u32" where [ireg_accessors]: "ireg_get_p5_micro_volts m = ireg_p5_micro_volts m"
definition ireg_set_p5_micro_volts :: "u32 \<Rightarrow> InputRegisters \<Rightarrow> InputRegisters" where [ireg_accessors]: "ireg_set_p5_micro_volts value m = m\<lparr>ireg_p5_micro_volts := value\<rparr>"

definition ireg_get_p5_reading :: "InputRegisters \<Rightarrow> u32" where [ireg_accessors]: "ireg_get_p5_reading m = ireg_p5_reading m"
definition ireg_set_p5_reading :: "u32 \<Rightarrow> InputRegisters \<Rightarrow> InputRegisters" where [ireg_accessors]: "ireg_set_p5_reading value m = m\<lparr>ireg_p5_reading := value\<rparr>"

definition ireg_get_p23_micro_volts :: "InputRegisters \<Rightarrow> u32" where [ireg_accessors]: "ireg_get_p23_micro_volts m = ireg_p23_micro_volts m"
definition ireg_set_p23_micro_volts :: "u32 \<Rightarrow> InputRegisters \<Rightarrow> InputRegisters" where [ireg_accessors]: "ireg_set_p23_micro_volts value m = m\<lparr>ireg_p23_micro_volts := value\<rparr>"

definition ireg_get_p23_reading :: "InputRegisters \<Rightarrow> u32" where [ireg_accessors]: "ireg_get_p23_reading m = ireg_p23_reading m"
definition ireg_set_p23_reading :: "u32 \<Rightarrow> InputRegisters \<Rightarrow> InputRegisters" where [ireg_accessors]: "ireg_set_p23_reading value m = m\<lparr>ireg_p23_reading := value\<rparr>"

definition ireg_get_vlo_micro_volts :: "InputRegisters \<Rightarrow> u32" where [ireg_accessors]: "ireg_get_vlo_micro_volts m = ireg_vlo_micro_volts m"
definition ireg_set_vlo_micro_volts :: "u32 \<Rightarrow> InputRegisters \<Rightarrow> InputRegisters" where [ireg_accessors]: "ireg_set_vlo_micro_volts value m = m\<lparr>ireg_vlo_micro_volts := value\<rparr>"

definition ireg_get_vlo_reading :: "InputRegisters \<Rightarrow> u32" where [ireg_accessors]: "ireg_get_vlo_reading m = ireg_vlo_reading m"
definition ireg_set_vlo_reading :: "u32 \<Rightarrow> InputRegisters \<Rightarrow> InputRegisters" where [ireg_accessors]: "ireg_set_vlo_reading value m = m\<lparr>ireg_vlo_reading := value\<rparr>"

definition ireg_get_thermistor_temp_spi :: "InputRegisters \<Rightarrow> u32" where [ireg_accessors]: "ireg_get_thermistor_temp_spi m = ireg_thermistor_temp_spi m"
definition ireg_set_thermistor_temp_spi :: "u32 \<Rightarrow> InputRegisters \<Rightarrow> InputRegisters" where [ireg_accessors]: "ireg_set_thermistor_temp_spi value m = m\<lparr>ireg_thermistor_temp_spi := value\<rparr>"

definition ireg_get_thermistor_temp_mcu :: "InputRegisters \<Rightarrow> u32" where [ireg_accessors]: "ireg_get_thermistor_temp_mcu m = ireg_thermistor_temp_mcu m"
definition ireg_set_thermistor_temp_mcu :: "u32 \<Rightarrow> InputRegisters \<Rightarrow> InputRegisters" where [ireg_accessors]: "ireg_set_thermistor_temp_mcu value m = m\<lparr>ireg_thermistor_temp_mcu := value\<rparr>"

definition ireg_get_data_frequency :: "InputRegisters \<Rightarrow> u32" where [ireg_accessors]: "ireg_get_data_frequency m = ireg_data_frequency m"
definition ireg_set_data_frequency :: "u32 \<Rightarrow> InputRegisters \<Rightarrow> InputRegisters" where [ireg_accessors]: "ireg_set_data_frequency value m = m\<lparr>ireg_data_frequency := value\<rparr>"

definition ireg_get_p3_3_micro_volts :: "InputRegisters \<Rightarrow> u32" where [ireg_accessors]: "ireg_get_p3_3_micro_volts m = ireg_p3_3_micro_volts m"
definition ireg_set_p3_3_micro_volts :: "u32 \<Rightarrow> InputRegisters \<Rightarrow> InputRegisters" where [ireg_accessors]: "ireg_set_p3_3_micro_volts value m = m\<lparr>ireg_p3_3_micro_volts := value\<rparr>"

definition ireg_get_p3_3_reading :: "InputRegisters \<Rightarrow> u32" where [ireg_accessors]: "ireg_get_p3_3_reading m = ireg_p3_3_reading m"
definition ireg_set_p3_3_reading :: "u32 \<Rightarrow> InputRegisters \<Rightarrow> InputRegisters" where [ireg_accessors]: "ireg_set_p3_3_reading value m = m\<lparr>ireg_p3_3_reading := value\<rparr>"

section \<open>The map as fields\<close>

text \<open>The fields as the wire carries them, and the struct after field \<open>i\<close> took bytes from the wire.\<close>

definition ireg_fields :: "InputRegisters \<Rightarrow> u8 list list" where
  "ireg_fields m =
     [ireg_version m,
      ireg_firmware_version m,
      ireg_compile_date m,
      ireg_compile_time m,
      ireg_serial_number m,
      msb_bytes 2 (unat (ireg_fault_status m)),
      msb_bytes 4 (unat (ireg_p5_micro_volts m)),
      msb_bytes 4 (unat (ireg_p5_reading m)),
      msb_bytes 4 (unat (ireg_p23_micro_volts m)),
      msb_bytes 4 (unat (ireg_p23_reading m)),
      msb_bytes 4 (unat (ireg_vlo_micro_volts m)),
      msb_bytes 4 (unat (ireg_vlo_reading m)),
      msb_bytes 4 (unat (ireg_thermistor_temp_spi m)),
      msb_bytes 4 (unat (ireg_thermistor_temp_mcu m)),
      msb_bytes 4 (unat (ireg_data_frequency m)),
      msb_bytes 4 (unat (ireg_p3_3_micro_volts m)),
      msb_bytes 4 (unat (ireg_p3_3_reading m))]"

definition ireg_put :: "InputRegisters \<Rightarrow> nat \<Rightarrow> u8 list \<Rightarrow> InputRegisters" where
  "ireg_put m i bs =
     [m\<lparr>ireg_version := bs\<rparr>,
      m\<lparr>ireg_firmware_version := bs\<rparr>,
      m\<lparr>ireg_compile_date := bs\<rparr>,
      m\<lparr>ireg_compile_time := bs\<rparr>,
      m\<lparr>ireg_serial_number := bs\<rparr>,
      m\<lparr>ireg_fault_status := word_of_nat (msb_value bs)\<rparr>,
      m\<lparr>ireg_p5_micro_volts := word_of_nat (msb_value bs)\<rparr>,
      m\<lparr>ireg_p5_reading := word_of_nat (msb_value bs)\<rparr>,
      m\<lparr>ireg_p23_micro_volts := word_of_nat (msb_value bs)\<rparr>,
      m\<lparr>ireg_p23_reading := word_of_nat (msb_value bs)\<rparr>,
      m\<lparr>ireg_vlo_micro_volts := word_of_nat (msb_value bs)\<rparr>,
      m\<lparr>ireg_vlo_reading := word_of_nat (msb_value bs)\<rparr>,
      m\<lparr>ireg_thermistor_temp_spi := word_of_nat (msb_value bs)\<rparr>,
      m\<lparr>ireg_thermistor_temp_mcu := word_of_nat (msb_value bs)\<rparr>,
      m\<lparr>ireg_data_frequency := word_of_nat (msb_value bs)\<rparr>,
      m\<lparr>ireg_p3_3_micro_volts := word_of_nat (msb_value bs)\<rparr>,
      m\<lparr>ireg_p3_3_reading := word_of_nat (msb_value bs)\<rparr>] ! i"

definition ireg_wf :: "InputRegisters \<Rightarrow> bool" where
  "ireg_wf m \<longleftrightarrow> length (ireg_version m) = 64 \<and>
     length (ireg_firmware_version m) = 64 \<and>
     length (ireg_compile_date m) = 64 \<and>
     length (ireg_compile_time m) = 64 \<and>
     length (ireg_serial_number m) = 40"

definition ireg_start :: "nat \<Rightarrow> nat" where
  "ireg_start i = (case InputRegisters_entry_positions ! i of (_, off, width) \<Rightarrow> off div 2)"

definition ireg_regs :: "nat \<Rightarrow> nat" where
  "ireg_regs i = (case InputRegisters_entry_positions ! i of (_, off, width) \<Rightarrow> width div 2)"

lemma ireg_cases:
  "i < (17::nat) \<Longrightarrow> i = 16 \<or> i = 15 \<or> i = 14 \<or> i = 13 \<or> i = 12 \<or> i = 11 \<or> i = 10 \<or> i = 9 \<or> i = 8 \<or> i = 7 \<or> i = 6 \<or> i = 5 \<or> i = 4 \<or> i = 3 \<or> i = 2 \<or> i = 1 \<or> i = 0"
  by presburger

lemma ireg_table:
  "map ireg_start [0..<17] = [0, 32, 64, 96, 128, 148, 150, 152, 154, 156, 158, 160, 162, 164, 166, 168, 170]"
  "map ireg_regs [0..<17] = [32, 32, 32, 32, 20, 1, 2, 2, 2, 2, 2, 2, 2, 2, 2, 2, 2]"
  by (simp_all add: upt_rec ireg_start_def ireg_regs_def InputRegisters_entry_positions_def)

lemma ireg_start_nth: "i < 17 \<Longrightarrow> ireg_start i = [0, 32, 64, 96, 128, 148, 150, 152, 154, 156, 158, 160, 162, 164, 166, 168, 170] ! i"
  using arg_cong [OF ireg_table(1), of "\<lambda>xs. xs ! i"] by simp

lemma ireg_regs_nth: "i < 17 \<Longrightarrow> ireg_regs i = [32, 32, 32, 32, 20, 1, 2, 2, 2, 2, 2, 2, 2, 2, 2, 2, 2] ! i"
  using arg_cong [OF ireg_table(2), of "\<lambda>xs. xs ! i"] by simp

lemma ireg_bounds:
  assumes "i < 17"
  shows "0 < ireg_regs i" and "ireg_start i + ireg_regs i \<le> 172"
  using ireg_cases [OF assms] by (auto simp: ireg_start_nth ireg_regs_nth)

lemma ireg_ordered: "i < j \<Longrightarrow> j < 17 \<Longrightarrow> ireg_start i + ireg_regs i \<le> ireg_start j"
proof -
  have "\<forall>j<17. \<forall>i<j. [0, 32, 64, 96, 128, 148, 150, 152, 154, 156, 158, 160, 162, 164, 166, 168, 170] ! i + [32, 32, 32, 32, 20, 1, 2, 2, 2, 2, 2, 2, 2, 2, 2, 2, 2] ! i \<le>
      ([0, 32, 64, 96, 128, 148, 150, 152, 154, 156, 158, 160, 162, 164, 166, 168, 170] ! j :: nat)"
    by (simp add: All_less_Suc numeral_eq_Suc)
  then show "i < j \<Longrightarrow> j < 17 \<Longrightarrow> ireg_start i + ireg_regs i \<le> ireg_start j"
    by (simp add: ireg_start_nth ireg_regs_nth)
qed

lemma length_ireg_entries [simp]: "length InputRegisters_entry_positions = 17"
  by (simp add: InputRegisters_entry_positions_def)

lemma length_ireg_fields [simp]: "length (ireg_fields m) = 17"
  by (simp add: ireg_fields_def)

lemma ireg_names_nth:
  "i < 17 \<Longrightarrow> enum_of_index InputRegisters_names (word_of_nat i) = Some (InputRegisters_names ! i)"
  by (rule enum_of_index_small) (simp_all add: InputRegisters_names_def)

lemma length_ireg_field:
  assumes "ireg_wf m" and "i < 17"
  shows "length (ireg_fields m ! i) = 2 * ireg_regs i"
  using assms ireg_cases [OF assms(2)]
  by (elim disjE) (simp_all add: ireg_fields_def ireg_wf_def ireg_regs_nth)

lemma ireg_GetField:
  assumes L: "conversions_ok L" and m: "ireg_wf m" and i: "i < 17" and v: "view_wf v"
  shows "InputRegistersWrapper_GetField L m (word_of_nat i) v =
    Inr (v\<lparr>view_data := overwrite 0 (take (view_size v) (ireg_fields m ! i)) (view_data v)\<rparr>)"
  using ireg_cases [OF i] L m v unfolding InputRegistersWrapper_GetField_def ireg_names_nth [OF i]
  by (elim disjE) (simp_all add: InputRegisters_names_def ireg_fields_def ireg_wf_def
      store_array_spec store_number_spec)

lemma ireg_SetField:
  assumes L: "conversions_ok L" and m: "ireg_wf m" and i: "i < 17"
    and v: "view_wf v" "view_size v = 2 * ireg_regs i"
  shows "InputRegistersWrapper_SetField L m (word_of_nat i) v =
    Inr (ireg_put m i (take (2 * ireg_regs i) (view_data v)))"
proof -
  have "length (take (2 * ireg_regs i) (view_data v)) = 2 * ireg_regs i"
    using v by (simp add: view_wf_def)
  then show ?thesis
    using ireg_cases [OF i] L m v unfolding InputRegistersWrapper_SetField_def ireg_names_nth [OF i]
    by (elim disjE) (simp_all add: InputRegisters_names_def ireg_put_def ireg_wf_def ireg_regs_nth
        load_array_spec load_number_spec overwrite_0)
qed

lemma ireg_fields_put:
  assumes "i < 17" and "length bs = 2 * ireg_regs i"
  shows "ireg_fields (ireg_put m i bs) = (ireg_fields m)[i := bs]"
  using ireg_cases [OF assms(1)] assms(2)
  by (elim disjE) (simp_all add: ireg_fields_def ireg_put_def ireg_regs_nth msb_bytes_roundtrip
      del: unat_word_of_nat_u16)

lemma ireg_fields_inject:
  assumes "ireg_fields m = ireg_fields m'"
  shows "m = m'"
  using assms by (intro InputRegisters.equality) (simp_all add: ireg_fields_def msb_bytes_inject)

lemma ireg_wf_put:
  assumes "ireg_wf m" and "i < 17" and "length bs = 2 * ireg_regs i"
  shows "ireg_wf (ireg_put m i bs)"
  using ireg_cases [OF assms(2)] assms(1,3)
  by (elim disjE) (simp_all add: ireg_wf_def ireg_put_def ireg_regs_nth)

end
