(* ===== verification/ConnectedMaps.thy ===== *)
theory ConnectedMaps
  imports HoldingMap InputMap
begin

text \<open>
  The two generated wrappers of \<open>examples/ConnectedDevice/common\<close> as what they are for: a field of
  the struct is set from the bytes of the wire and got as those bytes, by its index.
\<close>

text \<open>The sizes of the members of the struct \<open>InputRegisters\<close>, in bytes.\<close>

definition InputRegisters_sizes :: "nat list" where
  "InputRegisters_sizes = [64, 64, 64, 64, 40, 2, 4, 4, 4, 4, 4, 4, 4, 4, 4, 4, 4]"

lemma InputRegisters_sizes_regs: "i < 17 \<Longrightarrow> InputRegisters_sizes ! i = 2 * ireg_regs i"
  by (drule ireg_cases, elim disjE) (simp_all add: InputRegisters_sizes_def ireg_regs_nth)


lemma InputRegisters_init_wf: "ireg_wf InputRegisters_init"
  by (simp add: InputRegisters_init_def ireg_wf_def)


text \<open>The same of the wrapper of the struct \<open>HoldingRegisters\<close>, all of whose members are numbers.\<close>

lemma holding_wrapper_set_then_get:
  assumes L: "conversions_ok L" and i: "i < 7" and v: "view_wf v" "view_size v = [4, 4, 4, 4, 2, 4, 4] ! i"
    and w: "view_wf w"
  shows "\<exists>m'. HoldingRegistersWrapper_SetField L m (word_of_nat i) v = Inr m' \<and>
    HoldingRegistersWrapper_GetField L m' (word_of_nat i) w =
      Inr (w\<lparr>view_data := overwrite 0 (take (view_size w) (take (view_size v) (view_data v))) (view_data w)\<rparr>) \<and>
    (\<forall>j<7. j \<noteq> i \<longrightarrow> HoldingRegistersWrapper_GetField L m' (word_of_nat j) w =
      HoldingRegistersWrapper_GetField L m (word_of_nat j) w)"
proof -
  have size: "view_size v = 2 * hreg_regs i"
    using v(2) hreg_cases [OF i] by (elim disjE) (simp_all add: hreg_regs_nth)
  have len: "length (take (2 * hreg_regs i) (view_data v)) = 2 * hreg_regs i" using v(1) size by (simp add: view_wf_def)
  have wf: "hreg_wf m'" for m' by (simp add: hreg_wf_def)
  note put = hreg_fields_put [OF i len, of m]
  show ?thesis
    using hreg_SetField [OF L wf i v(1) size, of m] hreg_GetField [OF L wf _ w] i
    by (intro exI [of _ "hreg_put m i (take (2 * hreg_regs i) (view_data v))"] conjI allI impI) (simp_all add: put size)
qed

end
