(* ===== verification/MasterScripts.thy ===== *)
theory MasterScripts
  imports RegisterCommands Printing
begin

text \<open>
  The register part of the master programs on libmodbus: \<open>libmodbus_master.cpp\<close> of
  \<open>examples/libmodbus_tests\<close> and the second half of \<open>LibModbusTestMaster.cpp\<close>. Both are
  sequences of writes, reads and prints. libmodbus is outside the repository: what its calls do
  is a record of functions on a state of its own, a parameter of every definition, and what its
  documentation promises of them is the predicate \<open>documented_bus\<close>, a hypothesis of the lemmas.
\<close>

section \<open>The calls of the library\<close>

record 'w modbus_bus =
  modbus_write_registers :: "'w \<Rightarrow> nat \<Rightarrow> u16 list \<Rightarrow> 'w"
  modbus_write_register :: "'w \<Rightarrow> nat \<Rightarrow> u16 \<Rightarrow> 'w"
  modbus_read_registers :: "'w \<Rightarrow> nat \<Rightarrow> nat \<Rightarrow> 'w \<times> int \<times> u16 list"

section \<open>The functions of the programs\<close>

definition PrintArray :: "'a::len word list \<Rightarrow> string" where
  "PrintArray t = concat (map (\<lambda>pt. digits_in_base 10 (unat pt) @ '','') t) @ [CHR 0x0A]"

text \<open>What is printed on an error goes to another stream and is left out.\<close>

definition ReadPrint ::
  "platform \<Rightarrow> ('w, 'x) modbus_bus_scheme \<Rightarrow> nat \<Rightarrow> nat \<Rightarrow> 'w \<Rightarrow> ('w \<times> int \<times> string) result" where
  "ReadPrint P bus addr cnt w =
     (let (w, rc, reg) = modbus_read_registers bus w addr cnt in
      if rc = -1 then Inr (w, -1, [])
      else rbind (c_assert P (rc = int cnt)) (\<lambda>_. Inr (w, 0, PrintArray reg)))"

text \<open>A program is a list of calls; nothing but \<open>ReadPrint\<close> looks at a result.\<close>

datatype master_call =
    WriteRegisters nat "u16 list"
  | WriteRegister nat u16
  | ReadPrintRegisters nat nat
  | PrintLine string

fun run_call ::
  "platform \<Rightarrow> ('w, 'x) modbus_bus_scheme \<Rightarrow> master_call \<Rightarrow> 'w \<Rightarrow> ('w \<times> string) result" where
  "run_call P bus (WriteRegisters addr ws) w = Inr (modbus_write_registers bus w addr ws, [])"
| "run_call P bus (WriteRegister addr v) w = Inr (modbus_write_register bus w addr v, [])"
| "run_call P bus (ReadPrintRegisters addr cnt) w =
     rbind (ReadPrint P bus addr cnt w) (\<lambda>(w, _, shown). Inr (w, shown))"
| "run_call P bus (PrintLine t) w = Inr (w, t @ [CHR 0x0A])"

fun run_script ::
  "platform \<Rightarrow> ('w, 'x) modbus_bus_scheme \<Rightarrow> master_call list \<Rightarrow> 'w \<Rightarrow> ('w \<times> string) result" where
  "run_script P bus [] w = Inr (w, [])"
| "run_script P bus (call # calls) w =
     rbind (run_call P bus call w) (\<lambda>(w, shown).
     rbind (run_script P bus calls w) (\<lambda>(w, rest). Inr (w, shown @ rest)))"

section \<open>The programs\<close>

definition libmodbus_master_script :: "master_call list" where
  "libmodbus_master_script =
     [PrintLine ''Write Zeros 10-14'', WriteRegisters 10 [0, 0, 0, 0, 0],
      PrintLine ''Read Registers 10-14'', ReadPrintRegisters 10 5,
      PrintLine ''Write Individual Registers 10, 11, & 12'',
      WriteRegister 10 9, WriteRegister 11 10, WriteRegister 12 11,
      PrintLine ''Read Registers 10-14'', ReadPrintRegisters 10 5,
      PrintLine ''Write Zeros 10-14'', WriteRegisters 10 [0, 0, 0, 0, 0],
      PrintLine ''Read Registers 10-14'', ReadPrintRegisters 10 5,
      WriteRegisters 10 [5, 4, 3, 2, 1], ReadPrintRegisters 10 5,
      WriteRegisters 10 [1, 2, 3, 4, 5], ReadPrintRegisters 10 5]"

text \<open>The blocks that \<open>LibModbusTestMaster.cpp\<close> writes and reads back.\<close>

definition main_writes :: "(string \<times> nat \<times> u16 list) list" where
  "main_writes =
     [(''analog_output0'', 0, [0xffff - 0, 0xffff - 1]),
      (''analog_output1'', 2, [0xffff - 0, 0xffff - 1]),
      (''isp_mode'', 4, [0xffff - 0, 0xffff - 1]),
      (''slave_address_unlock'', 6, [0xffff - 0, 0xffff - 1]),
      (''slave_address'', 8, [0xffff - 0]),
      (''clear_faults'', 10, [0xffff - 0, 0xffff - 1]),
      (''start_data_read'', 12, [0xffff - 0, 0xffff - 1])]"

definition write_read_block :: "string \<times> nat \<times> u16 list \<Rightarrow> master_call list" where
  "write_read_block = (\<lambda>(name, addr, regs).
     [PrintLine (''Writing '' @ name), WriteRegisters addr regs,
      PrintLine (''Reading '' @ name), ReadPrintRegisters addr (length regs)])"

definition test_master_script :: "master_call list" where
  "test_master_script =
     PrintLine ''Writing/Reading Holding Registers'' # concat (map write_read_block main_writes)"

section \<open>The same program on a list of registers\<close>

fun call_fits :: "nat \<Rightarrow> master_call \<Rightarrow> bool" where
  "call_fits k (WriteRegisters addr ws) \<longleftrightarrow> 1 \<le> length ws \<and> length ws \<le> 123 \<and> addr + length ws \<le> k"
| "call_fits k (WriteRegister addr v) \<longleftrightarrow> addr < k"
| "call_fits k (ReadPrintRegisters addr cnt) \<longleftrightarrow> 1 \<le> cnt \<and> cnt \<le> 125 \<and> addr + cnt \<le> k"
| "call_fits k (PrintLine t) \<longleftrightarrow> True"

fun script_spec :: "master_call list \<Rightarrow> u16 list \<Rightarrow> u16 list \<times> string" where
  "script_spec [] regs = (regs, [])"
| "script_spec (WriteRegisters addr ws # calls) regs = script_spec calls (overwrite addr ws regs)"
| "script_spec (WriteRegister addr v # calls) regs = script_spec calls (regs[addr := v])"
| "script_spec (ReadPrintRegisters addr cnt # calls) regs =
     (let (regs', rest) = script_spec calls regs in (regs', PrintArray (take cnt (drop addr regs)) @ rest))"
| "script_spec (PrintLine t # calls) regs =
     (let (regs', rest) = script_spec calls regs in (regs', t @ [CHR 0x0A] @ rest))"

section \<open>What a program relies on\<close>

text \<open>
  The documentation of libmodbus: \<open>modbus_write_registers\<close> writes the array to the device's registers
  from the address on, at most 123 of them, \<open>modbus_write_register\<close> writes one, and
  \<open>modbus_read_registers\<close> reads at most 125 and returns their number. Here this is promised of a
  device whose registers are \<open>regs w\<close>, while \<open>usable w\<close>, the connection, holds.
\<close>

definition documented_bus :: "('w, 'x) modbus_bus_scheme \<Rightarrow> ('w \<Rightarrow> bool) \<Rightarrow> ('w \<Rightarrow> u16 list) \<Rightarrow> bool" where
  "documented_bus bus usable regs \<longleftrightarrow>
     (\<forall>w addr ws. usable w \<and> 1 \<le> length ws \<and> length ws \<le> 123 \<and> addr + length ws \<le> length (regs w) \<longrightarrow>
        usable (modbus_write_registers bus w addr ws) \<and>
        regs (modbus_write_registers bus w addr ws) = overwrite addr ws (regs w)) \<and>
     (\<forall>w addr v. usable w \<and> addr < length (regs w) \<longrightarrow>
        usable (modbus_write_register bus w addr v) \<and>
        regs (modbus_write_register bus w addr v) = (regs w)[addr := v]) \<and>
     (\<forall>w addr cnt. usable w \<and> 1 \<le> cnt \<and> cnt \<le> 125 \<and> addr + cnt \<le> length (regs w) \<longrightarrow>
        (\<exists>w'. modbus_read_registers bus w addr cnt = (w', int cnt, take cnt (drop addr (regs w))) \<and>
           usable w' \<and> regs w' = regs w))"

lemma documented_busD:
  assumes "documented_bus bus usable regs" and "usable w"
  shows "1 \<le> length ws \<Longrightarrow> length ws \<le> 123 \<Longrightarrow> addr + length ws \<le> length (regs w) \<Longrightarrow>
      usable (modbus_write_registers bus w addr ws) \<and>
      regs (modbus_write_registers bus w addr ws) = overwrite addr ws (regs w)"
    and "addr < length (regs w) \<Longrightarrow> usable (modbus_write_register bus w addr v) \<and>
      regs (modbus_write_register bus w addr v) = (regs w)[addr := v]"
    and "1 \<le> cnt \<Longrightarrow> cnt \<le> 125 \<Longrightarrow> addr + cnt \<le> length (regs w) \<Longrightarrow>
      \<exists>w'. modbus_read_registers bus w addr cnt = (w', int cnt, take cnt (drop addr (regs w))) \<and>
        usable w' \<and> regs w' = regs w"
  using assms unfolding documented_bus_def by blast+

lemma ReadPrint_spec:
  assumes bus: "documented_bus bus usable regs" and "usable w" and "1 \<le> cnt" "cnt \<le> 125" "addr + cnt \<le> length (regs w)"
  shows "\<exists>w'. ReadPrint P bus addr cnt w = Inr (w', 0, PrintArray (take cnt (drop addr (regs w)))) \<and>
    usable w' \<and> regs w' = regs w"
proof -
  obtain w' where "modbus_read_registers bus w addr cnt = (w', int cnt, take cnt (drop addr (regs w)))"
    "usable w'" "regs w' = regs w"
    using documented_busD(3) [OF assms] by blast
  then show ?thesis by (simp add: ReadPrint_def)
qed

lemma run_script_spec:
  assumes bus: "documented_bus bus usable regs" and "usable w" and "list_all (call_fits (length (regs w))) calls"
  shows "\<exists>w'. run_script P bus calls w = Inr (w', snd (script_spec calls (regs w))) \<and>
    usable w' \<and> regs w' = fst (script_spec calls (regs w))"
  using assms(2,3)
proof (induction calls arbitrary: w)
  case (Cons call calls)
  show ?case
  proof (cases call)
    case (WriteRegisters addr ws)
    with Cons.prems documented_busD(1) [OF bus, of w ws addr] Cons.IH [of "modbus_write_registers bus w addr ws"]
    show ?thesis by auto
  next
    case (WriteRegister addr v)
    with Cons.prems documented_busD(2) [OF bus, of w addr v] Cons.IH [of "modbus_write_register bus w addr v"]
    show ?thesis by auto
  next
    case (ReadPrintRegisters addr cnt)
    with Cons.prems obtain w1 where
      "ReadPrint P bus addr cnt w = Inr (w1, 0, PrintArray (take cnt (drop addr (regs w))))"
      "usable w1" "regs w1 = regs w"
      using ReadPrint_spec [OF bus, of w cnt addr P] by auto
    with ReadPrintRegisters Cons.prems Cons.IH [of w1] show ?thesis
      by (auto split: prod.splits)
  next
    case (PrintLine t)
    with Cons.prems Cons.IH [of w] show ?thesis by (auto split: prod.splits)
  qed
qed simp

section \<open>What the programs print\<close>

lemma script_spec_append:
  "script_spec (xs @ ys) regs =
   (let (regs1, out1) = script_spec xs regs; (regs2, out2) = script_spec ys regs1 in (regs2, out1 @ out2))"
proof (induction xs arbitrary: regs)
  case (Cons x xs)
  then show ?case by (cases x) (simp_all add: Let_def split: prod.splits)
qed simp

lemma overwrite_update:
  "k + length ys \<le> length xs \<Longrightarrow> i < length ys \<Longrightarrow>
   (overwrite k ys xs)[k + i := v] = overwrite k (ys[i := v]) xs"
  by (simp add: overwrite_def list_update_append)

lemma overwrite_again:
  "k + length ys \<le> length xs \<Longrightarrow> length zs = length ys \<Longrightarrow>
   overwrite k zs (overwrite k ys xs) = overwrite k zs xs"
  by (simp add: overwrite_def)

text \<open>Written blocks are printed as they were written.\<close>

lemma write_read_block_spec:
  assumes "addr + length ws \<le> length regs"
  shows "script_spec (write_read_block (name, addr, ws)) regs =
    (overwrite addr ws regs,
     ''Writing '' @ name @ [CHR 0x0A] @ ''Reading '' @ name @ [CHR 0x0A] @ PrintArray ws)"
  using assms by (simp add: write_read_block_def)

lemma write_read_blocks_spec:
  assumes "\<forall>(name, addr, ws) \<in> set blocks. addr + length ws \<le> length regs"
  shows "snd (script_spec (concat (map write_read_block blocks)) regs) =
    concat (map (\<lambda>(name, addr, ws).
      ''Writing '' @ name @ [CHR 0x0A] @ ''Reading '' @ name @ [CHR 0x0A] @ PrintArray ws) blocks)"
  using assms
proof (induction blocks arbitrary: regs)
  case (Cons block blocks)
  obtain name addr ws where block: "block = (name, addr, ws)" by (cases block)
  have "addr + length ws \<le> length regs" using Cons.prems block by simp
  then show ?case
    using Cons.IH [of "overwrite addr ws regs"] Cons.prems block
    by (auto simp: script_spec_append write_read_block_spec split: prod.splits)
qed simp

lemma write_read_blocks_regs:
  assumes "\<forall>(name, addr, ws) \<in> set blocks. addr + length ws \<le> length regs"
  shows "fst (script_spec (concat (map write_read_block blocks)) regs) =
    fold (\<lambda>(name, addr, ws). overwrite addr ws) blocks regs"
  using assms
proof (induction blocks arbitrary: regs)
  case (Cons block blocks)
  obtain name addr ws where block: "block = (name, addr, ws)" by (cases block)
  have "addr + length ws \<le> length regs" using Cons.prems block by simp
  then show ?case
    using Cons.IH [of "overwrite addr ws regs"] Cons.prems block
    by (auto simp: script_spec_append write_read_block_spec split: prod.splits)
qed simp

lemma test_master_output:
  assumes "14 \<le> length regs"
  shows "snd (script_spec test_master_script regs) =
    ''Writing/Reading Holding Registers'' @ [CHR 0x0A] @
    concat (map (\<lambda>(name, addr, ws).
      ''Writing '' @ name @ [CHR 0x0A] @ ''Reading '' @ name @ [CHR 0x0A] @ PrintArray ws) main_writes)"
proof -
  have "\<forall>(name, addr, ws) \<in> set main_writes. addr + length ws \<le> length regs"
    using assms by (auto simp: main_writes_def)
  from write_read_blocks_spec [OF this] show ?thesis
    by (simp add: test_master_script_def split_def)
qed

lemma scripts_fit:
  "15 \<le> k \<Longrightarrow> list_all (call_fits k) libmodbus_master_script"
  "14 \<le> k \<Longrightarrow> list_all (call_fits k) test_master_script"
  by (simp_all add: libmodbus_master_script_def test_master_script_def main_writes_def write_read_block_def)

definition text_lines :: "string list \<Rightarrow> string" where
  "text_lines ls = concat (map (\<lambda>l. l @ [CHR 0x0A]) ls)"

lemma text_lines_simps [simp]:
  "text_lines [] = []" "text_lines (l # ls) = l @ [CHR 0x0A] @ text_lines ls"
  by (simp_all add: text_lines_def)

lemma printed_arrays:
  "PrintArray [0, 0, 0, 0, 0 :: u16] = ''0,0,0,0,0,'' @ [CHR 0x0A]"
  "PrintArray [9, 10, 11, 0, 0 :: u16] = ''9,10,11,0,0,'' @ [CHR 0x0A]"
  "PrintArray [5, 4, 3, 2, 1 :: u16] = ''5,4,3,2,1,'' @ [CHR 0x0A]"
  "PrintArray [1, 2, 3, 4, 5 :: u16] = ''1,2,3,4,5,'' @ [CHR 0x0A]"
  "PrintArray [65535, 65534 :: u16] = ''65535,65534,'' @ [CHR 0x0A]"
  "PrintArray [65535 :: u16] = ''65535,'' @ [CHR 0x0A]"
  by (simp_all add: PrintArray_def digits_in_base.simps)

lemma script_spec_steps:
  "script_spec (WriteRegisters addr ws # calls) regs = script_spec calls (overwrite addr ws regs)"
  "script_spec (WriteRegister addr v # calls) regs = script_spec calls (regs[addr := v])"
  "script_spec (ReadPrintRegisters addr cnt # calls) regs =
     map_prod (\<lambda>x. x) ((@) (PrintArray (take cnt (drop addr regs)))) (script_spec calls regs)"
  "script_spec (PrintLine t # calls) regs = map_prod (\<lambda>x. x) ((@) (t @ [CHR 0x0A])) (script_spec calls regs)"
  "script_spec [] regs = (regs, [])"
  by (simp_all add: map_prod_def split_def Let_def)

lemma libmodbus_master_spec:
  assumes "15 \<le> length regs"
  shows "script_spec libmodbus_master_script regs = (overwrite 10 [1, 2, 3, 4, 5] regs, text_lines
    [''Write Zeros 10-14'', ''Read Registers 10-14'', ''0,0,0,0,0,'',
     ''Write Individual Registers 10, 11, & 12'', ''Read Registers 10-14'', ''9,10,11,0,0,'',
     ''Write Zeros 10-14'', ''Read Registers 10-14'', ''0,0,0,0,0,'', ''5,4,3,2,1,'', ''1,2,3,4,5,''])"
proof -
  have block: "take 5 (drop 10 (overwrite 10 ws regs)) = ws" if "length ws = 5" for ws
    using take_drop_overwrite [of 10 ws regs] that assms by simp
  have again: "overwrite 10 ws (overwrite 10 vs regs) = overwrite 10 ws regs" if "length vs = 5" "length ws = 5" for vs ws
    using overwrite_again [of 10 vs regs ws] that assms by simp
  have "(overwrite 10 [0, 0, 0, 0, 0] regs)[10 := 9, 11 := 10, 12 := 11] = overwrite 10 [9, 10, 11, 0, 0] regs"
    using assms overwrite_update [of 10 _ regs 0] overwrite_update [of 10 _ regs 1] overwrite_update [of 10 _ regs 2]
    by simp
  note single = this
  have five: "length [a, b, c, d, e] = 5" for a b c d e :: u16 by simp
  show ?thesis
    unfolding libmodbus_master_script_def
    by (simp only: script_spec_steps single again [OF five five] block [OF five] printed_arrays map_prod_simp
        text_lines_simps append_assoc append_Nil2)
qed

lemma test_master_spec:
  assumes "14 \<le> length regs"
  shows "script_spec test_master_script regs =
    (overwrite 10 [65535, 65534, 65535, 65534]
       (overwrite 0 [65535, 65534, 65535, 65534, 65535, 65534, 65535, 65534, 65535] regs), text_lines
    [''Writing/Reading Holding Registers'',
     ''Writing analog_output0'', ''Reading analog_output0'', ''65535,65534,'',
     ''Writing analog_output1'', ''Reading analog_output1'', ''65535,65534,'',
     ''Writing isp_mode'', ''Reading isp_mode'', ''65535,65534,'',
     ''Writing slave_address_unlock'', ''Reading slave_address_unlock'', ''65535,65534,'',
     ''Writing slave_address'', ''Reading slave_address'', ''65535,'',
     ''Writing clear_faults'', ''Reading clear_faults'', ''65535,65534,'',
     ''Writing start_data_read'', ''Reading start_data_read'', ''65535,65534,''])"
proof -
  let ?a = "[65535, 65534] :: u16 list"
  have join: "overwrite k' ys (overwrite k xs rs) = overwrite k (xs @ ys) rs"
    if "k' = k + length xs" "k' \<le> 14" "14 \<le> length rs" for k k' and xs ys rs :: "u16 list"
    using overwrite_append [of k xs rs ys] that by simp
  have regs: "overwrite 12 ?a (overwrite 10 ?a (overwrite 8 [65535] (overwrite 6 ?a (overwrite 4 ?a
      (overwrite 2 ?a (overwrite 0 ?a regs)))))) = overwrite 10 [65535, 65534, 65535, 65534]
       (overwrite 0 [65535, 65534, 65535, 65534, 65535, 65534, 65535, 65534, 65535] regs)"
    using assms by (simp add: join)
  have "snd (script_spec test_master_script regs) = text_lines
    [''Writing/Reading Holding Registers'',
     ''Writing analog_output0'', ''Reading analog_output0'', ''65535,65534,'',
     ''Writing analog_output1'', ''Reading analog_output1'', ''65535,65534,'',
     ''Writing isp_mode'', ''Reading isp_mode'', ''65535,65534,'',
     ''Writing slave_address_unlock'', ''Reading slave_address_unlock'', ''65535,65534,'',
     ''Writing slave_address'', ''Reading slave_address'', ''65535,'',
     ''Writing clear_faults'', ''Reading clear_faults'', ''65535,65534,'',
     ''Writing start_data_read'', ''Reading start_data_read'', ''65535,65534,'']"
    unfolding test_master_output [OF assms] by (simp add: main_writes_def printed_arrays)
  moreover have "fst (script_spec test_master_script regs) = overwrite 10 [65535, 65534, 65535, 65534]
       (overwrite 0 [65535, 65534, 65535, 65534, 65535, 65534, 65535, 65534, 65535] regs)"
    unfolding regs [symmetric] using write_read_blocks_regs [of main_writes regs] assms
    by (simp add: test_master_script_def split_def) (simp add: main_writes_def)
  ultimately show ?thesis by (simp add: prod_eq_iff)
qed

text \<open>
  C13: over any libmodbus that keeps its documentation, connected to a device with at least 15 holding
  registers, the register part of \<open>libmodbus_master.cpp\<close> prints the zeros, single values and arrays it
  has written, in these lines, and leaves registers 10 to 14 with its last array and the others as
  they were; that of \<open>LibModbusTestMaster.cpp\<close> prints for each field of the holding registers what it
  has written, and leaves registers 0 to 8 and 10 to 13 with it. Neither stops at its assertion.
\<close>

theorem master_scripts_print:
  assumes bus: "documented_bus bus usable regs" and w: "usable w" "15 \<le> length (regs w)"
  shows "(\<exists>w'. run_script P bus libmodbus_master_script w = Inr (w', text_lines
        [''Write Zeros 10-14'', ''Read Registers 10-14'', ''0,0,0,0,0,'',
         ''Write Individual Registers 10, 11, & 12'', ''Read Registers 10-14'', ''9,10,11,0,0,'',
         ''Write Zeros 10-14'', ''Read Registers 10-14'', ''0,0,0,0,0,'', ''5,4,3,2,1,'', ''1,2,3,4,5,'']) \<and>
      usable w' \<and> regs w' = overwrite 10 [1, 2, 3, 4, 5] (regs w)) \<and>
    (\<exists>w'. run_script P bus test_master_script w = Inr (w', text_lines
        [''Writing/Reading Holding Registers'',
         ''Writing analog_output0'', ''Reading analog_output0'', ''65535,65534,'',
         ''Writing analog_output1'', ''Reading analog_output1'', ''65535,65534,'',
         ''Writing isp_mode'', ''Reading isp_mode'', ''65535,65534,'',
         ''Writing slave_address_unlock'', ''Reading slave_address_unlock'', ''65535,65534,'',
         ''Writing slave_address'', ''Reading slave_address'', ''65535,'',
         ''Writing clear_faults'', ''Reading clear_faults'', ''65535,65534,'',
         ''Writing start_data_read'', ''Reading start_data_read'', ''65535,65534,'']) \<and>
      usable w' \<and> regs w' = overwrite 10 [65535, 65534, 65535, 65534]
        (overwrite 0 [65535, 65534, 65535, 65534, 65535, 65534, 65535, 65534, 65535] (regs w)))"
proof -
  have "14 \<le> length (regs w)" using w(2) by simp
  then show ?thesis
    using run_script_spec [OF bus w(1) scripts_fit(1) [OF w(2)], of P]
      run_script_spec [OF bus w(1) scripts_fit(2), of P]
    unfolding libmodbus_master_spec [OF w(2)] by (simp only: test_master_spec fst_conv snd_conv)
qed

text \<open>A library whose connection is the list of registers itself.\<close>

definition list_bus :: "u16 list modbus_bus" where
  "list_bus = \<lparr>modbus_write_registers = (\<lambda>w addr ws. overwrite addr ws w),
     modbus_write_register = (\<lambda>w addr v. w[addr := v]),
     modbus_read_registers = (\<lambda>w addr cnt. (w, int cnt, take cnt (drop addr w)))\<rparr>"

lemma list_bus_documented: "documented_bus list_bus (\<lambda>_. True) (\<lambda>w. w)"
  by (simp add: documented_bus_def list_bus_def)

theorem master_scripts_print_witness:
  "(\<exists>shown. run_script (msb_platform True) list_bus libmodbus_master_script (replicate 16 7) =
      Inr (replicate 10 7 @ [1, 2, 3, 4, 5, 7], shown)) \<and>
   (\<exists>shown. run_script (msb_platform True) list_bus test_master_script (replicate 16 7) =
      Inr ([65535, 65534, 65535, 65534, 65535, 65534, 65535, 65534, 65535, 7, 65535, 65534, 65535, 65534, 7, 7], shown))"
proof -
  have regs: "overwrite 10 [1, 2, 3, 4, 5] (replicate 16 7) = replicate 10 7 @ [1, 2, 3, 4, 5, 7 :: u16]"
    "overwrite 10 [65535, 65534, 65535, 65534]
        (overwrite 0 [65535, 65534, 65535, 65534, 65535, 65534, 65535, 65534, 65535] (replicate 16 7)) =
      [65535, 65534, 65535, 65534, 65535, 65534, 65535, 65534, 65535, 7, 65535, 65534, 65535, 65534, 7, 7 :: u16]"
    by code_simp+
  show ?thesis
    using master_scripts_print [OF list_bus_documented, of "replicate 16 7" "msb_platform True"] unfolding regs by auto
qed

end
