(* ===== verification/MasterProgram.thy ===== *)
theory MasterProgram
  imports ConnectedMaps MappedStore MasterScripts
begin

text \<open>
  \<open>examples/ConnectedDevice/LibmodbusMaster/source/LibModbusTestMaster.cpp\<close>: a master that reads
  the slave's input registers field by field with libmodbus, a library outside the repository,
  and puts them into an \<open>InputRegisters\<close> struct of its own. What a read leaves in the buffer is a
  parameter, and so is the memory controller: \<open>MappedRegisterDataStore\<close> needs tables of registers that
  \<open>InputRegistersWrapper\<close> does not have. What the program then does with the holding registers is
  \<open>test_master_script\<close>.
\<close>

section \<open>Printing a value\<close>

text \<open>
  \<open>operator<<\<close> on a byte is a character, on a number its decimal digits. The struct's signed
  numbers are words here and are read as signed when they are printed.
\<close>

definition print_chars :: "u8 ArrayView \<Rightarrow> string result" where
  "print_chars value = rbind (view_elems value) (\<lambda>pts.
     Inr (concat (map (\<lambda>pt. [char_of (unat pt), CHR '' '']) pts)))"

definition print_unsigned :: "'a::len word \<Rightarrow> string result" where
  "print_unsigned value = Inr (digits_in_base 10 (unat value))"

definition print_signed :: "'a::len word \<Rightarrow> string result" where
  "print_signed value =
     Inr (if sint value < 0 then ''-'' @ digits_in_base 10 (nat (- sint value))
          else digits_in_base 10 (nat (sint value)))"

section \<open>The reads of the program\<close>

text \<open>
  One block of \<open>main\<close>: the registers of a field are read into an array, made into bytes and put
  into the struct, and the field is taken out of the struct again and printed. The result of the
  read is not looked at.
\<close>

type_synonym field_read = "string \<times> nat \<times> nat \<times> (InputRegisters \<Rightarrow> string result)"

fun ReadInputField ::
  "platform \<Rightarrow> InputRegisters memory_controller \<Rightarrow> (nat \<Rightarrow> nat \<Rightarrow> u16 list) \<Rightarrow> field_read \<Rightarrow>
   InputRegisters MappedRegisterDataStore \<Rightarrow> (InputRegisters MappedRegisterDataStore \<times> string) result" where
  "ReadInputField P T modbus_read_input_registers (name, addr, count, print_value) inregs =
     (let read_buffer = modbus_read_input_registers addr count in
      rbind (MakeRegistersToBytes P read_buffer (view_of (replicate (count * 2) 0))) (\<lambda>u8array.
      rbind (SetFieldFromAddress T inregs (word_of_nat addr) u8array) (\<lambda>inregs.
      rbind (print_value (the_controller inregs)) (\<lambda>value.
      Inr (inregs, ''Reading '' @ name @ [CHR 0x0A] @ value @ [CHR 0x0A, CHR 0x0A])))))"

definition main_reads_strings :: "field_read list" where
  "main_reads_strings =
     [(''version'', 0, 32, \<lambda>m. print_chars (ireg_get_version m)),
      (''firmware_version'', 32, 32, \<lambda>m. print_chars (ireg_get_firmware_version m)),
      (''compile_date'', 64, 32, \<lambda>m. print_chars (ireg_get_compile_date m)),
      (''compile_time'', 96, 32, \<lambda>m. print_chars (ireg_get_compile_time m)),
      (''serial_number'', 128, 20, \<lambda>m. print_chars (ireg_get_serial_number m))]"

definition main_reads_numbers :: "field_read list" where
  "main_reads_numbers =
     [(''fault_status'', 148, 1, \<lambda>m. print_unsigned (ireg_get_fault_status m)),
      (''p5_micro_volts'', 150, 2, \<lambda>m. print_signed (ireg_get_p5_micro_volts m)),
      (''p5_reading'', 152, 2, \<lambda>m. print_unsigned (ireg_get_p5_reading m)),
      (''p23_micro_volts'', 154, 2, \<lambda>m. print_signed (ireg_get_p23_micro_volts m)),
      (''p23_reading'', 156, 2, \<lambda>m. print_unsigned (ireg_get_p23_reading m)),
      (''vlo_micro_volts'', 158, 2, \<lambda>m. print_signed (ireg_get_vlo_micro_volts m)),
      (''vlo_reading'', 160, 2, \<lambda>m. print_unsigned (ireg_get_vlo_reading m)),
      (''thermistor_temp_spi'', 162, 2, \<lambda>m. print_signed (ireg_get_thermistor_temp_spi m)),
      (''thermistor_temp_mcu'', 164, 2, \<lambda>m. print_signed (ireg_get_thermistor_temp_mcu m)),
      (''data_frequency'', 166, 2, \<lambda>m. print_unsigned (ireg_get_data_frequency m)),
      (''p3_3_micro_volts'', 168, 2, \<lambda>m. print_signed (ireg_get_p3_3_micro_volts m)),
      (''p3_3_reading'', 170, 2, \<lambda>m. print_unsigned (ireg_get_p3_3_reading m))]"

definition main_reads :: "field_read list" where
  "main_reads = main_reads_strings @ main_reads_numbers"

fun ReadInputFields ::
  "platform \<Rightarrow> InputRegisters memory_controller \<Rightarrow> (nat \<Rightarrow> nat \<Rightarrow> u16 list) \<Rightarrow> field_read list \<Rightarrow>
   InputRegisters MappedRegisterDataStore \<Rightarrow> (InputRegisters MappedRegisterDataStore \<times> string) result" where
  "ReadInputFields P T read [] inregs = Inr (inregs, [])"
| "ReadInputFields P T read (field # rest) inregs =
     rbind (ReadInputField P T read field inregs) (\<lambda>(inregs, shown).
     rbind (ReadInputFields P T read rest inregs) (\<lambda>(inregs, more).
     Inr (inregs, shown @ more)))"

text \<open>What the block of a field prints when the master's struct is \<open>m\<close>.\<close>

fun field_text :: "InputRegisters \<Rightarrow> field_read \<Rightarrow> string" where
  "field_text m (name, addr, count, print_value) =
     ''Reading '' @ name @ [CHR 0x0A] @ (case print_value m of Inr value \<Rightarrow> value | Inl _ \<Rightarrow> []) @
     [CHR 0x0A, CHR 0x0A]"

text \<open>Every access of the program is one whole field of the map it goes to.\<close>

lemma map_pair_zip: "map (\<lambda>i. (f i, h i)) xs = zip (map f xs) (map h xs)"
  by (induction xs) simp_all

lemmas main_reads_defs = main_reads_def main_reads_strings_def main_reads_numbers_def

lemma length_main_reads: "length main_reads = 17"
  by (simp add: main_reads_defs)

lemma main_reads_fields:
  "map (\<lambda>(_, addr, count, _). (addr, count)) main_reads = map (\<lambda>i. (ireg_start i, ireg_regs i)) [0..<17]"
  by (simp only: map_pair_zip ireg_table) (simp add: main_reads_defs)

lemma main_reads_nth:
  assumes "i < 17"
  obtains name print_value where "main_reads ! i = (name, ireg_start i, ireg_regs i, print_value)"
proof -
  have "(\<lambda>(_, addr, count, _). (addr, count)) (main_reads ! i) = (ireg_start i, ireg_regs i)"
    using arg_cong [OF main_reads_fields, of "\<lambda>xs. xs ! i"] assms by (simp add: length_main_reads)
  with that show ?thesis by (cases "main_reads ! i") auto
qed

lemma main_writes_fields:
  "map (\<lambda>(_, addr, regs). (addr, length regs)) main_writes = map (\<lambda>i. (hreg_start i, hreg_regs i)) [0..<7]"
  by (simp only: map_pair_zip hreg_table) (simp add: main_writes_def)

text \<open>The text of a field depends on nothing but the field, and printing it does not fault.\<close>

lemma print_value_field:
  assumes i: "i < 17" and m: "ireg_wf m" and m': "ireg_fields m' ! i = ireg_fields m ! i" "ireg_wf m'"
  defines "print_value \<equiv> snd (snd (snd (main_reads ! i)))"
  shows "print_value m' = print_value m \<and> (\<exists>t. print_value m = Inr t)"
  using ireg_cases [OF i] m m'
  by (elim disjE)
    (simp_all add: print_value_def main_reads_defs ireg_fields_def ireg_accessors print_chars_def
      print_unsigned_def print_signed_def view_elems_def view_wf_def ireg_wf_def msb_bytes_inject)

section \<open>The copy\<close>

text \<open>
  With a memory controller whose fields are those of the struct, at the registers where they lie in
  it, and a library whose reads give the fields of a struct \<open>m\<close>, the program's struct becomes \<open>m\<close>.
\<close>

lemma ReadInputFields_append:
  "ReadInputFields P T read (xs @ ys) s =
   rbind (ReadInputFields P T read xs s) (\<lambda>(s, shown).
   rbind (ReadInputFields P T read ys s) (\<lambda>(s, more). Inr (s, shown @ more)))"
proof (induction xs arbitrary: s)
  case (Cons x xs)
  then show ?case
    by (cases "ReadInputField P T read x s") (auto simp: rbind_def split: sum.splits prod.splits)
qed (simp add: rbind_def split: sum.splits prod.splits)

lemma ReadInputField_spec:
  assumes T: "memory_map T ireg_wf (\<lambda>m i. ireg_fields m ! i) ireg_put 17 ireg_start ireg_regs tolerant" and wf: "ireg_wf (the_controller s)" "ireg_wf m" and i: "i < 17"
    and read: "reg_bytes P (read (ireg_start i) (ireg_regs i)) = ireg_fields m ! i"
  shows "ReadInputField P T read (main_reads ! i) s =
    Inr (\<lparr>new_data = True, the_controller = ireg_put (the_controller s) i (ireg_fields m ! i)\<rparr>,
      field_text m (main_reads ! i))"
proof -
  let ?ws = "read (ireg_start i) (ireg_regs i)" and ?bs = "ireg_fields m ! i"
  let ?m = "ireg_put (the_controller s) i ?bs"
  obtain name print_value where field: "main_reads ! i = (name, ireg_start i, ireg_regs i, print_value)"
    using main_reads_nth [OF i] .
  note bs = length_ireg_field [OF wf(2) i]
  have len: "length ?ws = ireg_regs i" using read bs by (metis length_reg_bytes mult_cancel1 zero_neq_numeral)
  have "MakeRegistersToBytes P ?ws (view_of (replicate (ireg_regs i * 2) 0)) = Inr (view_of ?bs)"
    using MakeRegistersToBytes_spec [of ?ws "view_of (replicate (ireg_regs i * 2) 0)" P] read bs len
    by (simp add: overwrite_0 view_of_def view_wf_def)
  moreover have "SetFieldFromAddress T s (word_of_nat (ireg_start i)) (view_of ?bs) =
      Inr \<lparr>new_data = True, the_controller = ?m\<rparr>"
    using memory_map.SetFieldFromAddress_start [OF T wf(1) i, of "view_of ?bs"] memory_map.fitsI [OF T, of "view_of ?bs" i] bs
    by simp
  moreover have "ireg_fields ?m ! i = ?bs" "ireg_wf ?m"
    using ireg_fields_put [OF i bs, of "the_controller s"] ireg_wf_put [OF wf(1) i bs] i
    by (simp_all add: length_ireg_fields)
  then obtain t where "print_value ?m = Inr t" "print_value m = Inr t"
    using print_value_field [OF i wf(2), of ?m] by (auto simp: field)
  ultimately show ?thesis by (simp add: field Let_def)
qed

lemma ReadInputFields_prefix:
  assumes T: "memory_map T ireg_wf (\<lambda>m i. ireg_fields m ! i) ireg_put 17 ireg_start ireg_regs tolerant" and m: "ireg_wf m" and s: "ireg_wf (the_controller s)"
    and read: "\<And>i. i < 17 \<Longrightarrow> reg_bytes P (read (ireg_start i) (ireg_regs i)) = ireg_fields m ! i"
    and k: "k \<le> 17"
  shows "\<exists>s'. ReadInputFields P T read (take k main_reads) s =
      Inr (s', concat (map (field_text m) (take k main_reads))) \<and>
    ireg_wf (the_controller s') \<and> (0 < k \<longrightarrow> new_data s') \<and>
    ireg_fields (the_controller s') =
      take k (ireg_fields m) @ drop k (ireg_fields (the_controller s))"
  using k
proof (induction k)
  case 0
  then show ?case using s by simp
next
  case (Suc k)
  then obtain s' where s': "ReadInputFields P T read (take k main_reads) s =
      Inr (s', concat (map (field_text m) (take k main_reads)))"
    "ireg_wf (the_controller s')"
    "ireg_fields (the_controller s') = take k (ireg_fields m) @ drop k (ireg_fields (the_controller s))"
    by auto
  have k: "k < 17" using Suc.prems by simp
  note len = length_ireg_field [OF m k]
  note step = ReadInputField_spec [where P = P and read = read, OF T s'(2) m k read [OF k]]
  have "ireg_fields (ireg_put (the_controller s') k (ireg_fields m ! k)) =
      take (Suc k) (ireg_fields m) @ drop (Suc k) (ireg_fields (the_controller s))"
    using k unfolding ireg_fields_put [OF k len] s'(3)
    by (simp add: list_update_append take_Suc_conv_app_nth Cons_nth_drop_Suc [symmetric])
  moreover have "ireg_wf (ireg_put (the_controller s') k (ireg_fields m ! k))"
    using ireg_wf_put [OF s'(2) k len] .
  moreover have "take (Suc k) main_reads = take k main_reads @ [main_reads ! k]"
    using k by (simp add: take_Suc_conv_app_nth length_main_reads)
  ultimately show ?case using s'(1) step by (simp add: ReadInputFields_append)
qed

lemma ReadInputFields_main:
  assumes T: "memory_map T ireg_wf (\<lambda>m i. ireg_fields m ! i) ireg_put 17 ireg_start ireg_regs tolerant" and m: "ireg_wf m"
    and read: "\<And>i. i < 17 \<Longrightarrow> reg_bytes P (read (ireg_start i) (ireg_regs i)) = ireg_fields m ! i"
  shows "ReadInputFields P T read main_reads (MappedRegisterDataStore_init InputRegisters_init) =
    Inr (\<lparr>new_data = True, the_controller = m\<rparr>, concat (map (field_text m) main_reads))"
proof -
  have "ireg_wf (the_controller (MappedRegisterDataStore_init InputRegisters_init))"
    by (simp add: MappedRegisterDataStore_init_def InputRegisters_init_wf)
  from ReadInputFields_prefix [OF T m this read, of 17] obtain s' where
    s': "ReadInputFields P T read main_reads (MappedRegisterDataStore_init InputRegisters_init) =
        Inr (s', concat (map (field_text m) main_reads))"
      "new_data s'" "ireg_fields (the_controller s') = ireg_fields m"
    by (auto simp: length_main_reads)
  from ireg_fields_inject [OF s'(3)] have "the_controller s' = m" .
  with s' show ?thesis by simp
qed

end
