(* ===== verification/CommandLine.thy ===== *)
theory CommandLine
  imports ConnectedMaps MappedStore SerialSnooper
begin

text \<open>
  The command lines of the example programs: what \<open>main\<close> of \<open>examples/LinuxSlave\<close>,
  \<open>examples/ConnectedDevice/LinuxSlave\<close> and \<open>examples/SerialSnooper\<close> does before its loop, with
  \<open>atoi\<close> and \<open>strcpy\<close> of the C library as they use them, and the snooper's loop with the
  registers it prints now and then. \<open>argv\<close> is the list of arguments, the program's name first.
\<close>

section \<open>The C library\<close>

definition is_space :: "char \<Rightarrow> bool" where
  "is_space c \<longleftrightarrow> c \<in> {CHR '' '', CHR 0x09, CHR 0x0A, CHR 0x0B, CHR 0x0C, CHR 0x0D}"

definition digit_value :: "char \<Rightarrow> int" where
  "digit_value c = int (of_char c) - 48"

definition is_digit :: "char \<Rightarrow> bool" where
  "is_digit c \<longleftrightarrow> 0 \<le> digit_value c \<and> digit_value c \<le> 9"

fun digits_value :: "int \<Rightarrow> string \<Rightarrow> int" where
  "digits_value n [] = n"
| "digits_value n (c # cs) = (if is_digit c then digits_value (10 * n + digit_value c) cs else n)"

definition atoi :: "string \<Rightarrow> int" where
  "atoi s =
     (case dropWhile is_space s of
        [] \<Rightarrow> 0
      | c # cs \<Rightarrow> if c = CHR ''-'' then - digits_value 0 cs
                  else if c = CHR ''+'' then digits_value 0 cs else digits_value 0 (c # cs))"

text \<open>\<open>strcpy\<close> writes the characters and a terminating zero.\<close>

definition strcpy_fits :: "nat \<Rightarrow> string \<Rightarrow> unit result" where
  "strcpy_fits capacity s = (if length s + 1 \<le> capacity then Inr () else Inl OutOfBounds)"

section \<open>Before the loop\<close>

text \<open>A program ends with an exit code, or goes on to its loop.\<close>

datatype 'a startup = Exits int string | Loops 'a string

definition LinuxSlave_main :: "platform \<Rightarrow> string list \<Rightarrow> (u8 \<times> string) startup result" where
  "LinuxSlave_main P argv =
     (let address = 246 :: u8 in
      if length argv < 2
      then Inr (Exits 1 (''Requires device port as argument, exiting'' @ [CHR 0x0A]))
      else
        let (address, shown) =
          (if length argv > 2
           then let address = word_of_int (atoi (argv ! 2)) :: u8
                in (address, ''Address: '' @ digits_in_base 10 (unat address) @ [CHR 0x0A])
           else (address, [])) in
        rbind (c_assert P (2 \<le> length argv)) (\<lambda>_.
        let shown = shown @ argv ! 1 @ [CHR 0x0A] in
        rbind (strcpy_fits 1024 (argv ! 1)) (\<lambda>_.
        Inr (Loops (address, argv ! 1) shown))))"

definition Snooper_main :: "platform \<Rightarrow> string list \<Rightarrow> string startup result" where
  "Snooper_main P argv =
     (if length argv < 2
      then Inr (Exits 1 (''Requires device port as argument, exiting'' @ [CHR 0x0A]))
      else
        rbind (c_assert P (2 \<le> length argv)) (\<lambda>_.
        let shown = argv ! 1 @ [CHR 0x0A] in
        rbind (strcpy_fits 1024 (argv ! 1)) (\<lambda>_. Inr (Loops (argv ! 1) shown))))"

text \<open>The driver that \<open>main\<close> hands to its loop, over the stores \<open>h\<close> and \<open>i\<close>.\<close>

definition LinuxSlave_program ::
  "platform \<Rightarrow> Crc16 \<Rightarrow> 'h \<Rightarrow> 'i \<Rightarrow> timeval \<Rightarrow> string list \<Rightarrow> ('h, 'i) LinuxSlave startup result" where
  "LinuxSlave_program P crcf h i now argv =
     rbind (LinuxSlave_main P argv) (\<lambda>start.
     Inr (case start of
            Exits code shown \<Rightarrow> Exits code shown
          | Loops (address, device) shown \<Rightarrow> Loops (LinuxSlave_init crcf address h i now) shown))"

text \<open>
  The same command line in front of the driver of the connected device, whose stores are the structs
  \<open>HoldingRegisters\<close> and \<open>InputRegisters\<close>, and the snooper's.
\<close>

type_synonym connected_driver =
  "(HoldingRegisters MappedRegisterDataStore, InputRegisters MappedRegisterDataStore) LinuxSlave"

definition connected_init :: "Crc16 \<Rightarrow> u8 \<Rightarrow> timeval \<Rightarrow> connected_driver" where
  "connected_init crcf addr now =
     LinuxSlave_init crcf addr (MappedRegisterDataStore_init HoldingRegisters_init)
       (MappedRegisterDataStore_init InputRegisters_init) now"

definition connected_program ::
  "platform \<Rightarrow> Crc16 \<Rightarrow> timeval \<Rightarrow> string list \<Rightarrow> connected_driver startup result" where
  "connected_program P crcf now argv =
     rbind (LinuxSlave_main P argv) (\<lambda>start.
     Inr (case start of
            Exits code shown \<Rightarrow> Exits code shown
          | Loops (address, device) shown \<Rightarrow> Loops (connected_init crcf address now) shown))"

definition Snooper_init :: "Crc16 \<Rightarrow> 'h \<Rightarrow> 'i \<Rightarrow> timeval \<Rightarrow> ('h, 'i) LinuxSlave" where
  "Snooper_init crcf h i now =
     \<lparr>slave = ProtocolRtuSlave_init crcf 3 h i, last_character_time = now,
      rxbuff = [], txbuff = [], sent = [], printed = []\<rparr>"

definition Snooper_program ::
  "platform \<Rightarrow> Crc16 \<Rightarrow> 'h \<Rightarrow> 'i \<Rightarrow> timeval \<Rightarrow> string list \<Rightarrow> (size_t \<times> ('h, 'i) LinuxSlave) startup result" where
  "Snooper_program P crcf h i now argv =
     rbind (Snooper_main P argv) (\<lambda>start.
     Inr (case start of
            Exits code shown \<Rightarrow> Exits code shown
          | Loops device shown \<Rightarrow> Loops (0, Snooper_init crcf h i now) shown))"

section \<open>The loop of the snooper\<close>

text \<open>The registers are printed in every turn whose number is a multiple of \<open>2\<^sup>20\<close>.\<close>

function dump_registers_loop :: "platform \<Rightarrow> 'x RegisterDataStore_scheme \<Rightarrow> nat \<Rightarrow> string result" where
  "dump_registers_loop P dstore i =
     (if i < length (registers dstore)
      then rbind (RegisterDataStore_GetRegister P dstore (word_of_nat i)) (\<lambda>reg.
           rbind (dump_registers_loop P dstore (Suc i)) (\<lambda>rest.
           Inr ('' 0x'' @ digits_in_base 16 (unat reg) @ rest)))
      else Inr [])"
  by pat_completeness auto
termination by (relation "measure (\<lambda>(P, dstore, i). length (registers dstore) - i)") auto

declare dump_registers_loop.simps [simp del]

definition dump_registers :: "platform \<Rightarrow> 'x RegisterDataStore_scheme \<Rightarrow> string result" where
  "dump_registers P dstore =
     rbind (dump_registers_loop P dstore 0) (\<lambda>regs. Inr (''['' @ regs @ '']'' @ [CHR 0x0A]))"

fun Snooper_loop ::
  "platform \<Rightarrow> ('x RegisterDataStore_scheme, 'y) writable_store_scheme \<Rightarrow> ('i, 'z) readable_store_scheme \<Rightarrow>
   (u8 list \<times> timeval \<times> timeval) list \<Rightarrow> size_t \<times> ('x RegisterDataStore_scheme, 'i) LinuxSlave \<Rightarrow>
   (size_t \<times> ('x RegisterDataStore_scheme, 'i) LinuxSlave) result" where
  "Snooper_loop P TH TI [] (loops, s) = Inr (loops, s)"
| "Snooper_loop P TH TI ((arrived, now, later) # turns) (loops, s) =
     (let loops = loops + 1 in
      rbind (Snooper_Run P TH TI arrived now later s) (\<lambda>s.
      rbind (if loops mod 2 ^ 20 = 0 then dump_registers P (holding_store (slave s)) else Inr []) (\<lambda>shown.
      Snooper_loop P TH TI turns (loops, s\<lparr>printed := printed s @ shown\<rparr>))))"

section \<open>What the commands do\<close>

lemma digit_char:
  assumes "n < 10"
  shows "digit_value (''0123456789abcdef'' ! n) = int n" and "is_digit (''0123456789abcdef'' ! n)"
proof -
  have "list_all (\<lambda>n. digit_value (''0123456789abcdef'' ! n) = int n) [0..<10]" by code_simp
  then show v: "digit_value (''0123456789abcdef'' ! n) = int n" using assms by (simp add: list_all_iff)
  show "is_digit (''0123456789abcdef'' ! n)" unfolding is_digit_def v using assms by simp
qed

lemma digits_value_printed:
  "digits_value k (digits_in_base 10 n @ cs) = digits_value (k * 10 ^ length (digits_in_base 10 n) + int n) cs"
proof (induction n arbitrary: k cs rule: less_induct)
  case (less n)
  show ?case
  proof (cases "n < 10")
    case True
    then show ?thesis using digit_char [of n] by (simp add: digits_in_base.simps [of 10 n] mult.commute)
  next
    case False
    have "digits_in_base 10 n = digits_in_base 10 (n div 10) @ [''0123456789abcdef'' ! (n mod 10)]"
      using False by (subst digits_in_base.simps) simp
    then show ?thesis
      using less.IH [of "n div 10" k "''0123456789abcdef'' ! (n mod 10) # cs"] False digit_char [of "n mod 10"]
      by (simp add: algebra_simps) (simp add: zdiv_int zmod_int)
  qed
qed

lemma digits_nonempty: "\<exists>c cs. digits_in_base 10 n = c # cs \<and> is_digit c"
proof (induction n rule: less_induct)
  case (less n)
  show ?case
  proof (cases "n < 10")
    case True
    then show ?thesis using digit_char(2) [of n] by (simp add: digits_in_base.simps [of 10 n])
  next
    case False
    then show ?thesis using less.IH [of "n div 10"] by (auto simp: digits_in_base.simps [of 10 n])
  qed
qed

lemma digit_plain: "is_digit c \<Longrightarrow> \<not> is_space c \<and> c \<noteq> CHR ''-'' \<and> c \<noteq> CHR ''+''"
  by (auto simp: is_digit_def is_space_def digit_value_def)

text \<open>\<open>atoi\<close> reads what \<open>%d\<close> prints.\<close>

lemma atoi_printed: "atoi (digits_in_base 10 n) = int n"
proof -
  obtain c cs where c: "digits_in_base 10 n = c # cs" "is_digit c" using digits_nonempty by blast
  then have "atoi (digits_in_base 10 n) = digits_value 0 (digits_in_base 10 n)"
    using digit_plain by (simp add: atoi_def del: digits_value.simps)
  then show ?thesis using digits_value_printed [of 0 n "[]"] by simp
qed

text \<open>
  The address of the slave is the second argument modulo 256, and 246 without one; a device name
  of 1024 or more characters leaves the array it is copied to.
\<close>

lemma LinuxSlave_main_address:
  assumes "length device \<le> 1023"
  shows "LinuxSlave_main P [name, device, digits_in_base 10 n] =
      Inr (Loops (word_of_nat n, device)
        (''Address: '' @ digits_in_base 10 (n mod 256) @ [CHR 0x0A] @ device @ [CHR 0x0A]))"
    and "LinuxSlave_main P [name, device] = Inr (Loops (246, device) (device @ [CHR 0x0A]))"
  using assms by (simp_all add: LinuxSlave_main_def strcpy_fits_def atoi_printed)

lemma LinuxSlave_main_long_name:
  assumes "1024 \<le> length device"
  shows "LinuxSlave_main P (name # device # rest) = Inl OutOfBounds"
  using assms by (auto simp: LinuxSlave_main_def strcpy_fits_def Let_def)

lemma LinuxSlave_program_starts:
  assumes "length device \<le> 1023" and "updating_wf h" and "store_wf i" and "crc_ok crcf g" and "n < 256"
  shows "\<exists>s shown. LinuxSlave_program P crcf h i now [name, device, digits_in_base 10 n] = Inr (Loops s shown) \<and>
    driver_inv g s \<and> unat (slave_address (slave s)) = n"
  using assms LinuxSlave_init_inv [OF assms(2-4)]
  by (simp add: LinuxSlave_program_def LinuxSlave_main_address)
    (simp add: LinuxSlave_init_def SetAddress_def)

lemma SetAddress_ready [simp]: "ready hinv iinv g (SetAddress addr sl) = ready hinv iinv g sl"
  by (simp add: ready_def SetAddress_def slave_wf_def listening_def GetFrameIn_def)

lemma connected_program_starts:
  assumes "length device \<le> 1023" and "crc_ok crcf g" and "n < 256"
  shows "\<exists>s shown. connected_program P crcf now [name, device, digits_in_base 10 n] = Inr (Loops s shown) \<and>
    ready (\<lambda>s. hreg_wf (the_controller s)) (\<lambda>s. ireg_wf (the_controller s)) g (slave s) \<and>
    unat (slave_address (slave s)) = n"
proof -
  have "ready (\<lambda>s. hreg_wf (the_controller s)) (\<lambda>s. ireg_wf (the_controller s)) g
      (slave (connected_init crcf (word_of_nat n) now))"
    unfolding connected_init_def LinuxSlave_init_def LinuxSlave.simps SetAddress_ready
    by (rule ProtocolRtuSlave_init_ready)
      (simp_all add: assms hreg_wf_def InputRegisters_init_wf MappedRegisterDataStore_init_def)
  moreover have "unat (slave_address (slave (connected_init crcf (word_of_nat n) now))) = n"
    using assms(3) by (simp add: connected_init_def LinuxSlave_init_def SetAddress_def)
  ultimately show ?thesis
    using assms(1) by (simp add: connected_program_def LinuxSlave_main_address)
qed

text \<open>What the snooper prints of a store.\<close>

lemma dump_registers_spec:
  assumes "length (registers s) \<le> 65536"
  shows "dump_registers P s =
    Inr (''['' @ concat (map (\<lambda>reg. '' 0x'' @ digits_in_base 16 (unat reg)) (registers s)) @ '']'' @ [CHR 0x0A])"
proof -
  have "dump_registers_loop P s i =
      Inr (concat (map (\<lambda>reg. '' 0x'' @ digits_in_base 16 (unat reg)) (drop i (registers s))))" for i
    using assms
  proof (induction P s i rule: dump_registers_loop.induct)
    case (1 P s i)
    show ?case
    proof (cases "i < length (registers s)")
      case True
      then have "unat (word_of_nat i :: size_t) = i"
        using "1.prems" by (simp add: unat_of_nat)
      then have "RegisterDataStore_GetRegister P s (word_of_nat i) = Inr (registers s ! i)"
        using True "1.prems" by (simp add: store_wf_def)
      then show ?thesis
        using True 1 by (simp add: dump_registers_loop.simps [of P s i] Cons_nth_drop_Suc [symmetric])
    next
      case False
      then show ?thesis by (simp add: dump_registers_loop.simps [of P s i])
    qed
  qed
  then show ?thesis by (simp add: dump_registers_def)
qed

text \<open>Up to the turn before the first dump the loop is the run of its turns.\<close>

lemma Snooper_loop_before_dump:
  assumes "unat loops + length turns < 2 ^ 20"
  shows "Snooper_loop P TH TI turns (loops, s) =
    rbind (Snooper_Runs P TH TI turns s) (\<lambda>s. Inr (loops + word_of_nat (length turns), s))"
  using assms
proof (induction turns arbitrary: loops s)
  case (Cons turn turns)
  obtain arrived now later where turn: "turn = (arrived, now, later)" by (cases turn)
  have step: "unat (loops + 1) = unat loops + 1"
    using Cons.prems by (subst unat_add_lem [THEN iffD1]) simp_all
  then have "unat ((loops + 1) mod 2 ^ 20) = unat loops + 1"
    using Cons.prems by (simp only: unat_mod_distrib) simp
  then have "(loops + 1) mod 2 ^ 20 \<noteq> 0" by (metis add_is_0 unat_0 zero_neq_one)
  then show ?case
    using Cons step
    by (cases "Snooper_Run P TH TI arrived now later s") (simp_all add: turn add_ac)
qed simp

end
