(* ===== verification/LibmodbusPrograms.thy ===== *)
theory LibmodbusPrograms
  imports MasterProgram CommandLine
begin

text \<open>
  The programs on libmodbus as a whole, from their command line to their exit code:
  \<open>libmodbus_master.cpp\<close> of \<open>examples/libmodbus_tests/libmodbus_client\<close> and its second version,
  \<open>LibModbusTestMaster.cpp\<close> of the connected device, whose register calls are the scripts of the
  theories \<open>MasterScripts\<close> and \<open>MasterProgram\<close>, and \<open>libmodbus_slave.cpp\<close>, a slave whose messages
  libmodbus handles. The library is a record of functions on a state of its own. Text for the error
  stream is left out.
\<close>

section \<open>The calls of the library\<close>

record 'w modbus_session = "'w modbus_bus" +
  modbus_new_rtu :: "string \<Rightarrow> nat \<Rightarrow> char \<Rightarrow> nat \<Rightarrow> nat \<Rightarrow> 'w \<Rightarrow> 'w"
  modbus_set_slave :: "'w \<Rightarrow> u8 \<Rightarrow> 'w"
  modbus_connect :: "'w \<Rightarrow> int \<times> 'w"
  modbus_write_bits :: "'w \<Rightarrow> nat \<Rightarrow> u8 list \<Rightarrow> 'w"
  modbus_read_bits :: "'w \<Rightarrow> nat \<Rightarrow> nat \<Rightarrow> 'w \<times> int \<times> u8 list"
  modbus_close :: "'w \<Rightarrow> 'w"
  modbus_free :: "'w \<Rightarrow> 'w"

section \<open>The masters\<close>

definition ConnectRtu :: "('w, 'x) modbus_session_scheme \<Rightarrow> string \<Rightarrow> nat \<Rightarrow> 'w \<Rightarrow> 'w \<times> int" where
  "ConnectRtu bus dev_name baudrate w = (modbus_new_rtu bus dev_name baudrate (CHR ''N'') 8 1 w, 0)"

definition ZeroArray :: "'a::len word list \<Rightarrow> 'a word list" where
  "ZeroArray t = map (\<lambda>_. 0) t"

definition ReadPrintCoils ::
  "platform \<Rightarrow> ('w, 'x) modbus_session_scheme \<Rightarrow> nat \<Rightarrow> nat \<Rightarrow> 'w \<Rightarrow> ('w \<times> int \<times> string) result" where
  "ReadPrintCoils P bus addr cnt w =
     (let (w, rc, reg) = modbus_read_bits bus w addr cnt in
      if rc = -1 then Inr (w, -1, [])
      else rbind (c_assert P (rc = int cnt)) (\<lambda>_. Inr (w, 0, PrintArray reg)))"

definition one_coils :: "u8 list" where
  "one_coils = [1, 0, 1, 0, 1, 0, 1, 0] @ replicate 15 0"

definition libmodbus_master_coils ::
  "platform \<Rightarrow> ('w, 'x) modbus_session_scheme \<Rightarrow> 'w \<Rightarrow> ('w \<times> string) result" where
  "libmodbus_master_coils P bus w =
     (let w = modbus_write_bits bus w 10 one_coils in
      rbind (ReadPrintCoils P bus 10 23 w) (\<lambda>(w, _, shown).
      let w = modbus_write_bits bus w 10 (replicate 23 0) in
      rbind (ReadPrintCoils P bus 10 23 w) (\<lambda>(w, _, more). Inr (w, shown @ more))))"

text \<open>
  What the two masters have in common: the arguments, the connection, and the end. \<open>body\<close> is what
  they do in between. The result is the library's state, the exit code and what is printed.
\<close>

definition master_session ::
  "('w, 'x) modbus_session_scheme \<Rightarrow> ('w \<Rightarrow> ('w \<times> string) result) \<Rightarrow> string list \<Rightarrow> 'w \<Rightarrow>
   ('w \<times> int \<times> string) result" where
  "master_session bus body argv w =
     (let port = (if length argv > 1 then argv ! 1 else ''/dev/ttyUSB0'');
          slave_address = (if length argv > 2 then word_of_int (atoi (argv ! 2)) else 3) :: u8;
          shown = port @ '', slave '' @ digits_in_base 10 (unat slave_address) @ [CHR 0x0A];
          w = fst (ConnectRtu bus port 9600 w);
          w = modbus_set_slave bus w slave_address;
          (rc, w) = modbus_connect bus w in
      if rc = -1 then Inr (modbus_free bus w, -1, shown)
      else rbind (body w) (\<lambda>(w, out).
           Inr (modbus_free bus (modbus_close bus w), 0,
             shown @ ''Connection Successful'' @ [CHR 0x0A] @ out)))"

definition libmodbus_master_main ::
  "platform \<Rightarrow> ('w, 'x) modbus_session_scheme \<Rightarrow> string list \<Rightarrow> 'w \<Rightarrow> ('w \<times> int \<times> string) result" where
  "libmodbus_master_main P bus =
     master_session bus (\<lambda>w.
       rbind (run_script P bus libmodbus_master_script w) (\<lambda>(w, shown).
       rbind (libmodbus_master_coils P bus w) (\<lambda>(w, more). Inr (w, shown @ more))))"

text \<open>The second version; \<open>src_reg0\<close> and \<open>src_reg1\<close> are not declared in it and are arguments here.\<close>

definition master_version_script :: "u16 list \<Rightarrow> u16 list \<Rightarrow> master_call list" where
  "master_version_script src_reg0 src_reg1 =
     [PrintLine ''Write Zeros 10-14'', WriteRegisters 0 (replicate 32 0),
      PrintLine ''Read Registers 10-14'', ReadPrintRegisters 0 32,
      PrintLine ''Write Individual Registers 10, 11, & 12'',
      WriteRegister 0 9, WriteRegister 1 10, WriteRegister 2 11,
      PrintLine ''Read Registers 10-14'', ReadPrintRegisters 0 32,
      PrintLine ''Write Zeros 10-14'', WriteRegisters 0 (replicate 32 0),
      PrintLine ''Read Registers 10-14'', ReadPrintRegisters 0 32,
      WriteRegisters 0 src_reg0, ReadPrintRegisters 0 32,
      WriteRegisters 0 src_reg1, ReadPrintRegisters 0 32]"

definition libmodbus_master_version_main ::
  "platform \<Rightarrow> ('w, 'x) modbus_session_scheme \<Rightarrow> u16 list \<Rightarrow> u16 list \<Rightarrow> string list \<Rightarrow> 'w \<Rightarrow>
   ('w \<times> int \<times> string) result" where
  "libmodbus_master_version_main P bus src_reg0 src_reg1 =
     master_session bus (run_script P bus (master_version_script src_reg0 src_reg1))"

section \<open>The test master of the connected device\<close>

record 'w test_session = "'w modbus_session" +
  modbus_set_debug :: "'w \<Rightarrow> u8 \<Rightarrow> 'w"
  modbus_set_response_timeout :: "'w \<Rightarrow> nat \<Rightarrow> nat \<Rightarrow> 'w"
  modbus_set_byte_timeout :: "'w \<Rightarrow> nat \<Rightarrow> nat \<Rightarrow> 'w"
  modbus_read_input_registers :: "'w \<Rightarrow> nat \<Rightarrow> nat \<Rightarrow> u16 list"

text \<open>
  Without an argument the device name is a null pointer, which \<open>printf\<close> reads. The timeouts are set
  as in a build without \<open>MODBUS_TIMEVAL\<close>. The result has the master's copy of the input registers
  too.
\<close>

definition LibModbusTestMaster_main ::
  "platform \<Rightarrow> InputRegisters memory_controller \<Rightarrow> ('w, 'x) test_session_scheme \<Rightarrow> string list \<Rightarrow> 'w \<Rightarrow>
   ('w \<times> int \<times> string \<times> InputRegisters MappedRegisterDataStore) result" where
  "LibModbusTestMaster_main P T bus argv w =
     (let inregs = MappedRegisterDataStore_init InputRegisters_init;
          slave_address = (if length argv > 2 then word_of_int (atoi (argv ! 2)) else 246) :: u8 in
      if length argv \<le> 1 then Inl OutOfBounds else
      let dev_name = argv ! 1;
          shown = ''Device: '' @ dev_name @ [CHR 0x0A] @
                  ''Address: '' @ digits_in_base 10 (unat slave_address) @ [CHR 0x0A];
          w = fst (ConnectRtu bus dev_name 9600 w);
          w = modbus_set_slave bus w slave_address;
          (rc, w) = modbus_connect bus w in
      if rc = -1 then Inr (modbus_free bus w, -1, shown, inregs)
      else
        let w = modbus_set_debug bus w slave_address;
            w = modbus_set_response_timeout bus w 1 0;
            w = modbus_set_byte_timeout bus w 1 0;
            shown = shown @ ''Connection Successful'' @ [CHR 0x0A, CHR 0x0A, CHR 0x0A] @
                    ''Writing/Reading Input Registers'' @ [CHR 0x0A, CHR 0x0A] in
        rbind (ReadInputFields P T (modbus_read_input_registers bus w) main_reads inregs) (\<lambda>(inregs, fields_shown).
        rbind (run_script P bus test_master_script w) (\<lambda>(w, out).
        Inr (modbus_free bus (modbus_close bus w), 0, shown @ fields_shown @ out, inregs))))"

section \<open>What the masters do\<close>

lemma master_session_connection_failed:
  assumes "\<And>w. fst (modbus_connect bus w) = -1"
  shows "\<exists>w' shown. master_session bus body argv w = Inr (w', -1, shown)"
  using assms by (simp add: master_session_def Let_def split_beta)

lemma master_version_fits:
  "32 \<le> k \<Longrightarrow> length r0 = 32 \<Longrightarrow> length r1 = 32 \<Longrightarrow> list_all (call_fits k) (master_version_script r0 r1)"
  by (simp add: master_version_script_def)

lemma master_version_registers:
  assumes "32 \<le> length regs" "length r0 = 32" "length r1 = 32"
  shows "fst (script_spec (master_version_script r0 r1) regs) = overwrite 0 r1 regs"
  using assms by (simp add: master_version_script_def Let_def split_def overwrite_def)

text \<open>
  Over any library that keeps the laws, once connected: the second version leaves the registers
  with its last array and the first prints the registers it wrote, whatever the library does
  with coils.
\<close>

lemma master_version_leaves_last:
  assumes bus: "documented_bus bus usable regs" and "usable w" and "32 \<le> length (regs w)"
    and "length r0 = 32" "length r1 = 32"
  shows "\<exists>w' shown. run_script P bus (master_version_script r0 r1) w = Inr (w', shown) \<and>
    usable w' \<and> regs w' = overwrite 0 r1 (regs w)"
  using run_script_spec [OF assms(1,2) master_version_fits [OF assms(3-5)], of P]
    master_version_registers [OF assms(3-5)] by auto

text \<open>
  The test master as a whole: over a library that keeps the laws once it is connected, and whose
  reads give the fields of a struct \<open>m\<close>, it ends with exit code 0 and a copy of \<open>m\<close>, and prints the
  fields and the blocks it wrote.
\<close>

lemma LibModbusTestMaster_run:
  fixes bus :: "('w, 'x) test_session_scheme"
  assumes bus: "documented_bus bus usable regs" and T: "memory_map T ireg_wf (\<lambda>m i. ireg_fields m ! i) ireg_put 17 ireg_start ireg_regs tolerant"
    and m: "ireg_wf m"
    and argv: "argv = [name, dev_name]"
    and connect: "modbus_connect bus (modbus_set_slave bus (modbus_new_rtu bus dev_name 9600 (CHR ''N'') 8 1 w) 246) = (rc, w1)"
      "rc \<noteq> -1"
    and w2: "w2 = modbus_set_byte_timeout bus (modbus_set_response_timeout bus (modbus_set_debug bus w1 246) 1 0) 1 0"
    and ready: "usable w2" "14 \<le> length (regs w2)"
    and read: "\<And>i. i < 17 \<Longrightarrow>
      reg_bytes P (modbus_read_input_registers bus w2 (ireg_start i) (ireg_regs i)) = ireg_fields m ! i"
  shows "\<exists>w' banner. LibModbusTestMaster_main P T bus argv w =
    Inr (w', 0, banner @ concat (map (field_text m) main_reads) @ snd (script_spec test_master_script (regs w2)),
      \<lparr>new_data = True, the_controller = m\<rparr>)"
proof -
  obtain w3 where "run_script P bus test_master_script w2 = Inr (w3, snd (script_spec test_master_script (regs w2)))"
    using run_script_spec [OF bus ready(1) scripts_fit(2) [OF ready(2)], of P] by blast
  moreover note ReadInputFields_main [OF T m read]
  moreover note connect(1) [unfolded One_nat_def] w2 [unfolded One_nat_def, symmetric]
  ultimately show ?thesis
    using connect(2)
    by (simp add: LibModbusTestMaster_main_def argv ConnectRtu_def Let_def del: rbind_eq_Inr)
qed

text \<open>The first master: what it prints of the registers comes before what it prints of the coils.\<close>

lemma libmodbus_master_run:
  fixes bus :: "('w, 'x) modbus_session_scheme"
  assumes bus: "documented_bus bus usable regs"
    and connect: "modbus_connect bus (modbus_set_slave bus (modbus_new_rtu bus dev_name 9600 (CHR ''N'') 8 1 w)
        (word_of_nat n)) = (rc, w1)" "rc \<noteq> -1"
    and ready: "usable w1" "15 \<le> length (regs w1)"
  shows "\<exists>w2. usable w2 \<and> regs w2 = overwrite 10 [1, 2, 3, 4, 5] (regs w1) \<and>
    libmodbus_master_main P bus [name, dev_name, digits_in_base 10 n] w =
      rbind (libmodbus_master_coils P bus w2) (\<lambda>(w, coils).
        Inr (modbus_free bus (modbus_close bus w), 0,
          dev_name @ '', slave '' @ digits_in_base 10 (n mod 256) @ [CHR 0x0A] @ ''Connection Successful'' @ [CHR 0x0A] @
          snd (script_spec libmodbus_master_script (regs w1)) @ coils))"
proof -
  obtain w2 where w2: "run_script P bus libmodbus_master_script w1 = Inr (w2, snd (script_spec libmodbus_master_script (regs w1)))"
    "usable w2" "regs w2 = overwrite 10 [1, 2, 3, 4, 5] (regs w1)"
    using run_script_spec [OF bus ready(1) scripts_fit(1) [OF ready(2)], of P]
      libmodbus_master_spec [OF ready(2)] by auto
  then show ?thesis
    using connect
    by (cases "libmodbus_master_coils P bus w2")
      (auto simp: libmodbus_master_main_def master_session_def ConnectRtu_def atoi_printed Let_def split: prod.splits)
qed

section \<open>The slave on libmodbus\<close>

record modbus_mapping =
  tab_bits :: "u8 list"
  tab_input_bits :: "u8 list"
  tab_input_registers :: "u16 list"
  tab_registers :: "u16 list"

text \<open>
  \<open>modbus_receive\<close> gives the length of a request, or -1, and the request buffer; \<open>modbus_reply\<close>
  the length of the reply, or -1, and the mapping, which a request may change.
  \<open>modbus_mapping_new\<close> may fail.
\<close>

record 'w modbus_server = "'w modbus_session" +
  modbus_mapping_new :: "nat \<Rightarrow> nat \<Rightarrow> nat \<Rightarrow> nat \<Rightarrow> modbus_mapping option"
  modbus_strerror :: "'w \<Rightarrow> string"
  modbus_receive :: "'w \<Rightarrow> u8 list \<Rightarrow> int \<times> u8 list \<times> 'w"
  modbus_reply :: "'w \<Rightarrow> u8 list \<Rightarrow> int \<Rightarrow> modbus_mapping \<Rightarrow> int \<times> modbus_mapping \<times> 'w"

text \<open>\<open>for (std::size_t i = 0; i < len; i++)\<close>: the length is an \<open>int\<close> and is made unsigned.\<close>

function print_req_loop :: "u8 list \<Rightarrow> nat \<Rightarrow> nat \<Rightarrow> string result" where
  "print_req_loop req len i =
     (if i < len
      then if i < length req
           then rbind (print_req_loop req len (Suc i)) (\<lambda>rest.
                Inr (digits_in_base 10 (unat (req ! i)) @ '', '' @ rest))
           else Inl OutOfBounds
      else Inr [])"
  by pat_completeness auto
termination by (relation "measure (\<lambda>(req, len, i). len - i)") auto

declare print_req_loop.simps [simp del]

definition print_req :: "u8 list \<Rightarrow> int \<Rightarrow> string result" where
  "print_req req len =
     rbind (print_req_loop req (unat (word_of_int len :: size_t)) 0) (\<lambda>shown. Inr (shown @ [CHR 0x0A]))"

partial_function (option) libmodbus_slave_loop ::
  "('w, 'x) modbus_server_scheme \<Rightarrow> 'w \<Rightarrow> u8 list \<Rightarrow> modbus_mapping \<Rightarrow> string \<Rightarrow> ('w \<times> modbus_mapping \<times> string) result option" where
  "libmodbus_slave_loop S w req mapping shown =
     (case modbus_receive S w req of (len, req, w) \<Rightarrow>
        if len = -1 then Some (Inr (w, mapping, shown))
        else case modbus_reply S w req len mapping of (len, mapping, w) \<Rightarrow>
          (case print_req req len of
             Inl e \<Rightarrow> Some (Inl e)
           | Inr t \<Rightarrow> if len = -1 then Some (Inr (w, mapping, shown @ t))
                      else libmodbus_slave_loop S w req mapping (shown @ t)))"

definition libmodbus_slave_main ::
  "platform \<Rightarrow> ('w, 'x) modbus_server_scheme \<Rightarrow> string list \<Rightarrow> 'w \<Rightarrow> ('w \<times> int \<times> string) result option" where
  "libmodbus_slave_main P S argv w =
     (if length argv < 2
      then Some (Inr (w, 1, ''Requires device port as argument, exiting'' @ [CHR 0x0A]))
      else case rbind (c_assert P (2 \<le> length argv)) (\<lambda>_. strcpy_fits 1024 (argv ! 1)) of
        Inl e \<Rightarrow> Some (Inl e)
      | Inr _ \<Rightarrow>
        (let shown = argv ! 1 @ [CHR 0x0A];
             w = fst (ConnectRtu S (argv ! 1) 9600 w) in
         case modbus_mapping_new S 256 256 256 256 of
           None \<Rightarrow> Some (Inl OutOfBounds)
         | Some mapping \<Rightarrow>
             if length (tab_registers mapping) \<le> 12 then Some (Inl OutOfBounds)
             else
               let mapping = mapping\<lparr>tab_registers := (tab_registers mapping)[12 := 623]\<rparr>;
                   w = modbus_set_slave S w 246;
                   (rc, w) = modbus_connect S w in
               if rc = -1 then Some (Inr (modbus_free S w, -1, shown))
               else
                 Option.bind (libmodbus_slave_loop S w (replicate 256 0) mapping
                     (shown @ ''Connection Successful'' @ [CHR 0x0A, CHR 0x0A])) (\<lambda>r.
                 Some (rbind r (\<lambda>(w, mapping, shown).
                 Inr (modbus_free S (modbus_close S w), 0,
                   shown @ ''Exit the loop: '' @ modbus_strerror S w @ [CHR 0x0A]))))))"

section \<open>How the slave on libmodbus ends\<close>

text \<open>The turns in which a request is received and answered, and what they print.\<close>

definition server_turn ::
  "('w, 'x) modbus_server_scheme \<Rightarrow> 'w \<times> u8 list \<times> modbus_mapping \<Rightarrow> (('w \<times> u8 list \<times> modbus_mapping) \<times> string) option" where
  "server_turn S = (\<lambda>(w, req, mapping).
     case modbus_receive S w req of (n, req, w) \<Rightarrow>
     case modbus_reply S w req n mapping of (len, mapping, w) \<Rightarrow>
       if n = -1 \<or> len < 0 \<or> len > int (length req) \<or> length req > 256 then None
       else Some ((w, req, mapping),
         concat (map (\<lambda>b. digits_in_base 10 (unat b) @ '', '') (take (nat len) req)) @ [CHR 0x0A]))"

fun server_turns ::
  "('w, 'x) modbus_server_scheme \<Rightarrow> nat \<Rightarrow> 'w \<times> u8 list \<times> modbus_mapping \<Rightarrow> (('w \<times> u8 list \<times> modbus_mapping) \<times> string) option" where
  "server_turns S 0 st = Some (st, [])"
| "server_turns S (Suc n) st =
     Option.bind (server_turn S st) (\<lambda>(st, shown).
     Option.bind (server_turns S n st) (\<lambda>(st, lines). Some (st, shown @ lines)))"

lemma print_req_loop_spec:
  assumes "len \<le> length req"
  shows "print_req_loop req len i =
    Inr (concat (map (\<lambda>b. digits_in_base 10 (unat b) @ '', '') (drop i (take len req))))"
  using assms
proof (induction req len i rule: print_req_loop.induct)
  case (1 req len i)
  show ?case
  proof (cases "i < len")
    case True
    then have "drop i (take len req) = req ! i # drop (Suc i) (take len req)"
      using "1.prems" by (simp add: Cons_nth_drop_Suc [symmetric])
    then show ?thesis using True 1 by (simp add: print_req_loop.simps [of req len i])
  next
    case False
    then show ?thesis by (simp add: print_req_loop.simps [of req len i])
  qed
qed

lemma print_req_loop_overrun:
  assumes "length req < len" and "i \<le> length req"
  shows "print_req_loop req len i = Inl OutOfBounds"
  using assms
proof (induction req len i rule: print_req_loop.induct)
  case (1 req len i)
  then show ?case
    by (cases "i < length req") (simp_all add: print_req_loop.simps [of req len i] print_req_loop.simps [of req len "length req"])
qed

lemma print_req_spec:
  assumes "0 \<le> len" and "len \<le> int (length req)" and "length req \<le> 256"
  shows "print_req req len =
    Inr (concat (map (\<lambda>b. digits_in_base 10 (unat b) @ '', '') (take (nat len) req)) @ [CHR 0x0A])"
proof -
  have "unat (word_of_int len :: size_t) = nat len"
    using assms by (simp add: unsigned_of_int take_bit_int_eq_self)
  then show ?thesis using assms by (simp add: print_req_def print_req_loop_spec)
qed

lemma print_req_failed:
  assumes "length req \<le> 256"
  shows "print_req req (-1) = Inl OutOfBounds"
proof -
  have "256 < unat (word_of_int (-1) :: size_t)" by (simp add: unsigned_minus_1_eq_mask mask_eq_exp_minus_1)
  then show ?thesis using assms by (simp add: print_req_def print_req_loop_overrun)
qed

lemma loop_after_turns:
  assumes "server_turns S n (w, req, mapping) = Some ((w', req', mapping'), lines)"
  shows "libmodbus_slave_loop S w req mapping shown = libmodbus_slave_loop S w' req' mapping' (shown @ lines)"
  using assms
proof (induction n arbitrary: w req mapping shown lines)
  case (Suc n)
  obtain w1 req1 mapping1 t rest where turn: "server_turn S (w, req, mapping) = Some ((w1, req1, mapping1), t)"
    and turns: "server_turns S n (w1, req1, mapping1) = Some ((w', req', mapping'), rest)" "lines = t @ rest"
    using Suc.prems by (auto simp: bind_eq_Some_conv)
  have "libmodbus_slave_loop S w req mapping shown = libmodbus_slave_loop S w1 req1 mapping1 (shown @ t)"
    using turn by (subst libmodbus_slave_loop.simps)
      (auto simp: server_turn_def print_req_spec split: prod.splits if_splits)
  then show ?case using Suc.IH [OF turns(1)] turns(2) by simp
qed simp

text \<open>
  C27: the slave program on libmodbus, after any number of answered requests. When the next
  \<open>modbus_receive\<close> fails, the loop ends with the bytes of the requests printed, as many of each as
  its reply is long. When \<open>modbus_reply\<close> fails, the length -1 is used as the number of bytes to
  print before it is looked at: the program reads past its 256-byte request buffer.
\<close>

theorem libmodbus_slave_ends:
  assumes turns: "server_turns S n (w, req, mapping) = Some ((w', req', mapping'), lines)"
    and next_receive: "modbus_receive S w' req' = (len, req2, w2)" and buffer: "length req2 = 256"
  shows "(len = -1 \<longrightarrow>
      libmodbus_slave_loop S w req mapping shown = Some (Inr (w2, mapping', shown @ lines))) \<and>
    (len \<noteq> -1 \<and> fst (modbus_reply S w2 req2 len mapping') = -1 \<longrightarrow>
      libmodbus_slave_loop S w req mapping shown = Some (Inl OutOfBounds))"
  unfolding loop_after_turns [OF turns]
  by (subst (1 2) libmodbus_slave_loop.simps)
    (auto simp: next_receive print_req_failed buffer split: prod.splits)

text \<open>A library that has \<open>n\<close> requests to answer and then fails to receive, or to reply.\<close>

definition demo_mapping :: modbus_mapping where
  "demo_mapping = \<lparr>tab_bits = [], tab_input_bits = [], tab_input_registers = [], tab_registers = replicate 256 0\<rparr>"

definition demo_server :: "bool \<Rightarrow> nat modbus_server" where
  "demo_server reply_fails = \<lparr>
     modbus_write_registers = (\<lambda>n _ _. n), modbus_write_register = (\<lambda>n _ _. n),
     modbus_read_registers = (\<lambda>n _ _. (n, -1, [])), modbus_new_rtu = (\<lambda>_ _ _ _ _ n. n),
     modbus_set_slave = (\<lambda>n _. n), modbus_connect = (\<lambda>n. (0, n)), modbus_write_bits = (\<lambda>n _ _. n),
     modbus_read_bits = (\<lambda>n _ _. (n, -1, [])), modbus_close = (\<lambda>n. n), modbus_free = (\<lambda>n. n),
     modbus_mapping_new = (\<lambda>_ _ _ _. None), modbus_strerror = (\<lambda>_. []),
     modbus_receive = (\<lambda>n req. if n = 0 \<and> \<not> reply_fails then (-1, req, 0) else (8, req, n)),
     modbus_reply = (\<lambda>n req len m. if n = 0 then (-1, m, 0) else (3, m, n - 1))\<rparr>"

theorem libmodbus_slave_ends_witness:
  "libmodbus_slave_loop (demo_server False) 1 (replicate 256 0) demo_mapping [] =
     Some (Inr (0, demo_mapping, ''0, 0, 0, '' @ [CHR 0x0A])) \<and>
   libmodbus_slave_loop (demo_server True) 1 (replicate 256 0) demo_mapping [] = Some (Inl OutOfBounds)"
  using libmodbus_slave_ends [of "demo_server False" 1 1 "replicate 256 0" demo_mapping 0 "replicate 256 0" demo_mapping _ "-1" "replicate 256 0" 0 "[]"]
    libmodbus_slave_ends [of "demo_server True" 1 1 "replicate 256 0" demo_mapping 0 "replicate 256 0" demo_mapping _ 8 "replicate 256 0" 0 "[]"]
  by (simp add: demo_server_def server_turn_def digits_in_base.simps [of 10 0] numeral_3_eq_3)

end
