(* ===== verification/Spec2Isabelle.thy ===== *)
theory Spec2Isabelle
  imports Master FieldController LineSession MappedDevice SnooperUart LibmodbusPrograms
begin

text \<open>
  A model of ModbusBasic, a C++ library for Modbus RTU slaves and masters on small targets,
  and the theorems that make it correct. The library is header-only (\<open>include/Modbus\<close>); the
  programs of \<open>examples\<close> run it: a slave over plain registers, a slave over the fields of a
  struct, a line snooper, and masters that talk to a slave. The tests hold a generated register
  map, a struct whose members are the registers.

  \<^bold>\<open>The program.\<close> Bytes from a serial line go one at a time into a packet reader
  (\<open>ReadContext::ProcessCharacter\<close>), which fills a frame and knows from the function code, and
  for block writes from the byte count, when the request is complete. The driver then calls
  \<open>ProtocolRtuSlave::ProcessMessage\<close>: the request is validated (function implemented, registers
  inside the store, byte count right), the slave address and the CRC are checked, and the
  command is run on one of two register controllers, or an exception is reported. The reply is
  built in a 256-byte \<open>Response\<close> and ends with a CRC. \<open>Reset\<close> makes the slave ready for the
  next request. A master fills frames with the \<open>FillFrame\<close> functions and frames them with
  \<open>ProtocolRtu::Frame\<close>.

  \<^bold>\<open>The theories\<close>, each on top of the ones before it:
  \<^item> \<open>Prelude\<close>: integer types, results with faults, array views, the \<open>platform\<close> record, and
    the byte and list lemmas that everything shares.
  \<^item> \<open>ModbusDefs\<close>: \<open>Modbus.h\<close>, the code tables, \<open>Frame\<close> and \<open>Response\<close>.
  \<^item> \<open>RegisterCommands\<close>: the layouts of the four register commands, their \<open>FillFrame\<close> and
    \<open>FillResponseHeader\<close> functions (first half of \<open>RegisterControl.h\<close>, \<open>DataCommand.h\<close>) and
    \<open>Utilities.h\<close>.
  \<^item> \<open>DataStores\<close>: \<open>DataStores/*.h\<close>. The operations a controller calls on its store are a
    record (\<open>readable_store\<close>, \<open>writable_store\<close>), which stands for the template parameter; what
    a store promises is the locales \<open>readable_register_store\<close> and \<open>writable_register_store\<close>, and
    \<open>plain_register_store\<close> for registers that do not depend on each other, interpreted on
    \<open>RegisterDataStore\<close> and \<open>UpdatingRegisterDataStore\<close>.
  \<^item> \<open>RegisterControl\<close>: \<open>HoldingRegisterController\<close> and \<open>InputRegisterController\<close>.
  \<^item> \<open>RtuProtocol\<close>: \<open>ModbusRtuProtocol.h\<close>, the packet reader, the CRC check, framing.
  \<^item> \<open>RtuSlave\<close>: \<open>ModbusRtuSlave.h\<close>.
  \<^item> \<open>Reader\<close>: the packet reader over arbitrary bytes, its invariant and why it always ends a request.
  \<^item> \<open>SlaveSpec\<close>: the abstract request handler \<open>serve\<close> (a verdict, a new store and the bytes of
    the reply), and the proof, inside the locale \<open>slave_stores\<close>, that the slave implements it
    over every store that keeps the contracts.
  \<^item> \<open>Exchange\<close>: a whole request from its first byte to the reply; \<open>StoreRequests\<close>: the reply and the
    effect of each of the four register functions, over every pair of stores that keeps the
    contracts.
  \<^item> \<open>Device\<close>: \<open>slave_stores\<close> interpreted on the stores of the repository, and the reply to
    every kind of request.
  \<^item> \<open>Session\<close>: sequences of requests, and the requests that do not fit the buffers.
  \<^item> \<open>Master\<close>: \<open>FillFrame\<close>, \<open>Frame\<close> and \<open>ReadFrame\<close> against the slave's reader.
  \<^item> \<open>Printing\<close>: what the drivers print (\<open>LinuxModbusTools.h\<close>).
  \<^item> \<open>LinuxSlave\<close>: the polling driver as a step relation with its reachable states, and, for
    every pair of stores, the way from an exchange to a run of the driver (\<open>Runs_answer\<close>). Here the
    serial device is two queues.
  \<^item> \<open>SerialPort\<close>, \<open>PosixSerial\<close>: \<open>examples/posix/PosixSerial.h\<close>, the setup of the port and
    \<open>UartController\<close>, whose loops move bytes between the port and two ring buffers; what it relies
    on is the locale \<open>uart_device\<close>.
  \<^item> \<open>UartDriver\<close>: the same driver on a \<open>UartController\<close>, and the proof that it implements the
    driver on queues; \<open>LineSession\<close>: sequences of requests on the port.
  \<^item> \<open>MappedStore\<close>: \<open>MappedRegisterDataStore.h\<close>, a store whose registers are the fields of a
    struct. What a struct's wrapper promises is the locale \<open>memory_map\<close>, which gives a
    \<open>readable_register_store\<close> of the requests it covers; \<open>MappedSlave\<close>: a slave over such a store.
  \<^item> \<open>Conversions\<close>, \<open>HoldingMap\<close>, \<open>InputMap\<close>, \<open>ConnectedMaps\<close>: the two generated wrappers of
    \<open>examples/ConnectedDevice/common\<close>, what their accessors share, and that they set and get a field.
  \<^item> \<open>RegisterMap\<close>: the generated register map of \<open>tests/source\<close>, and \<open>memory_map\<close> interpreted on
    it; \<open>MappedDevice\<close>: the mapped store over it, a slave with this store behind its input
    registers, and that slave in its driver.
  \<^item> \<open>SerialSnooper\<close>, \<open>SnooperUart\<close>: the snooper's turns, on queues and on a \<open>UartController\<close>;
    \<open>CommandLine\<close>: what the three slave programs do before their loops, and the snooper's loop.
  \<^item> \<open>MasterScripts\<close>: the register parts of the master programs as lists of library calls, and what
    they print over a library that keeps its documentation (\<open>documented_bus\<close>); \<open>MasterProgram\<close>: the
    reads of the program that copies the input map; \<open>LibmodbusPrograms\<close>: the programs on libmodbus as
    a whole, three masters and a slave.
  \<^item> \<open>FieldController\<close>: \<open>ByteFieldController.h\<close>, \<open>RegisterController.h\<close>, \<open>Accessor.h\<close>.
  \<^item> this theory: the properties that span the master and the slave.

  \<^bold>\<open>How code and model correspond.\<close> A class is a record of its members and a member function
  takes the record and returns the changed one; a pointer to a buffer that one object owns is
  the buffer itself. \<open>uint8_t\<close>, \<open>uint16_t\<close> and \<open>size_t\<close> (64 bits) are words wherever their
  width can matter; lengths and indices that stay far below \<open>2 ^ 64\<close> are natural numbers, and
  every cast to a byte is written out. A C++ operation that can leave defined behaviour is a
  \<open>result\<close>: a failing \<open>assert\<close> (only without \<open>NDEBUG\<close>, \<open>ndebug\<close> of the platform), an access
  outside an array or a view, a missing return. A theorem that ends in \<open>Inr\<close> says, among other
  things, that none of these happens. Loops over an index are functions with a measure, so
  they terminate. The loops that depend on the outside (\<open>UartController\<close>, the slave on libmodbus) are
  partial functions into \<open>option\<close>, with \<open>None\<close> for a loop that does not end, and it is shown when
  they return; no definition uses fuel.

  \<^bold>\<open>Code that is not in the repository\<close> (the submodule \<open>external/CppUtilities\<close> and the serial
  device) enters as parameters. \<open>GetByte\<close> and \<open>Make_MSB_uint16_tFromU8Array\<close> are fields of the
  platform, with \<open>platform_ok\<close> for what the code relies on; the CRC function is an argument, of
  which \<open>crc_ok\<close> only says that it is a function \<open>g\<close> of the first bytes of the view: every
  theorem holds for every such \<open>g\<close>, and none uses the polynomial. \<open>ArrayView\<close> is a length and a
  position in memory; an access outside it is a fault after which nothing is said. The serial
  device of the driver on queues is what arrives in each turn and what the clock says; that of the
  driver on a \<open>UartController\<close> is the records \<open>ring_ops\<close> and \<open>port_ops\<close>, with the locale
  \<open>uart_device\<close> for first-in-first-out rings of 1024 bytes that drop what does not fit and a port
  that takes every byte. The operating system's part of the port setup is the record
  \<open>posix_ops\<close>. The conversions between values and bytes are, for the wrappers of the connected
  device, the record \<open>conversions\<close>, with \<open>conversions_ok\<close> for the byte order that their names
  promise, and, for the register map of the tests, the record \<open>map_conversions\<close>, with
  \<open>map_conversions_ok\<close>: they write a field out and read it back, in whatever order (the tests say
  "Set field, read, set a new value, write original value array, check equal to original setting").
  Both predicates only speak of data that has the size of the field; for any other size the
  conversions may do anything, and fail. The calls of libmodbus are the record \<open>modbus_bus\<close> and the
  records that extend it; what is relied on is that the register calls do to the device's registers
  what the library's documentation says (\<open>documented_bus\<close>). A hypothesis of this kind can hold:
  \<open>msb_platform\<close>, \<open>msb_conversions\<close>, \<open>msb_map_conversions\<close>, \<open>list_bus\<close>, \<open>queue_ring\<close> and
  \<open>line_port\<close> satisfy them and the witnesses use them.

  \<^bold>\<open>Mapped stores.\<close> \<open>MappedRegisterDataStore\<close> reads the tables \<open>offsets_\<close> and \<open>end_points_\<close> of its
  wrapper. The wrapper of the tests has them. Those of the connected device, generated for an older
  header, do not, so this device does not compile: its structs, wrappers, command line and initial
  state are modelled, its store and slave are not, and the memory controller of the master program
  that uses one of the wrappers is a parameter. A \<open>HoldingRegisterController\<close> calls two functions on
  its store after a write that a mapped store does not have; so what is said of a slave over a mapped
  store is about its input registers. The slave hands a store a view two bytes longer than the
  registers asked for; what the library does with an array and a longer view is not known, so
  requests that start with an array are left out there.

  \<^bold>\<open>Limits.\<close> A reply is at most 256 bytes, so the theorems about replies ask for at most 125
  registers in a read (\<open>read_fits\<close>); a request is at most 256 bytes, CRC included, after its
  first two for the reader, and at most 254 for the CRC check (\<open>request_wf\<close>). The code checks
  none of these limits; the theorems \<open>read_126_registers_corrupts_reply\<close>,
  \<open>long_read_overruns_reply\<close>, \<open>oversized_write_overruns_frame_buffer\<close> and
  \<open>long_write_overruns_crc_buffer\<close> say what it does behind each of them. The stores have at most
  65536 registers, the range of a Modbus address. A ring buffer holds 1024 bytes, so a turn of
  the driver implements the turn on queues when what waits on the port fits the receive ring
  (\<open>rx_room\<close>); a reply always fits the other one.

  \<^bold>\<open>What the theorems show.\<close> The function tables agree; a store returns what was written; the
  reader completes a request exactly at its last byte, and is done with any request after at most
  257 bytes; the CRC check compares the right bytes;
  the slave refines \<open>serve\<close>; each request gets its reply and its effect on the store, in and out
  of range, and a request that is corrupt or meant for another slave has neither; a master's
  registers arrive; the driver keeps its invariant in every reachable state, answers every request
  of a session through its ring buffers and its serial port, and finds the start of the next
  request after a silence; an access to the block memory
  is valid exactly inside one block. The mapped store of the generated register map takes whole
  fields and nothing else, keeps the first of them, and gives it back; a slave with this map
  answers with it, and its driver puts it on the line. The wrappers of the connected device set
  and get each field. The master programs print and leave the registers they wrote. The snooper
  discards complete requests unseen. The slave on libmodbus ends well when nothing more is
  received, and badly when a reply fails.

  \<^bold>\<open>Not modelled\<close>: the composition of the connected device, text that goes to the error stream, pauses, the copies of \<open>LinuxModbusTools.h\<close> beside the
  connected device and the snooper (they are that of the Linux slave, word for word), the Python
  programs, and of the tests all but the generated register map.
\<close>

section \<open>From the master's registers to the slave's\<close>

text \<open>
  C2: end to end: the registers a master puts into a Write Multiple Holding Registers command
  (\<open>FillFrame\<close>), framed and sent, byte by byte through the slave's reader, its validation and
  its store, are afterwards the contents of the addressed holding registers and of no other;
  the reply names the address and the count.
\<close>

theorem master_registers_reach_slave:
  assumes P: "platform_ok P" and wf: "device_wf g sl" and crc: "crc_ok crcf g"
    and f: "view_wf (data_array f)" "253 \<le> view_size (data_array f)" "frame_address f = slave_address sl"
    and ws: "1 \<le> length ws" "length ws \<le> 123" "n = word_of_nat (length ws)"
    and range: "unat a + length ws \<le> length (registers (holding_store sl))"
  shows "rbind (rbind (WriteMultiple_FillFrame P a n (view_of ws) f) (\<lambda>(_, f). send P crcf f))
      (\<lambda>adu. outcome (device_exchange P sl adu)) =
    Inr (Some (with_crc P g ([slave_address sl, 16] @ reg_bytes P [a, n])),
         (holding_store sl)\<lparr>registers := overwrite (unat a) ws (registers (holding_store sl)),
            flags := overwrite (unat a) (replicate (length ws) True) (flags (holding_store sl))\<rparr>,
         input_store sl)"
proof -
  let ?data = "reg_bytes P [a, n] @ word_of_nat (2 * length ws) # reg_bytes P ws"
  let ?f = "f\<lparr>frame_function := kWriteMultipleHoldingRegisters, data_length := 5 + 2 * length ws,
        data_array := (data_array f)\<lparr>view_data := overwrite 0 ?data (view_data (data_array f))\<rparr>\<rparr>"
  have un: "unat n = length ws" using ws by (simp only: unat_word_of_nat_u16) simp
  have fill: "WriteMultiple_FillFrame P a n (view_of ws) f = Inr (0, ?f)"
    by (rule FillFrame_write_multiple) (use f ws in \<open>simp_all add: has_bytes_def view_wf_def\<close>)
  have len: "length ?data = 5 + 2 * length ws" by simp
  have "send P crcf ?f = Inr (request_adu P g (frame_address f) kWriteMultipleHoldingRegisters ?data)"
    using send_request [OF crc _ f(1), of ?data P kWriteMultipleHoldingRegisters] f(2) ws(2)
    by (simp only: len)
  then have wire: "rbind (WriteMultiple_FillFrame P a n (view_of ws) f) (\<lambda>(_, f). send P crcf f) =
      Inr (request_adu P g (slave_address sl) kWriteMultipleHoldingRegisters ?data)"
    by (simp only: fill f(3) rbind_simps prod.case)
  have "in_range (registers (holding_store sl)) a n"
    using range ws(1) un by (simp add: in_range_def)
  moreover have "bytes_regs P (reg_bytes P ws) = ws" using P by simp
  ultimately have "outcome (device_exchange P sl
      (request_adu P g (slave_address sl) kWriteMultipleHoldingRegisters ?data)) =
    Inr (Some (with_crc P g ([slave_address sl, 16] @ reg_bytes P [a, n])),
         (holding_store sl)\<lparr>registers := overwrite (unat a) ws (registers (holding_store sl)),
            flags := overwrite (unat a) (replicate (length ws) True) (flags (holding_store sl))\<rparr>,
         input_store sl)"
    using write_multiple_outcome [OF P wf, of n "reg_bytes P ws" a] ws(1,2)
    by (simp only: un length_reg_bytes if_True)
  then show ?thesis by (simp only: wire rbind_simps)
qed

theorem master_registers_reach_slave_witness:
  "rbind (rbind (WriteMultiple_FillFrame (msb_platform True) 1 2 (view_of [500, 600])
         ((Frame_of_view (view_of (replicate 253 0)))\<lparr>frame_address := 7\<rparr>))
       (\<lambda>(_, f). send (msb_platform True) (crc16 (msb_platform True) demo_crc) f))
     (\<lambda>adu. outcome (device_exchange (msb_platform True) demo_device adu)) =
   Inr (Some (with_crc (msb_platform True) demo_crc [7, 16, 0, 1, 0, 2]),
        \<lparr>registers = [1, 500, 600, 4], flags = [False, True, True, False]\<rparr>, demo_input)"
  using master_registers_reach_slave [OF msb_platform_ok demo_device_wf crc16_ok,
      of "(Frame_of_view (view_of (replicate 253 0)))\<lparr>frame_address := 7\<rparr>" "[500, 600]" 2 1 True "msb_platform True"]
  by (simp add: Frame_of_view_def demo_holding_def overwrite_def del: rbind_eq_Inr)

end
